(* ===== verification/Prelude.thy ===== *)
theory Prelude
  imports Complex_Main "HOL-Library.Sublist"
begin

text \<open>
  Shared vocabulary of the development: how Python values and effects are written down.

  \<^item> A Python \<open>str\<close> is a \<open>pystr\<close>, the list of its code points, so that a lone
    surrogate or a character beyond Latin-1 is a value of the model as it is one of the
    program. \<open>bytes\<close> is Isabelle's \<open>string\<close> (8-bit characters). \<open>py ''x''\<close> is the
    Latin-1 decoding of a byte string, hence also how a literal is written.
  \<^item> An exception is the \<open>Inl\<close> of a sum \<open>exn + 'a\<close>.
  \<^item> Code that calls the host (stores, transactions, audit) is an \<open>('s, 'a) act\<close>: a
    function of the host's state \<open>'s\<close> that answers a result or an exception together with
    the state it leaves, because an exception does not undo what was written before it.
\<close>

section \<open>Values\<close>

type_synonym pystr = "nat list"
type_synonym bytes = string

definition py :: "string \<Rightarrow> pystr" where
  "py s = map of_char s"

text \<open>
  The Python objects the library inspects by type: configuration values before they are
  validated, and parsed JSON (claims, keys, token answers). A dictionary parsed from JSON has
  string keys; \<open>map_of\<close> reads it. No code of the library reads the value of a float, and
  \<open>PyOther\<close> is any object of another class.
\<close>

datatype pyobj =
    PyNone
  | PyBool bool
  | PyInt int
  | PyFloat
  | PyStr pystr
  | PyList "pyobj list"
  | PyTuple "pyobj list"
  | PyFrozenset "pyobj list"
  | PyDict "(pystr \<times> pyobj) list"
  | PyOther nat

section \<open>Exceptions and results\<close>

text \<open>
  The exceptions the library raises or lets through. \<open>HostError n\<close> is any exception of the
  host's own code (a store, a transaction, the application behind a middleware).
  \<open>UsernameTaken\<close> is \<open>UsernameTakenError\<close>, the one a \<open>SubjectUserStore\<close> announces.
\<close>

datatype exn =
    ValueError
  | TypeError
  | RuntimeError
  | KeyError
  | OverflowError
  | UsernameTaken
  | UsernameTakenSignal
  | BodyTooLarge
  | TimeoutError
  | KeySetFetchError
  | TokenEndpointError
  | ClientDisconnect
  | HostError nat

type_synonym ('s, 'a) act = "'s \<Rightarrow> (exn + 'a) \<times> 's"

named_theorems result_simps \<open>equations of the result and action combinators\<close>
named_theorems py_eval \<open>equations that evaluate the string operations on concrete text\<close>

definition bindR :: "'e + 'a \<Rightarrow> ('a \<Rightarrow> 'e + 'b) \<Rightarrow> 'e + 'b" where
  "bindR r f = (case r of Inl e \<Rightarrow> Inl e | Inr v \<Rightarrow> f v)"

fun mapR :: "('a \<Rightarrow> 'e + 'b) \<Rightarrow> 'a list \<Rightarrow> 'e + 'b list" where
  "mapR f [] = Inr []"
| "mapR f (x # xs) = bindR (f x) (\<lambda>y. bindR (mapR f xs) (\<lambda>ys. Inr (y # ys)))"

definition check :: "bool \<Rightarrow> 'e \<Rightarrow> 'e + unit" where
  "check b e = (if b then Inr () else Inl e)"

definition ret :: "'a \<Rightarrow> ('s, 'a) act" where
  "ret v = (\<lambda>s. (Inr v, s))"

definition raise :: "exn \<Rightarrow> ('s, 'a) act" where
  "raise e = (\<lambda>s. (Inl e, s))"

definition bindA :: "('s, 'a) act \<Rightarrow> ('a \<Rightarrow> ('s, 'b) act) \<Rightarrow> ('s, 'b) act" where
  "bindA m f = (\<lambda>s. case m s of (Inl e, s') \<Rightarrow> (Inl e, s') | (Inr v, s') \<Rightarrow> f v s')"

text \<open>A result computed without the host, and the map over an action's result.\<close>

definition liftR :: "exn + 'a \<Rightarrow> ('s, 'a) act" where
  "liftR r = (\<lambda>s. (r, s))"

text \<open>
  A refusal the code raises and catches inside itself (\<open>_VerificationRefusal\<close>, \<open>_RefusalError\<close>) is a
  value beside the exceptions: \<open>bindV\<close> goes on with the value and hands a refusal through.
\<close>

definition bindV :: "('s, 'r + 'a) act \<Rightarrow> ('a \<Rightarrow> ('s, 'r + 'b) act) \<Rightarrow> ('s, 'r + 'b) act" where
  "bindV m f = bindA m (\<lambda>r. case r of Inl x \<Rightarrow> ret (Inl x) | Inr v \<Rightarrow> f v)"

text \<open>\<open>try: ... finally:\<close> with a clean-up that cannot fail.\<close>

definition finallyA :: "('s, 'a) act \<Rightarrow> ('s \<Rightarrow> 's) \<Rightarrow> ('s, 'a) act" where
  "finallyA m clean = (\<lambda>s. case m s of (r, s') \<Rightarrow> (r, clean s'))"

lemma bindR_simps [simp, result_simps]:
  "bindR (Inl e) f = Inl e"
  "bindR (Inr v) f = f v"
  by (simp_all add: bindR_def)

lemma bindR_eq_Inr [simp]: "bindR r f = Inr b \<longleftrightarrow> (\<exists>a. r = Inr a \<and> f a = Inr b)"
  by (cases r) auto

lemma bindR_eq_Inl: "bindR r f = Inl e \<longleftrightarrow> r = Inl e \<or> (\<exists>a. r = Inr a \<and> f a = Inl e)"
  by (cases r) auto

lemma mapR_Inr: "mapR f xs = Inr ys \<longleftrightarrow> list_all2 (\<lambda>x y. f x = Inr y) xs ys"
  by (induction xs arbitrary: ys) (auto simp: list_all2_Cons1)

lemma mapR_InrD: "mapR f xs = Inr ys \<Longrightarrow> y \<in> set ys \<Longrightarrow> \<exists>x\<in>set xs. f x = Inr y"
  by (induction xs arbitrary: ys) auto

lemma check_eq [simp, result_simps]:
  "check b e = Inr u \<longleftrightarrow> b"
  "check b e = Inl e' \<longleftrightarrow> \<not> b \<and> e' = e"
  by (auto simp: check_def)

lemma check_simps [simp, result_simps]: "check True e = Inr ()" "check False e = Inl e"
  by (simp_all add: check_def)

lemma bindA_ret [simp, result_simps]: "bindA (ret v) f = f v"
  by (simp add: bindA_def ret_def)

lemma bindA_raise [simp, result_simps]: "bindA (raise e) f = raise e"
  by (simp add: bindA_def raise_def)

lemma liftR_simps [simp, result_simps]:
  "liftR r s = (r, s)" "liftR (Inr v) = ret v" "liftR (Inl e) = raise e"
  by (simp_all add: liftR_def ret_def raise_def)

lemma bindA_assoc: "bindA (bindA m f) g = bindA m (\<lambda>x. bindA (f x) g)"
  by (rule ext) (simp add: bindA_def split: prod.split sum.split)

lemma act_apply [simp, result_simps]: "ret v s = (Inr v, s)" "raise e s = (Inl e, s)"
  by (simp_all add: ret_def raise_def)

lemma bindA_apply [result_simps]:
  "m s = (Inr v, s') \<Longrightarrow> bindA m f s = f v s'"
  "m s = (Inl e, s') \<Longrightarrow> bindA m f s = (Inl e, s')"
  by (simp_all add: bindA_def)

lemma bindA_InrE:
  assumes "bindA m f s = (Inr w, s'')"
  obtains v s' where "m s = (Inr v, s')" "f v s' = (Inr w, s'')"
  using assms by (auto simp: bindA_def split: prod.splits sum.splits)

lemma bindV_simps [simp, result_simps]:
  "bindV (ret (Inr v)) f = f v" "bindV (ret (Inl x)) f = ret (Inl x)" "bindV (raise e) f = raise e"
  unfolding bindV_def bindA_ret bindA_raise by simp_all

text \<open>The simplifier reads \<open>ret v s = (Inr v, s)\<close> as \<open>ret v = Pair (Inr v)\<close>; the same equations in that form.\<close>

lemma bind_Pair [simp]:
  "bindA (Pair (Inr v)) f = f v" "bindA (Pair (Inl e)) f = Pair (Inl e)"
  "bindV (Pair (Inr (Inr v))) g = g v" "bindV (Pair (Inr (Inl x))) g = Pair (Inr (Inl x))"
  "bindV (Pair (Inl e)) g = Pair (Inl e)"
  by (rule ext, simp add: bindA_def bindV_def)+

lemma bindA_eq_Inr: "bindA m f s = (Inr w, s'') \<longleftrightarrow> (\<exists>v s'. m s = (Inr v, s') \<and> f v s' = (Inr w, s''))"
  by (auto simp: bindA_def split: prod.splits sum.splits)

text \<open>Which branch an action took: the bind of a refused or missing result, by cases.\<close>

lemma bindA_cases_Inr:
  "bindA m (case_sum f g) s = (Inr w, s') \<longleftrightarrow>
     (\<exists>x s1. m s = (Inr (Inl x), s1) \<and> f x s1 = (Inr w, s')) \<or> (\<exists>v s1. m s = (Inr (Inr v), s1) \<and> g v s1 = (Inr w, s'))"
  "bindA n (case_option h k) s = (Inr w, s') \<longleftrightarrow>
     (\<exists>s1. n s = (Inr None, s1) \<and> h s1 = (Inr w, s')) \<or> (\<exists>v s1. n s = (Inr (Some v), s1) \<and> k v s1 = (Inr w, s'))"
  "bindA (liftR r) l s = (Inr w, s') \<longleftrightarrow> (\<exists>v. r = Inr v \<and> l v s = (Inr w, s'))"
proof -
  show "bindA m (case_sum f g) s = (Inr w, s') \<longleftrightarrow>
     (\<exists>x s1. m s = (Inr (Inl x), s1) \<and> f x s1 = (Inr w, s')) \<or> (\<exists>v s1. m s = (Inr (Inr v), s1) \<and> g v s1 = (Inr w, s'))"
    unfolding bindA_eq_Inr by (simp add: split_sum_ex)
  show "bindA n (case_option h k) s = (Inr w, s') \<longleftrightarrow>
     (\<exists>s1. n s = (Inr None, s1) \<and> h s1 = (Inr w, s')) \<or> (\<exists>v s1. n s = (Inr (Some v), s1) \<and> k v s1 = (Inr w, s'))"
    unfolding bindA_eq_Inr by (simp add: split_option_ex)
  show "bindA (liftR r) l s = (Inr w, s') \<longleftrightarrow> (\<exists>v. r = Inr v \<and> l v s = (Inr w, s'))"
    by (cases r) (simp_all add: bindA_def)
qed

lemma bindV_eq_Inr:
  "bindV m f s = (Inr (Inr w), s'') \<longleftrightarrow> (\<exists>v s'. m s = (Inr (Inr v), s') \<and> f v s' = (Inr (Inr w), s''))"
proof -
  have "(case r of Inl x \<Rightarrow> ret (Inl x) | Inr v \<Rightarrow> f v) s' = (Inr (Inr w), s'')
      \<longleftrightarrow> (\<exists>v. r = Inr v \<and> f v s' = (Inr (Inr w), s''))" for r s'
    by (cases r) (simp_all add: ret_def)
  then show ?thesis unfolding bindV_def bindA_eq_Inr by (simp only:) auto
qed

text \<open>
  A host transaction, as \<open>with transaction() as stores:\<close> uses it. Entering answers the
  state the block starts in, or raises; leaving without an exception commits, which may raise
  and decides the state either way; leaving by an exception lets the host clean up, and the
  exception goes on. The state at entry is handed to both exits, so a host that restores it
  (a rollback) and one that keeps what was written are both instances.
\<close>

record 's transaction =
  tx_enter :: "'s \<Rightarrow> exn + 's"
  tx_commit :: "'s \<Rightarrow> 's \<Rightarrow> (exn + unit) \<times> 's"
  tx_abort :: "'s \<Rightarrow> exn \<Rightarrow> 's \<Rightarrow> 's"

definition in_tx :: "'s transaction \<Rightarrow> ('s, 'a) act \<Rightarrow> ('s, 'a) act" where
  "in_tx tx body = (\<lambda>s0. case tx_enter tx s0 of
      Inl e \<Rightarrow> (Inl e, s0)
    | Inr s1 \<Rightarrow> (case body s1 of
        (Inl e, s2) \<Rightarrow> (Inl e, tx_abort tx s0 e s2)
      | (Inr v, s2) \<Rightarrow> (case tx_commit tx s0 s2 of
          (Inl e, s3) \<Rightarrow> (Inl e, s3)
        | (Inr _, s3) \<Rightarrow> (Inr v, s3))))"

lemma in_tx_InrE:
  assumes "in_tx tx body s0 = (Inr v, s3)"
  obtains s1 s2 where "tx_enter tx s0 = Inr s1" "body s1 = (Inr v, s2)"
    "tx_commit tx s0 s2 = (Inr (), s3)"
  using assms by (auto simp: in_tx_def split: sum.splits prod.splits)

text \<open>The rollback transaction of a database: it commits the block's state or restores the
  one it began with.\<close>

definition rollback_tx :: "'s transaction" where
  "rollback_tx = \<lparr>tx_enter = Inr, tx_commit = (\<lambda>_ s. (Inr (), s)), tx_abort = (\<lambda>s0 _ _. s0)\<rparr>"

lemma in_rollback_tx: "in_tx rollback_tx body s0 =
    (case body s0 of (Inl e, _) \<Rightarrow> (Inl e, s0) | (Inr v, s) \<Rightarrow> (Inr v, s))"
  by (simp add: in_tx_def rollback_tx_def split: sum.split prod.split)

section \<open>Actions that leave the host's state alone\<close>

definition readA :: "('s \<Rightarrow> 'a) \<Rightarrow> ('s, 'a) act" where
  "readA f = (\<lambda>s. (Inr (f s), s))"

definition writeA :: "('s \<Rightarrow> 's) \<Rightarrow> ('s, unit) act" where
  "writeA f = (\<lambda>s. (Inr (), f s))"

definition refuse :: "'r \<Rightarrow> ('s, 'r + 'a) act" where
  "refuse r = ret (Inl r)"

definition pure_act :: "('s, 'a) act \<Rightarrow> bool" where
  "pure_act m \<longleftrightarrow> (\<forall>s. snd (m s) = s)"

text \<open>\<open>m\<close> leaves the state alone, or changes it as \<open>u\<close> does, once.\<close>

definition at_most_once :: "('s \<Rightarrow> 's) \<Rightarrow> ('s, 'a) act \<Rightarrow> bool" where
  "at_most_once u m \<longleftrightarrow> (\<forall>s. snd (m s) = s \<or> snd (m s) = u s)"

named_theorems pure_intros \<open>actions that leave the state alone, and how they compose\<close>

lemma snd_bindA: "snd (bindA m f s) = (case fst (m s) of Inl _ \<Rightarrow> snd (m s) | Inr v \<Rightarrow> snd (f v (snd (m s))))"
  by (simp add: bindA_def split: prod.split sum.split)

lemma pure_actD: "pure_act m \<Longrightarrow> snd (m s) = s"
  by (simp add: pure_act_def)

lemma pure_basic [pure_intros]:
  "pure_act (ret v)" "pure_act (raise e)" "pure_act (liftR r)" "pure_act (readA g)" "pure_act (refuse x)"
  by (simp_all add: pure_act_def ret_def raise_def liftR_def readA_def refuse_def)

lemma pure_bindA [pure_intros]: "pure_act m \<Longrightarrow> (\<And>v. pure_act (f v)) \<Longrightarrow> pure_act (bindA m f)"
  by (simp add: pure_act_def snd_bindA split: sum.split)

lemma pure_bindV [pure_intros]: "pure_act m \<Longrightarrow> (\<And>v. pure_act (f v)) \<Longrightarrow> pure_act (bindV m f)"
  unfolding bindV_def by (intro pure_bindA) (auto intro: pure_basic split: sum.split)

lemma pure_if [pure_intros]: "(b \<Longrightarrow> pure_act m) \<Longrightarrow> (\<not> b \<Longrightarrow> pure_act n) \<Longrightarrow> pure_act (if b then m else n)"
  by simp

lemma pure_case_option [pure_intros]:
  "pure_act m \<Longrightarrow> (\<And>v. pure_act (f v)) \<Longrightarrow> pure_act (case x of None \<Rightarrow> m | Some v \<Rightarrow> f v)"
  by (cases x) auto

lemma pure_case_sum [pure_intros]:
  "(\<And>a. pure_act (f a)) \<Longrightarrow> (\<And>b. pure_act (g b)) \<Longrightarrow> pure_act (case x of Inl a \<Rightarrow> f a | Inr b \<Rightarrow> g b)"
  by (cases x) auto

lemma pure_case_prod [pure_intros]: "(\<And>a b. pure_act (f a b)) \<Longrightarrow> pure_act (case x of (a, b) \<Rightarrow> f a b)"
  by (cases x) auto

lemma at_most_once_pure: "pure_act m \<Longrightarrow> at_most_once u m"
  by (simp add: pure_act_def at_most_once_def)

lemma at_most_once_before: "pure_act m \<Longrightarrow> (\<And>v. at_most_once u (f v)) \<Longrightarrow> at_most_once u (bindA m f)"
  by (simp add: pure_act_def at_most_once_def snd_bindA split: sum.split)

lemma at_most_once_after: "at_most_once u m \<Longrightarrow> (\<And>v. pure_act (f v)) \<Longrightarrow> at_most_once u (bindA m f)"
  by (auto simp: pure_act_def at_most_once_def snd_bindA split: sum.split)

lemma at_most_once_beforeV: "pure_act m \<Longrightarrow> (\<And>v. at_most_once u (f v)) \<Longrightarrow> at_most_once u (bindV m f)"
  unfolding bindV_def by (intro at_most_once_before) (auto intro: at_most_once_pure pure_basic split: sum.split)

lemma at_most_once_afterV: "at_most_once u m \<Longrightarrow> (\<And>v. pure_act (f v)) \<Longrightarrow> at_most_once u (bindV m f)"
  unfolding bindV_def by (intro at_most_once_after) (auto intro: pure_basic split: sum.split)

text \<open>A call whose failure becomes a refusal of the caller's own.\<close>

lemma refusing_held:
  "bindA m (\<lambda>r. case r of Inl x \<Rightarrow> refuse (g x) | Inr v \<Rightarrow> ret (Inr v)) s = (Inr (Inr c), s') \<longleftrightarrow> m s = (Inr (Inr c), s')"
proof -
  have "(case r of Inl x \<Rightarrow> refuse (g x) | Inr v \<Rightarrow> ret (Inr v)) t = (Inr (Inr c), s') \<longleftrightarrow> r = Inr c \<and> t = s'" for r t
    by (cases r) (auto simp: refuse_def ret_def)
  then show ?thesis by (auto simp: bindA_eq_Inr)
qed

text \<open>\<open>m\<close> leaves what \<open>f\<close> reads of the state as it was, also when it raises.\<close>

definition keeps :: "('s \<Rightarrow> 'b) \<Rightarrow> ('s, 'a) act \<Rightarrow> bool" where
  "keeps f m \<longleftrightarrow> (\<forall>s. f (snd (m s)) = f s)"

named_theorems keeps_intros \<open>actions that keep a part of the state, and how they compose\<close>

lemma keepsD: "keeps f m \<Longrightarrow> m s = (r, s') \<Longrightarrow> f s' = f s"
  unfolding keeps_def by (metis snd_conv)

lemma keeps_pure: "pure_act m \<Longrightarrow> keeps f m"
  by (simp add: pure_act_def keeps_def)

lemma keeps_basic [keeps_intros]:
  "keeps f (ret v)" "keeps f (raise e)" "keeps f (liftR r)" "keeps f (readA g)" "keeps f (refuse x)"
  by (intro keeps_pure pure_basic)+

lemma keeps_writeA [keeps_intros]: "(\<And>s. f (g s) = f s) \<Longrightarrow> keeps f (writeA g)"
  by (simp add: keeps_def writeA_def)

lemma keeps_bindA [keeps_intros]: "keeps f m \<Longrightarrow> (\<And>v. keeps f (g v)) \<Longrightarrow> keeps f (bindA m g)"
  by (simp add: keeps_def snd_bindA split: sum.split)

lemma keeps_bindV [keeps_intros]: "keeps f m \<Longrightarrow> (\<And>v. keeps f (g v)) \<Longrightarrow> keeps f (bindV m g)"
  unfolding bindV_def by (intro keeps_bindA) (auto intro: keeps_basic split: sum.split)

lemma keeps_finallyA [keeps_intros]: "keeps f m \<Longrightarrow> (\<And>s. f (clean s) = f s) \<Longrightarrow> keeps f (finallyA m clean)"
  unfolding keeps_def finallyA_def by (simp add: case_prod_unfold)

lemma keeps_cases [keeps_intros]:
  "keeps f m \<Longrightarrow> keeps f n \<Longrightarrow> keeps f (if b then m else n)"
  "keeps f m \<Longrightarrow> (\<And>v. keeps f (g v)) \<Longrightarrow> keeps f (case x of None \<Rightarrow> m | Some v \<Rightarrow> g v)"
  "(\<And>a. keeps f (h a)) \<Longrightarrow> (\<And>b. keeps f (k b)) \<Longrightarrow> keeps f (case y of Inl a \<Rightarrow> h a | Inr b \<Rightarrow> k b)"
  "(\<And>a b. keeps f (p a b)) \<Longrightarrow> keeps f (case z of (a, b) \<Rightarrow> p a b)"
  by (cases x; cases y; cases z; simp)+

section \<open>Small list facts the components share\<close>

lemma filter_eq_imp_length_le:
  "(\<And>x. x \<in> set xs \<Longrightarrow> P x \<Longrightarrow> Q x) \<Longrightarrow> length (filter P xs) \<le> length (filter Q xs)"
  by (induction xs) auto

end
