(* ===== verification/Text.thy ===== *)
theory Text
  imports Prelude
begin

text \<open>
  The operations of Python's \<open>str\<close> and \<open>bytes\<close> the library uses, as the language defines
  them: prefix and suffix tests, \<open>split\<close>, \<open>partition\<close>, \<open>rpartition\<close>, \<open>strip\<close>, \<open>lower\<close>,
  decimal numerals, ASCII and UTF-8. \<open>lower_py\<close> maps the Latin-1 letters and leaves every
  other code point, which is exact wherever the library folds case: on header values, which
  are Latin-1, and in comparisons with ASCII text no other code point folds into.
\<close>

section \<open>Prefixes, pieces and joins\<close>

definition startswith :: "pystr \<Rightarrow> pystr \<Rightarrow> bool" where
  "startswith s p = prefix p s"

definition endswith :: "pystr \<Rightarrow> pystr \<Rightarrow> bool" where
  "endswith s p = suffix p s"

definition startswith_any :: "pystr \<Rightarrow> pystr list \<Rightarrow> bool" where
  "startswith_any s ps = (\<exists>p\<in>set ps. startswith s p)"

text \<open>\<open>s.split(c)\<close> for a separator of one character: never the empty list.\<close>

fun split_on :: "nat \<Rightarrow> pystr \<Rightarrow> pystr list" where
  "split_on c [] = [[]]"
| "split_on c (x # xs) =
     (if x = c then [] # split_on c xs
      else (case split_on c xs of [] \<Rightarrow> [[x]] | y # ys \<Rightarrow> (x # y) # ys))"

text \<open>\<open>s.partition(c)\<close>: what precedes the first \<open>c\<close>, whether there is one, and what follows.\<close>

fun partition_on :: "nat \<Rightarrow> pystr \<Rightarrow> pystr \<times> bool \<times> pystr" where
  "partition_on c [] = ([], False, [])"
| "partition_on c (x # xs) =
     (if x = c then ([], True, xs)
      else (case partition_on c xs of (a, f, b) \<Rightarrow> (x # a, f, b)))"

text \<open>\<open>s.rpartition(c)\<close>: cut at the last \<open>c\<close>; without one the whole text is the right part.\<close>

definition rpartition_on :: "nat \<Rightarrow> pystr \<Rightarrow> pystr \<times> bool \<times> pystr" where
  "rpartition_on c s =
     (case partition_on c (rev s) of
        (r, True, l) \<Rightarrow> (rev l, True, rev r)
      | (r, False, _) \<Rightarrow> ([], False, s))"

fun join_with :: "pystr \<Rightarrow> pystr list \<Rightarrow> pystr" where
  "join_with sep [] = []"
| "join_with sep [x] = x"
| "join_with sep (x # xs) = x @ sep @ join_with sep xs"

section \<open>Characters\<close>

text \<open>The code points \<open>str.isspace\<close> and \<open>str.strip\<close> take as white space.\<close>

definition is_space :: "nat \<Rightarrow> bool" where
  "is_space c \<longleftrightarrow> (9 \<le> c \<and> c \<le> 13) \<or> (28 \<le> c \<and> c \<le> 32) \<or> c = 133 \<or> c = 160 \<or> c = 5760
     \<or> (8192 \<le> c \<and> c \<le> 8202) \<or> c = 8232 \<or> c = 8233 \<or> c = 8239 \<or> c = 8287 \<or> c = 12288"

definition isspace :: "pystr \<Rightarrow> bool" where
  "isspace s \<longleftrightarrow> s \<noteq> [] \<and> list_all is_space s"

definition strip_of :: "(nat \<Rightarrow> bool) \<Rightarrow> pystr \<Rightarrow> pystr" where
  "strip_of P s = rev (dropWhile P (rev (dropWhile P s)))"

definition strip :: "pystr \<Rightarrow> pystr" where
  "strip s = strip_of is_space s"

definition rstrip_char :: "nat \<Rightarrow> pystr \<Rightarrow> pystr" where
  "rstrip_char c s = rev (dropWhile (\<lambda>x. x = c) (rev s))"

definition is_digit :: "nat \<Rightarrow> bool" where
  "is_digit c \<longleftrightarrow> 48 \<le> c \<and> c \<le> 57"

definition is_lower_ascii :: "nat \<Rightarrow> bool" where
  "is_lower_ascii c \<longleftrightarrow> 97 \<le> c \<and> c \<le> 122"

definition is_upper_ascii :: "nat \<Rightarrow> bool" where
  "is_upper_ascii c \<longleftrightarrow> 65 \<le> c \<and> c \<le> 90"

definition is_alnum_ascii :: "nat \<Rightarrow> bool" where
  "is_alnum_ascii c \<longleftrightarrow> is_digit c \<or> is_lower_ascii c \<or> is_upper_ascii c"

definition isascii :: "pystr \<Rightarrow> bool" where
  "isascii s \<longleftrightarrow> list_all (\<lambda>c. c < 128) s"

definition lower_char :: "nat \<Rightarrow> nat" where
  "lower_char c =
     (if is_upper_ascii c \<or> (192 \<le> c \<and> c \<le> 222 \<and> c \<noteq> 215) then c + 32 else c)"

definition lower_py :: "pystr \<Rightarrow> pystr" where
  "lower_py s = map lower_char s"

definition upper_char :: "nat \<Rightarrow> nat" where
  "upper_char c = (if is_lower_ascii c then c - 32 else c)"

text \<open>\<open>str.upper\<close> on ASCII, which is what it is applied to: the method of a request.\<close>

definition upper_py :: "pystr \<Rightarrow> pystr" where
  "upper_py s = map upper_char s"

section \<open>Numerals\<close>

fun nat_dec :: "nat \<Rightarrow> pystr" where
  "nat_dec n = (if n < 10 then [48 + n] else nat_dec (n div 10) @ [48 + n mod 10])"

declare nat_dec.simps [simp del]

definition int_dec :: "int \<Rightarrow> pystr" where
  "int_dec i = (if i < 0 then 45 # nat_dec (nat (- i)) else nat_dec (nat i))"

fun dec_value :: "nat \<Rightarrow> pystr \<Rightarrow> nat" where
  "dec_value acc [] = acc"
| "dec_value acc (d # ds) = dec_value (10 * acc + (d - 48)) ds"

definition hex_digit :: "nat \<Rightarrow> nat" where
  "hex_digit n = (if n < 10 then 48 + n else 87 + n)"

definition is_hex_lower :: "nat \<Rightarrow> bool" where
  "is_hex_lower c \<longleftrightarrow> is_digit c \<or> (97 \<le> c \<and> c \<le> 102)"

section \<open>UTF-8\<close>

text \<open>A code point UTF-8 can write: no surrogate, and at most U+10FFFF.\<close>

definition is_scalar :: "nat \<Rightarrow> bool" where
  "is_scalar c \<longleftrightarrow> c < 55296 \<or> (57344 \<le> c \<and> c < 1114112)"

definition utf8_char :: "nat \<Rightarrow> nat list" where
  "utf8_char c =
     (if c < 128 then [c]
      else if c < 2048 then [192 + c div 64, 128 + c mod 64]
      else if c < 65536 then [224 + c div 4096, 128 + c div 64 mod 64, 128 + c mod 64]
      else [240 + c div 262144, 128 + c div 4096 mod 64, 128 + c div 64 mod 64, 128 + c mod 64])"

text \<open>\<open>text.encode()\<close>: the bytes (as numbers), or \<open>UnicodeEncodeError\<close>, a \<open>ValueError\<close>.\<close>

definition utf8_encode :: "pystr \<Rightarrow> exn + nat list" where
  "utf8_encode s = (if list_all is_scalar s then Inr (concat (map utf8_char s)) else Inl ValueError)"

section \<open>Facts\<close>

lemma py_simps [py_eval]: "py [] = []" "py (c # s) = of_char c # py s"
  by (simp_all add: py_def)

lemma py_append [simp]: "py (a @ b) = py a @ py b"
  by (simp add: py_def)

lemma length_py [simp]: "length (py s) = length s"
  by (simp add: py_def)

lemma py_eq_iff [simp]: "py a = py b \<longleftrightarrow> a = b"
  by (simp add: py_def inj_of_char)

lemma py_eq_Nil [simp]: "py s = [] \<longleftrightarrow> s = []"
  by (simp add: py_def)

lemma py_less_256: "x \<in> set (py s) \<Longrightarrow> x < 256"
  by (auto simp: py_def)

lemma startswith_simps [py_eval]:
  "startswith s [] = True"
  "startswith [] (p # ps) = False"
  "startswith (x # s) (p # ps) = (x = p \<and> startswith s ps)"
  by (auto simp: startswith_def)

lemma startswith_append [simp]: "startswith (p @ s) p"
  by (simp add: startswith_def)

lemma startswithE:
  assumes "startswith s p" obtains r where "s = p @ r"
  using assms by (auto simp: startswith_def prefix_def)

lemma startswith_trans: "startswith s p \<Longrightarrow> startswith p q \<Longrightarrow> startswith s q"
  by (auto simp: startswith_def intro: prefix_order.trans)

lemma startswith_take: "startswith s p \<longleftrightarrow> take (length p) s = p"
  by (metis append_eq_conv_conj prefix_def startswith_def)

lemma split_on_not_Nil [simp]: "split_on c s \<noteq> []"
  by (induction s) (auto split: list.splits)

lemma join_split: "join_with [c] (split_on c s) = s"
proof (induction s)
  case (Cons x s)
  obtain y ys where yys: "split_on c s = y # ys"
    by (cases "split_on c s") auto
  show ?case
  proof (cases "x = c")
    case True
    with Cons.IH yys show ?thesis by simp
  next
    case False
    have "join_with [c] ((x # y) # ys) = x # join_with [c] (y # ys)"
      by (cases ys) auto
    with False Cons.IH yys show ?thesis by simp
  qed
qed simp

lemma split_on_no_sep: "p \<in> set (split_on c s) \<Longrightarrow> c \<notin> set p"
  by (induction s arbitrary: p) (auto split: list.splits if_splits)

lemma split_on_subset: "p \<in> set (split_on c s) \<Longrightarrow> x \<in> set p \<Longrightarrow> x \<in> set s"
proof (induction s arbitrary: p)
  case (Cons y s)
  then show ?case by (fastforce split: if_splits list.splits)
qed simp

lemma split_on_append: "c \<notin> set a \<Longrightarrow> split_on c (a @ c # b) = a # split_on c b"
  by (induction a) auto

lemma split_on_none: "c \<notin> set a \<Longrightarrow> split_on c a = [a]"
  by (induction a) auto

lemma set_join_with: "set (join_with sep xs) \<subseteq> set sep \<union> \<Union> (set ` set xs)"
  by (induction sep xs rule: join_with.induct) auto

lemma join_with_Cons: "xs \<noteq> [] \<Longrightarrow> join_with sep (x # xs) = x @ sep @ join_with sep xs"
  by (cases xs) auto

lemma join_with_append:
  "xs \<noteq> [] \<Longrightarrow> ys \<noteq> [] \<Longrightarrow> join_with sep (xs @ ys) = join_with sep xs @ sep @ join_with sep ys"
proof (induction xs)
  case (Cons x xs)
  then show ?case by (cases "xs = []") (auto simp: join_with_Cons)
qed simp

lemma split_on_append_sep: "split_on c (a @ c # b) = split_on c a @ split_on c b"
  by (induction a) (auto split: list.splits)

lemma split_on_join:
  assumes "\<forall>x\<in>set xs. c \<notin> set x" and "xs \<noteq> []" and "c \<noteq> d"
  shows "split_on c (join_with [c, d] xs) = hd xs # map (Cons d) (tl xs)"
  using assms
proof (induction xs)
  case (Cons x xs)
  show ?case
  proof (cases "xs = []")
    case True
    with Cons.prems show ?thesis by (simp add: split_on_none)
  next
    case False
    then have "split_on c (join_with [c, d] (x # xs)) = x # split_on c (d # join_with [c, d] xs)"
      using Cons.prems by (simp add: join_with_Cons split_on_append)
    also have "split_on c (d # join_with [c, d] xs) = map (Cons d) xs"
      using Cons False by (cases xs) auto
    finally show ?thesis by simp
  qed
qed simp

lemma partition_on_first: "c \<notin> set a \<Longrightarrow> partition_on c (a @ c # b) = (a, True, b)"
  by (induction a) auto

lemma partition_on_none: "c \<notin> set a \<Longrightarrow> partition_on c a = (a, False, [])"
  by (induction a) auto

lemma partition_on_True_iff:
  "partition_on c s = (a, True, b) \<longleftrightarrow> s = a @ c # b \<and> c \<notin> set a"
proof
  show "partition_on c s = (a, True, b) \<Longrightarrow> s = a @ c # b \<and> c \<notin> set a"
    by (induction s arbitrary: a b) (auto split: if_splits prod.splits)
qed (auto simp: partition_on_first)

lemma partition_on_False:
  "partition_on c s = (a, False, b) \<Longrightarrow> a = s \<and> b = [] \<and> c \<notin> set s"
  by (induction s arbitrary: a b) (auto split: if_splits prod.splits)

lemma rpartition_on_last: "c \<notin> set b \<Longrightarrow> rpartition_on c (a @ c # b) = (a, True, b)"
  by (simp add: rpartition_on_def partition_on_first)

lemma rpartition_on_none: "c \<notin> set s \<Longrightarrow> rpartition_on c s = ([], False, s)"
  by (simp add: rpartition_on_def partition_on_none)

lemma rpartition_on_True_iff:
  "rpartition_on c s = (a, True, b) \<longleftrightarrow> s = a @ c # b \<and> c \<notin> set b"
proof
  assume "rpartition_on c s = (a, True, b)"
  then have "partition_on c (rev s) = (rev b, True, rev a)"
    by (auto simp: rpartition_on_def split: prod.splits bool.splits)
  then have "rev s = rev b @ c # rev a" "c \<notin> set b"
    by (auto simp: partition_on_True_iff)
  then show "s = a @ c # b \<and> c \<notin> set b"
    by (metis append.assoc append_Cons append_Nil rev_append rev_rev_ident rev.simps(2))
qed (auto simp: rpartition_on_last)

lemma dropWhile_hd: "dropWhile P xs = y # ys \<Longrightarrow> \<not> P y"
  by (induction xs) (auto split: if_splits)

lemma dropWhile_ident: "s = [] \<or> \<not> P (hd s) \<Longrightarrow> dropWhile P s = s"
  by (cases s) auto

lemma strip_of_ident:
  assumes "s = [] \<or> (\<not> P (hd s) \<and> \<not> P (last s))"
  shows "strip_of P s = s"
proof -
  have "dropWhile P s = s" using assms by (auto intro: dropWhile_ident)
  moreover have "dropWhile P (rev s) = rev s"
    using assms by (intro dropWhile_ident) (auto simp: hd_rev)
  ultimately show ?thesis by (simp add: strip_of_def)
qed

lemma nat_dec_digits: "x \<in> set (nat_dec n) \<Longrightarrow> is_digit x"
proof (induction n rule: nat_dec.induct)
  case (1 n)
  then show ?case
    by (cases "n < 10") (auto simp: nat_dec.simps[of n] is_digit_def)
qed

lemma nat_dec_not_Nil [simp]: "nat_dec n \<noteq> []"
  by (subst nat_dec.simps) simp

lemma dec_value_append: "dec_value acc (a @ b) = dec_value (dec_value acc a) b"
  by (induction acc a rule: dec_value.induct) auto

lemma dec_value_nat_dec [simp]: "dec_value 0 (nat_dec n) = n"
proof (induction n rule: nat_dec.induct)
  case (1 n)
  then show ?case
    by (cases "n < 10") (auto simp: nat_dec.simps[of n] dec_value_append)
qed

lemma nat_dec_inj: "nat_dec a = nat_dec b \<longleftrightarrow> a = b"
  by (metis dec_value_nat_dec)

lemma nat_dec_first: "0 < n \<Longrightarrow> hd (nat_dec n) \<noteq> 48"
proof (induction n rule: nat_dec.induct)
  case (1 n)
  then show ?case
    by (cases "n < 10") (auto simp: nat_dec.simps[of n])
qed

lemma nat_dec_length: "n < 10 ^ Suc k \<Longrightarrow> length (nat_dec n) \<le> Suc k"
proof (induction k arbitrary: n)
  case 0
  then show ?case by (simp add: nat_dec.simps[of n])
next
  case (Suc k)
  then have "n div 10 < 10 ^ Suc k" by (simp add: div_less_iff_less_mult)
  then have "length (nat_dec (n div 10)) \<le> Suc k" by (rule Suc.IH)
  then show ?case by (simp add: nat_dec.simps[of n])
qed

lemma length_lower_py [simp]: "length (lower_py s) = length s"
  by (simp add: lower_py_def)

lemmas char_class_defs =
  is_digit_def is_lower_ascii_def is_upper_ascii_def is_alnum_ascii_def is_space_def
  is_hex_lower_def

lemmas text_eval =
  py_eval char_class_defs startswith_any_def isspace_def isascii_def strip_def strip_of_def
  rstrip_char_def lower_char_def lower_py_def upper_char_def upper_py_def int_dec_def nat_dec.simps
  rpartition_on_def

end
