(* ===== verification/Ports.thy ===== *)
theory Ports
  imports Text
begin

text \<open>
  \<open>webauth/ports.py\<close>: what the host supplies. A port is a record of the host's operations over
  the host's state \<open>'s\<close>; each may raise. The records the library hands out and reads are
  records here. A \<open>SecretStr\<close> is the text it wraps.
\<close>

section \<open>Instants\<close>

text \<open>
  A stored \<open>datetime\<close> is its wall-clock reading in microseconds since 1970-01-01 00:00 and its
  offset from UTC in microseconds, \<open>None\<close> for a naive one. An aware UTC \<open>datetime\<close> the library
  computes is its instant, an integer; the calendar of Python ends with the years 1 and 9999,
  beyond which arithmetic raises \<open>OverflowError\<close>.
\<close>

record stored_datetime =
  dt_wall :: int
  dt_utcoffset :: "int option"

definition SECOND :: int where "SECOND = 1000000"

definition in_calendar :: "int \<Rightarrow> bool" where
  "in_calendar i \<longleftrightarrow> -62135596800000000 \<le> i \<and> i \<le> 253402300799999999"

definition datetime_add :: "int \<Rightarrow> int \<Rightarrow> exn + int" where
  "datetime_add i delta = (if in_calendar (i + delta) then Inr (i + delta) else Inl OverflowError)"

definition utc_datetime :: "int \<Rightarrow> stored_datetime" where
  "utc_datetime i = \<lparr>dt_wall = i, dt_utcoffset = Some 0\<rparr>"

section \<open>Records\<close>

record authenticated_user =
  au_id :: pystr
  au_username :: pystr
  au_role :: pystr

datatype principal = BearerCaller pystr | Account authenticated_user

record user_record =
  ur_id :: pystr
  ur_username :: pystr
  ur_role :: pystr

record session_record =
  sr_id :: pystr
  sr_user :: user_record
  sr_created_at :: stored_datetime
  sr_expires_at :: stored_datetime
  sr_refresh_token :: "pystr option"
  sr_id_token :: "pystr option"

datatype account_event_kind = USER_CREATED | ROLE_CHANGED | BACKCHANNEL_LOGOUT

record account_event =
  ae_kind :: account_event_kind
  ae_actor_id :: "pystr option"
  ae_subject_id :: pystr
  ae_role :: "pystr option"
  ae_previous_role :: "pystr option"

section \<open>Ports\<close>

text \<open>\<open>touch\<close> and \<open>replace_refresh_token\<close> answer a \<open>bool\<close>; a host may answer anything else, which
  the library refuses to read.\<close>

datatype host_answer = BoolAnswer bool | OtherAnswer

record 's session_store =
  ss_create :: "pystr \<Rightarrow> int \<Rightarrow> int \<Rightarrow> pystr option \<Rightarrow> pystr option \<Rightarrow> ('s, session_record) act"
  ss_load :: "pystr \<Rightarrow> ('s, session_record option) act"
  ss_touch :: "pystr \<Rightarrow> int \<Rightarrow> ('s, host_answer) act"
  ss_replace_refresh_token :: "pystr \<Rightarrow> pystr \<Rightarrow> ('s, host_answer) act"
  ss_delete :: "pystr \<Rightarrow> ('s, unit) act"
  ss_delete_for_user :: "pystr \<Rightarrow> ('s, int) act"
  ss_prune_overflow :: "pystr \<Rightarrow> int \<Rightarrow> ('s, unit) act"

record 's subject_user_store =
  us_get :: "pystr \<Rightarrow> ('s, user_record option) act"
  us_create_for_subject :: "pystr \<Rightarrow> pystr \<Rightarrow> pystr \<Rightarrow> ('s, user_record) act"
  us_set_role :: "pystr \<Rightarrow> pystr \<Rightarrow> ('s, user_record) act"

record 's sign_in_stores =
  accounts :: "'s subject_user_store"
  sessions :: "'s session_store"
  audit :: "account_event \<Rightarrow> ('s, unit) act"

text \<open>\<open>SessionTransaction\<close> and \<open>SignInTransaction\<close>: the host's context manager with the stores it
  hands to the block.\<close>

record 's session_transaction =
  st_context :: "'s transaction"
  st_store :: "'s session_store"

record 's sign_in_transaction =
  si_context :: "'s transaction"
  si_stores :: "'s sign_in_stores"

type_synonym 's rate_limit_backend = "pystr \<Rightarrow> int \<Rightarrow> int \<Rightarrow> ('s, bool) act"

end
