(* ===== verification/Addresses.thy ===== *)
theory Addresses
  imports Text
begin

text \<open>
  What \<open>webauth/proxies.py\<close> uses of Python's \<open>ipaddress\<close>: an address is its family and its
  integer, a network its first address and prefix length. \<open>ip_address\<close>, \<open>ip_network\<close> and
  \<open>str\<close> follow the standard library: four decimal octets without leading zeros, or hextets with
  one \<open>::\<close> and an optional IPv4 tail; a network is strict (no host bits).
\<close>

datatype ip_address = IPv4Address nat | IPv6Address nat

datatype ip_network = IPv4Network nat nat | IPv6Network nat nat

section \<open>Parsing\<close>

definition parse_octet :: "pystr \<Rightarrow> nat option" where
  "parse_octet s =
     (if s = [] \<or> \<not> list_all is_digit s \<or> 3 < length s \<or> (s \<noteq> [48] \<and> hd s = 48)
         \<or> 255 < dec_value 0 s
      then None else Some (dec_value 0 s))"

definition parse_ipv4 :: "pystr \<Rightarrow> nat option" where
  "parse_ipv4 s = (case map parse_octet (split_on 46 s) of
      [Some a, Some b, Some c, Some d] \<Rightarrow> Some (((a * 256 + b) * 256 + c) * 256 + d)
    | _ \<Rightarrow> None)"

definition hex_value :: "nat \<Rightarrow> nat option" where
  "hex_value c =
     (if is_digit c then Some (c - 48)
      else if 97 \<le> c \<and> c \<le> 102 then Some (c - 87)
      else if 65 \<le> c \<and> c \<le> 70 then Some (c - 55)
      else None)"

fun hex_number :: "nat \<Rightarrow> pystr \<Rightarrow> nat option" where
  "hex_number acc [] = Some acc"
| "hex_number acc (c # cs) =
     (case hex_value c of None \<Rightarrow> None | Some v \<Rightarrow> hex_number (16 * acc + v) cs)"

definition parse_hextet :: "pystr \<Rightarrow> nat option" where
  "parse_hextet s = (if s = [] \<or> 4 < length s then None else hex_number 0 s)"

fun hextets_value :: "nat \<Rightarrow> pystr list \<Rightarrow> nat option" where
  "hextets_value acc [] = Some acc"
| "hextets_value acc (p # ps) =
     (case parse_hextet p of None \<Rightarrow> None | Some v \<Rightarrow> hextets_value (65536 * acc + v) ps)"

fun nat_hex :: "nat \<Rightarrow> pystr" where
  "nat_hex n = (if n < 16 then [hex_digit n] else nat_hex (n div 16) @ [hex_digit (n mod 16)])"

declare nat_hex.simps [simp del]

text \<open>The parts between colons, an IPv4 tail rewritten as two hextets.\<close>

definition ipv6_parts :: "pystr \<Rightarrow> pystr list option" where
  "ipv6_parts s =
     (let parts = split_on 58 s in
      if length parts < 3 then None
      else if 46 \<in> set (last parts)
      then (case parse_ipv4 (last parts) of
              None \<Rightarrow> None
            | Some v \<Rightarrow> Some (butlast parts @ [nat_hex (v div 65536), nat_hex (v mod 65536)]))
      else Some parts)"

text \<open>The positions of empty parts strictly between the first and the last.\<close>

definition inner_gaps :: "pystr list \<Rightarrow> nat list" where
  "inner_gaps parts = filter (\<lambda>i. parts ! i = []) [1 ..< length parts - 1]"

definition ipv6_of_parts :: "pystr list \<Rightarrow> nat option" where
  "ipv6_of_parts parts =
     (if 9 < length parts then None
      else (case inner_gaps parts of
          [] \<Rightarrow>
            if length parts \<noteq> 8 \<or> hd parts = [] \<or> last parts = [] then None
            else hextets_value 0 parts
        | [i] \<Rightarrow>
            let hi = (if hd parts = [] then i - 1 else i);
                lo0 = length parts - i - 1;
                lo = (if last parts = [] then lo0 - 1 else lo0)
            in if (hd parts = [] \<and> hi \<noteq> 0) \<or> (last parts = [] \<and> lo \<noteq> 0) \<or> 8 < hi + lo + 1 then None
               else (case hextets_value 0 (take hi parts) of
                       None \<Rightarrow> None
                     | Some v \<Rightarrow>
                         hextets_value (v * 65536 ^ (8 - (hi + lo))) (drop (length parts - lo) parts))
        | _ \<Rightarrow> None))"

definition parse_ipv6 :: "pystr \<Rightarrow> nat option" where
  "parse_ipv6 s = (case ipv6_parts s of None \<Rightarrow> None | Some parts \<Rightarrow> ipv6_of_parts parts)"

definition parse_ip_address :: "pystr \<Rightarrow> ip_address option" where
  "parse_ip_address s = (case parse_ipv4 s of
      Some v \<Rightarrow> Some (IPv4Address v)
    | None \<Rightarrow> map_option IPv6Address (parse_ipv6 s))"

text \<open>\<open>IPv6Address.ipv4_mapped\<close>: the IPv4 address of \<open>::ffff:a.b.c.d\<close>.\<close>

definition ipv4_mapped :: "nat \<Rightarrow> nat option" where
  "ipv4_mapped v = (if v div 2 ^ 32 = 65535 then Some (v mod 2 ^ 32) else None)"

definition prefix_number :: "nat \<Rightarrow> pystr \<Rightarrow> nat option" where
  "prefix_number width s =
     (if s = [] \<or> \<not> list_all is_digit s \<or> width < dec_value 0 s then None
      else Some (dec_value 0 s))"

definition ipv4_mask_prefix :: "pystr \<Rightarrow> nat option" where
  "ipv4_mask_prefix s = (case parse_ipv4 s of
      None \<Rightarrow> None
    | Some m \<Rightarrow> (case find (\<lambda>p. m = 2 ^ 32 - 2 ^ (32 - p)) [0 ..< 33] of
          Some p \<Rightarrow> Some p
        | None \<Rightarrow> find (\<lambda>p. m = 2 ^ (32 - p) - 1) [0 ..< 33]))"

definition strict_network :: "nat \<Rightarrow> (nat \<Rightarrow> nat \<Rightarrow> ip_network) \<Rightarrow> nat \<Rightarrow> nat \<Rightarrow> ip_network option" where
  "strict_network width net v p = (if v mod 2 ^ (width - p) = 0 then Some (net v p) else None)"

definition parse_ip_network :: "pystr \<Rightarrow> ip_network option" where
  "parse_ip_network s = (case split_on 47 s of
      [a] \<Rightarrow> (case parse_ipv4 a of
          Some v \<Rightarrow> strict_network 32 IPv4Network v 32
        | None \<Rightarrow> (case parse_ipv6 a of
            Some v \<Rightarrow> strict_network 128 IPv6Network v 128 | None \<Rightarrow> None))
    | [a, m] \<Rightarrow> (case parse_ipv4 a of
          Some v \<Rightarrow> (case prefix_number 32 m of
              Some p \<Rightarrow> strict_network 32 IPv4Network v p
            | None \<Rightarrow> (case ipv4_mask_prefix m of
                Some p \<Rightarrow> strict_network 32 IPv4Network v p | None \<Rightarrow> None))
        | None \<Rightarrow> (case parse_ipv6 a of
            Some v \<Rightarrow> (case prefix_number 128 m of
                Some p \<Rightarrow> strict_network 128 IPv6Network v p | None \<Rightarrow> None)
          | None \<Rightarrow> None))
    | _ \<Rightarrow> None)"

section \<open>Membership and text\<close>

text \<open>\<open>address in network\<close>: same family, same leading bits.\<close>

fun in_network :: "ip_address \<Rightarrow> ip_network \<Rightarrow> bool" where
  "in_network (IPv4Address v) (IPv4Network b p) = (v div 2 ^ (32 - p) = b div 2 ^ (32 - p))"
| "in_network (IPv6Address v) (IPv6Network b p) = (v div 2 ^ (128 - p) = b div 2 ^ (128 - p))"
| "in_network _ _ = False"

definition ipv4_octets :: "nat \<Rightarrow> nat list" where
  "ipv4_octets v = map (\<lambda>i. v div 256 ^ i mod 256) [3, 2, 1, 0]"

definition ipv6_hextets :: "nat \<Rightarrow> nat list" where
  "ipv6_hextets v = map (\<lambda>i. v div 65536 ^ i mod 65536) [7, 6, 5, 4, 3, 2, 1, 0]"

definition ipv4_text :: "nat \<Rightarrow> pystr" where
  "ipv4_text v = join_with [46] (map nat_dec (ipv4_octets v))"

definition zero_run :: "nat list \<Rightarrow> nat \<Rightarrow> nat" where
  "zero_run hs i = length (takeWhile (\<lambda>h. h = 0) (drop i hs))"

text \<open>The first longest run of zero hextets: its start and length.\<close>

definition longest_zero_run :: "nat list \<Rightarrow> nat \<times> nat" where
  "longest_zero_run hs =
     foldl (\<lambda>(bi, bl) i. if bl < zero_run hs i then (i, zero_run hs i) else (bi, bl)) (0, 0)
       [0 ..< length hs]"

definition ipv6_text :: "nat \<Rightarrow> pystr" where
  "ipv6_text v =
     (let hs = ipv6_hextets v in
      case longest_zero_run hs of (i, n) \<Rightarrow>
        if n \<le> 1 then join_with [58] (map nat_hex hs)
        else join_with [58] (map nat_hex (take i hs)) @ [58, 58]
               @ join_with [58] (map nat_hex (drop (i + n) hs)))"

fun ip_text :: "ip_address \<Rightarrow> pystr" where
  "ip_text (IPv4Address v) = ipv4_text v"
| "ip_text (IPv6Address v) = ipv6_text v"

text \<open>\<open>str(IPv6Network((v, p), strict=False))\<close>: host bits cleared, then \<open>/p\<close>.\<close>

definition ipv6_network_text :: "nat \<Rightarrow> nat \<Rightarrow> pystr" where
  "ipv6_network_text v p = ipv6_text (v div 2 ^ (128 - p) * 2 ^ (128 - p)) @ [47] @ nat_dec p"

section \<open>Facts\<close>

lemma ipv4_text_example: "ipv4_text 3232235521 = py ''192.168.0.1''"
  by (simp add: ipv4_text_def ipv4_octets_def text_eval)

section \<open>The text of an address names it\<close>

text \<open>Reading a canonical text back: the parts before the first empty one and the non-empty parts
  after it, with as many zeros between them as are missing. It inverts \<open>ipv6_text\<close>, so the text
  determines the address.\<close>

definition hextets_of_parts :: "pystr list \<Rightarrow> nat list" where
  "hextets_of_parts parts =
     (let before = takeWhile (\<lambda>p. p \<noteq> []) parts;
          after = filter (\<lambda>p. p \<noteq> []) (dropWhile (\<lambda>p. p \<noteq> []) parts)
      in map (\<lambda>p. the (hex_number 0 p)) before
           @ replicate (8 - (length before + length after)) 0
           @ map (\<lambda>p. the (hex_number 0 p)) after)"

lemma hex_number_append:
  "hex_number acc (a @ b) = (case hex_number acc a of None \<Rightarrow> None | Some v \<Rightarrow> hex_number v b)"
  by (induction acc a rule: hex_number.induct) (auto split: option.splits)

lemma hex_value_digit: "d < 16 \<Longrightarrow> hex_value (hex_digit d) = Some d"
  by (auto simp: hex_value_def hex_digit_def is_digit_def)

lemma hex_number_nat_hex [simp]: "hex_number 0 (nat_hex n) = Some n"
proof (induction n rule: nat_hex.induct)
  case (1 n)
  then show ?case
    by (cases "n < 16") (simp_all add: nat_hex.simps[of n] hex_number_append hex_value_digit)
qed

lemma nat_hex_not_Nil [simp]: "nat_hex n \<noteq> []"
  by (subst nat_hex.simps) simp

lemma nat_hex_chars: "x \<in> set (nat_hex n) \<Longrightarrow> x \<noteq> 58 \<and> x \<noteq> 47 \<and> x \<noteq> 46 \<and> x \<noteq> 37"
proof (induction n rule: nat_hex.induct)
  case (1 n)
  have "hex_digit m \<noteq> 58 \<and> hex_digit m \<noteq> 47 \<and> hex_digit m \<noteq> 46 \<and> hex_digit m \<noteq> 37" for m
    by (auto simp: hex_digit_def)
  with 1 show ?case by (cases "n < 16") (auto simp: nat_hex.simps[of n])
qed

lemma zero_run_zeros: "take (zero_run hs i) (drop i hs) = replicate (zero_run hs i) 0"
proof -
  have "takeWhile (\<lambda>h. h = 0) xs = replicate (length (takeWhile (\<lambda>h. h = 0) xs)) (0::nat)" for xs
    by (induction xs) auto
  then show ?thesis unfolding zero_run_def by (metis takeWhile_eq_take)
qed

lemma foldl_invariant: "P acc \<Longrightarrow> (\<And>acc x. P acc \<Longrightarrow> P (f acc x)) \<Longrightarrow> P (foldl f acc xs)"
  by (induction xs arbitrary: acc) auto

lemma longest_zero_run_zeros:
  assumes "longest_zero_run hs = (i, n)"
  shows "take n (drop i hs) = replicate n 0"
proof -
  have "case longest_zero_run hs of (i, n) \<Rightarrow> take n (drop i hs) = replicate n 0"
    unfolding longest_zero_run_def
    by (rule foldl_invariant) (auto simp: zero_run_zeros split: if_splits)
  with assms show ?thesis by simp
qed

lemma split_join_hex:
  "hs \<noteq> [] \<Longrightarrow> split_on 58 (join_with [58] (map nat_hex hs)) = map nat_hex hs"
proof (induction hs)
  case (Cons h hs)
  have "58 \<notin> set (nat_hex h)" using nat_hex_chars by blast
  with Cons show ?case
    by (cases "hs = []") (simp_all add: split_on_none join_with_Cons split_on_append)
qed simp

lemma map_hex_facts:
  "takeWhile (\<lambda>p. p \<noteq> []) (map nat_hex hs @ [] # ps) = map nat_hex hs"
  "dropWhile (\<lambda>p. p \<noteq> []) (map nat_hex hs @ [] # ps) = [] # ps"
  "takeWhile (\<lambda>p. p \<noteq> []) (map nat_hex hs) = map nat_hex hs"
  "dropWhile (\<lambda>p. p \<noteq> []) (map nat_hex hs) = []"
  "filter (\<lambda>p. p \<noteq> []) (map nat_hex hs) = map nat_hex hs"
  by (induction hs) auto

lemma split_compressed:
  "split_on 58 (join_with [58] (map nat_hex as) @ [58, 58] @ join_with [58] (map nat_hex bs))
    = (if as = [] then [[]] else map nat_hex as) @ [] # (if bs = [] then [[]] else map nat_hex bs)"
  by (simp add: split_on_append_sep split_join_hex)

lemma hextets_of_compressed:
  "hextets_of_parts ((if as = [] then [[]] else map nat_hex as) @ [] #
      (if bs = [] then [[]] else map nat_hex bs))
    = as @ replicate (8 - (length as + length bs)) 0 @ bs"
  by (simp add: hextets_of_parts_def Let_def map_hex_facts comp_def)

lemma ipv6_text_hextets: "hextets_of_parts (split_on 58 (ipv6_text v)) = ipv6_hextets v"
proof -
  let ?hs = "ipv6_hextets v"
  have len: "length ?hs = 8" by (simp add: ipv6_hextets_def)
  obtain i n where run: "longest_zero_run ?hs = (i, n)" by (cases "longest_zero_run ?hs")
  show ?thesis
  proof (cases "n \<le> 1")
    case True
    have "split_on 58 (ipv6_text v) = map nat_hex ?hs"
      using True len by (simp add: ipv6_text_def Let_def run split_join_hex flip: length_0_conv)
    then show ?thesis
      by (simp add: hextets_of_parts_def Let_def map_hex_facts comp_def len)
  next
    case False
    have zeros: "take n (drop i ?hs) = replicate n 0" by (rule longest_zero_run_zeros[OF run])
    then have "min (8 - i) n = n" using len by (metis length_drop length_replicate length_take)
    with False have room: "i + n \<le> 8" by linarith
    have "?hs = take i ?hs @ take n (drop i ?hs) @ drop (i + n) ?hs"
      by (metis add.commute append_take_drop_id drop_drop)
    with zeros have hs: "?hs = take i ?hs @ replicate n 0 @ drop (i + n) ?hs" by simp
    have n: "8 - (length (take i ?hs) + length (drop (i + n) ?hs)) = n"
      using room len by simp
    have "split_on 58 (ipv6_text v) = (if take i ?hs = [] then [[]] else map nat_hex (take i ?hs))
        @ [] # (if drop (i + n) ?hs = [] then [[]] else map nat_hex (drop (i + n) ?hs))"
      using False by (simp only: ipv6_text_def Let_def run split_compressed prod.case if_False)
    then have "hextets_of_parts (split_on 58 (ipv6_text v)) =
        take i ?hs @ replicate (8 - (length (take i ?hs) + length (drop (i + n) ?hs))) 0
          @ drop (i + n) ?hs"
      by (simp only: hextets_of_compressed)
    then show ?thesis using hs by (simp only: n)
  qed
qed

lemma digits_eq:
  fixes a b c :: nat
  assumes "a mod c = b mod c" and "a div c = b div c"
  shows "a = b"
  using assms by (metis div_mult_mod_eq)

text \<open>A number below \<open>c ^ k\<close> is its \<open>k\<close> digits to base \<open>c\<close>.\<close>

lemma base_digits_inj:
  fixes a b c :: nat
  assumes "0 < c" and "a < c ^ k" and "b < c ^ k" and "\<forall>i<k. a div c ^ i mod c = b div c ^ i mod c"
  shows "a = b"
  using assms(2-)
proof (induction k arbitrary: a b)
  case (Suc k)
  have "a div c = b div c"
  proof (rule Suc.IH)
    show "a div c < c ^ k" "b div c < c ^ k"
      using Suc.prems(1,2) assms(1) by (simp_all add: less_mult_imp_div_less mult.commute)
    show "\<forall>i<k. a div c div c ^ i mod c = b div c div c ^ i mod c"
      using Suc.prems(3) by (auto simp flip: div_mult2_eq power_Suc)
  qed
  moreover have "a mod c = b mod c" using Suc.prems(3) by force
  ultimately show ?case using digits_eq by blast
qed simp

lemma ipv6_hextets_inj:
  assumes "ipv6_hextets v = ipv6_hextets w" and "v < 2 ^ 128" and "w < 2 ^ 128"
  shows "v = w"
proof (rule base_digits_inj[of 65536 v 8])
  have "i = 0 \<or> i = 1 \<or> i = 2 \<or> i = 3 \<or> i = 4 \<or> i = 5 \<or> i = 6 \<or> i = (7::nat)" if "i < 8" for i
    using that by linarith
  with assms(1) show "\<forall>i<8. v div 65536 ^ i mod 65536 = w div 65536 ^ i mod 65536"
    unfolding ipv6_hextets_def by (simp only: list.map list.inject) blast
qed (use assms in simp_all)

lemma ipv6_text_inj: "ipv6_text v = ipv6_text w \<Longrightarrow> v < 2 ^ 128 \<Longrightarrow> w < 2 ^ 128 \<Longrightarrow> v = w"
  using ipv6_text_hextets ipv6_hextets_inj by metis

lemma ipv6_text_chars: "x \<in> set (ipv6_text v) \<Longrightarrow> x \<noteq> 47 \<and> x \<noteq> 46 \<and> x \<noteq> 37"
proof -
  have "x \<noteq> 47 \<and> x \<noteq> 46 \<and> x \<noteq> 37" if "x \<in> set (join_with [58] (map nat_hex hs))" for hs
  proof -
    have "x \<in> set [58] \<union> \<Union> (set ` set (map nat_hex hs))" using that set_join_with by (rule subsetD[rotated])
    then show ?thesis using nat_hex_chars by auto
  qed
  then show "x \<in> set (ipv6_text v) \<Longrightarrow> ?thesis"
    by (auto simp: ipv6_text_def Let_def split: prod.splits if_splits)
qed

lemma ipv6_text_no_slash: "47 \<notin> set (ipv6_text v)"
  using ipv6_text_chars by blast

lemma ipv6_network_text_inj:
  assumes "ipv6_network_text v p = ipv6_network_text w p" and "v < 2 ^ 128" and "w < 2 ^ 128"
  shows "v div 2 ^ (128 - p) = w div 2 ^ (128 - p)"
proof -
  have less: "u div c * c < 2 ^ 128" if "u < 2 ^ 128" for u c :: nat
    using that div_times_less_eq_dividend[of u c] by linarith
  have "ipv6_text (v div 2 ^ (128 - p) * 2 ^ (128 - p)) = ipv6_text (w div 2 ^ (128 - p) * 2 ^ (128 - p))"
    using assms(1) by (simp add: ipv6_network_text_def)
  then have "v div 2 ^ (128 - p) * 2 ^ (128 - p) = w div 2 ^ (128 - p) * 2 ^ (128 - p)"
    using ipv6_text_inj less assms(2,3) by blast
  then show ?thesis by simp
qed

section \<open>What parses fits its family\<close>

lemma hex_number_less: "hex_number acc s = Some v \<Longrightarrow> v < Suc acc * 16 ^ length s"
proof (induction acc s arbitrary: v rule: hex_number.induct)
  case (2 acc c cs)
  then obtain d where d: "hex_value c = Some d" "hex_number (16 * acc + d) cs = Some v"
    by (auto split: option.splits)
  then have "d < 16" by (auto simp: hex_value_def is_digit_def split: if_splits)
  then have "Suc (16 * acc + d) * 16 ^ length cs \<le> (Suc acc * 16) * 16 ^ length cs"
    by (intro mult_right_mono) auto
  moreover have "v < Suc (16 * acc + d) * 16 ^ length cs" using 2 d by blast
  ultimately have "v < (Suc acc * 16) * 16 ^ length cs" by linarith
  then show ?case by (simp only: list.size power_Suc mult.assoc add_0_right add_Suc_right)
qed simp

lemma parse_hextet_less:
  assumes "parse_hextet s = Some v"
  shows "v < 65536"
proof -
  have "hex_number 0 s = Some v" and "length s \<le> 4"
    using assms by (auto simp: parse_hextet_def split: if_splits)
  then have "v < 16 ^ length s" using hex_number_less[of 0 s v] by simp
  also have "(16::nat) ^ length s \<le> 16 ^ 4" using \<open>length s \<le> 4\<close> by (intro power_increasing) auto
  finally show ?thesis by simp
qed

lemma hextets_value_less: "hextets_value acc ps = Some v \<Longrightarrow> v < Suc acc * 65536 ^ length ps"
proof (induction acc ps arbitrary: v rule: hextets_value.induct)
  case (2 acc p ps)
  then obtain d where d: "parse_hextet p = Some d" "hextets_value (65536 * acc + d) ps = Some v"
    by (auto split: option.splits)
  have "Suc (65536 * acc + d) * 65536 ^ length ps \<le> (Suc acc * 65536) * 65536 ^ length ps"
    using parse_hextet_less[OF d(1)] by (intro mult_right_mono) auto
  moreover have "v < Suc (65536 * acc + d) * 65536 ^ length ps" using 2 d by blast
  ultimately have "v < (Suc acc * 65536) * 65536 ^ length ps" by linarith
  then show ?case by (simp only: list.size power_Suc mult.assoc add_0_right add_Suc_right)
qed simp

lemma hextets_value_compressed:
  assumes "hextets_value 0 as = Some v" and "hextets_value (v * 65536 ^ k) bs = Some w"
    and "length as + k + length bs \<le> 8" and "0 < k"
  shows "w < 65536 ^ 8"
proof -
  have "v < 65536 ^ length as" using hextets_value_less[OF assms(1)] by simp
  then have "Suc v * 65536 ^ k \<le> 65536 ^ length as * 65536 ^ k" by (intro mult_right_mono) auto
  moreover have "1 \<le> (65536::nat) ^ k" by simp
  then have "Suc (v * 65536 ^ k) \<le> Suc v * 65536 ^ k" unfolding mult_Suc by linarith
  ultimately have "Suc (v * 65536 ^ k) \<le> 65536 ^ (length as + k)"
    unfolding power_add by (rule order_trans[rotated])
  then have "Suc (v * 65536 ^ k) * 65536 ^ length bs \<le> 65536 ^ (length as + k) * 65536 ^ length bs"
    by (rule mult_right_mono) simp
  also have "\<dots> = 65536 ^ (length as + k + length bs)" by (simp add: power_add)
  also have "\<dots> \<le> 65536 ^ 8" using assms(3) by (intro power_increasing) auto
  finally show ?thesis using hextets_value_less[OF assms(2)] by linarith
qed

lemma ipv6_of_parts_less:
  assumes "ipv6_of_parts parts = Some v"
  shows "v < 2 ^ 128"
proof -
  have bound: "(65536::nat) ^ 8 = 2 ^ 128" by simp
  show ?thesis
  proof (cases "inner_gaps parts")
    case Nil
    with assms have "hextets_value 0 parts = Some v" "length parts = 8"
      by (auto simp: ipv6_of_parts_def split: if_splits)
    then show ?thesis using hextets_value_less[of 0 parts v] bound by simp
  next
    case (Cons i rest)
    let ?hi = "if hd parts = [] then i - 1 else i"
    let ?lo = "if last parts = [] then length parts - i - 1 - 1 else length parts - i - 1"
    from Cons assms obtain u where u: "hextets_value 0 (take ?hi parts) = Some u"
      "hextets_value (u * 65536 ^ (8 - (?hi + ?lo))) (drop (length parts - ?lo) parts) = Some v"
      and room: "\<not> 8 < ?hi + ?lo + 1"
      by (cases rest) (auto simp: ipv6_of_parts_def Let_def split: if_splits option.splits)
    have "length (take ?hi parts) + (8 - (?hi + ?lo)) + length (drop (length parts - ?lo) parts) \<le> 8"
      "0 < 8 - (?hi + ?lo)"
      using room by (simp_all split: if_splits)
    then show ?thesis using hextets_value_compressed[OF u] bound by simp
  qed
qed

lemma parse_ipv6_less: "parse_ipv6 s = Some v \<Longrightarrow> v < 2 ^ 128"
  by (auto simp: parse_ipv6_def dest: ipv6_of_parts_less split: option.splits)

lemma parse_octet_less: "parse_octet s = Some v \<Longrightarrow> v < 256"
  by (auto simp: parse_octet_def split: if_splits)

lemma parse_ipv4_less: "parse_ipv4 s = Some v \<Longrightarrow> v < 2 ^ 32"
  by (auto simp: parse_ipv4_def dest!: parse_octet_less split: list.splits option.splits)

lemma ip_address_parsed:
  assumes "parse_ip_address s = Some a"
  shows "case a of IPv4Address v \<Rightarrow> v < 2 ^ 32 | IPv6Address v \<Rightarrow> v < 2 ^ 128"
  using assms parse_ipv4_less parse_ipv6_less by (auto simp: parse_ip_address_def split: option.splits)

section \<open>An IPv4 address reads back from its text\<close>

lemma parse_octet_nat_dec: "n < 256 \<Longrightarrow> parse_octet (nat_dec n) = Some n"
proof -
  assume n: "n < 256"
  then have "length (nat_dec n) \<le> Suc 2" by (intro nat_dec_length) simp
  moreover have "nat_dec n = [48] \<or> hd (nat_dec n) \<noteq> 48"
    using nat_dec_first[of n] by (cases "n = 0") (simp_all add: nat_dec.simps[of 0])
  ultimately show ?thesis
    using n by (auto simp: parse_octet_def list_all_iff dest: nat_dec_digits)
qed

lemma four_octets:
  fixes v :: nat
  assumes "v < 256 ^ 4"
  shows "((v div 256 ^ 3 mod 256 * 256 + v div 256 ^ 2 mod 256) * 256 + v div 256 ^ 1 mod 256) * 256
    + v div 256 ^ 0 mod 256 = v"
proof -
  define a where "a = v div 256"
  define b where "b = a div 256"
  define c where "c = b div 256"
  have powers: "v div 256 ^ 0 = v" "v div 256 ^ 1 = a" "v div 256 ^ 2 = b" "v div 256 ^ 3 = c"
    by (simp_all add: a_def b_def c_def power2_eq_square power3_eq_cube flip: div_mult2_eq)
  have "c < 256" unfolding powers(4)[symmetric] by (rule less_mult_imp_div_less) (use assms in simp)
  then have "c mod 256 * 256 + b mod 256 = b" unfolding c_def by (simp only: mod_less div_mult_mod_eq)
  moreover have "b * 256 + a mod 256 = a" "a * 256 + v mod 256 = v"
    unfolding a_def b_def by (rule div_mult_mod_eq)+
  ultimately show ?thesis unfolding powers by simp
qed

lemma parse_ipv4_octets:
  assumes "a < 256" and "b < 256" and "c < 256" and "d < 256"
  shows "parse_ipv4 (join_with [46] (map nat_dec [a, b, c, d])) =
    Some (((a * 256 + b) * 256 + c) * 256 + d)"
proof -
  have dot: "46 \<notin> set (nat_dec n)" for n
    using nat_dec_digits[of 46 n] by (auto simp: is_digit_def)
  have "split_on 46 (join_with [46] (map nat_dec [a, b, c, d])) = map nat_dec [a, b, c, d]"
    by (simp add: split_on_append split_on_none dot)
  then show ?thesis using assms by (simp add: parse_ipv4_def parse_octet_nat_dec)
qed

lemma parse_ipv4_text: "v < 2 ^ 32 \<Longrightarrow> parse_ipv4 (ipv4_text v) = Some v"
proof -
  assume "v < 2 ^ 32"
  then have v: "v < 256 ^ 4" by simp
  have "ipv4_octets v = [v div 256 ^ 3 mod 256, v div 256 ^ 2 mod 256, v div 256 ^ 1 mod 256, v div 256 ^ 0 mod 256]"
    by (simp only: ipv4_octets_def list.map)
  then show ?thesis
    unfolding ipv4_text_def
    by (simp only: parse_ipv4_octets four_octets[OF v] mod_less_divisor zero_less_numeral)
qed

lemma ipv4_text_chars: "x \<in> set (ipv4_text v) \<Longrightarrow> x = 46 \<or> is_digit x"
proof -
  assume "x \<in> set (ipv4_text v)"
  then have "x \<in> set [46] \<union> \<Union> (set ` set (map nat_dec (ipv4_octets v)))"
    unfolding ipv4_text_def using set_join_with by blast
  then show ?thesis using nat_dec_digits by auto
qed

lemma ipv4_text_no_slash: "47 \<notin> set (ipv4_text v)" and ipv4_text_no_percent: "37 \<notin> set (ipv4_text v)"
  using ipv4_text_chars[of 47 v] ipv4_text_chars[of 37 v] by (auto simp: is_digit_def)

lemma ipv4_text_length: "length (ipv4_text v) \<le> 15"
proof -
  have "length (nat_dec (n mod 256)) \<le> Suc 2" for n
    by (rule nat_dec_length) (rule less_trans[OF mod_less_divisor], simp_all)
  then have "length (nat_dec (n mod 256)) \<le> 3" for n by simp
  from this[of "v div 256 ^ 3"] this[of "v div 256 ^ 2"] this[of "v div 256 ^ 1"] this[of "v div 256 ^ 0"]
  show ?thesis unfolding ipv4_text_def ipv4_octets_def by simp
qed

section \<open>An IPv6 address reads back from its text\<close>

lemma nat_hex_length: "n < 16 ^ Suc k \<Longrightarrow> length (nat_hex n) \<le> Suc k"
proof (induction k arbitrary: n)
  case (Suc k)
  then have "n div 16 < 16 ^ Suc k" by (simp add: div_less_iff_less_mult)
  then have "length (nat_hex (n div 16)) \<le> Suc k" by (rule Suc.IH)
  then show ?case by (simp add: nat_hex.simps[of n])
qed (simp add: nat_hex.simps)

lemma parse_hextet_nat_hex: "n < 65536 \<Longrightarrow> parse_hextet (nat_hex n) = Some n"
  using nat_hex_length[of n 3] by (simp add: parse_hextet_def)

fun hextets_number :: "nat \<Rightarrow> nat list \<Rightarrow> nat" where
  "hextets_number acc [] = acc"
| "hextets_number acc (h # hs) = hextets_number (65536 * acc + h) hs"

lemma hextets_number_append: "hextets_number acc (as @ bs) = hextets_number (hextets_number acc as) bs"
  by (induction acc as rule: hextets_number.induct) auto

lemma hextets_number_zeros: "hextets_number acc (replicate n 0) = acc * 65536 ^ n"
  by (induction n arbitrary: acc) (auto simp: algebra_simps)

lemma hextets_value_nat_hex:
  "\<forall>h\<in>set hs. h < 65536 \<Longrightarrow> hextets_value acc (map nat_hex hs) = Some (hextets_number acc hs)"
  by (induction acc hs rule: hextets_number.induct) (auto simp: parse_hextet_nat_hex)

lemma hextets_number_ipv6:
  assumes "v < 2 ^ 128"
  shows "hextets_number 0 (ipv6_hextets v) = v"
proof -
  have "hextets_number 0 (map (\<lambda>i. v div 65536 ^ i mod 65536) (rev [0 ..< k])) = v mod 65536 ^ k" for k
  proof (induction k)
    case (Suc k)
    have shift: "hextets_number a hs = a * 65536 ^ length hs + hextets_number 0 hs" for a hs
    proof (induction hs arbitrary: a)
      case (Cons h hs)
      from Cons.IH[of "65536 * a + h"] Cons.IH[of h] show ?case by (simp add: algebra_simps)
    qed simp
    show ?case
      using Suc shift[of "v div 65536 ^ k mod 65536"] mod_mult2_eq[of v "65536 ^ k" 65536]
      by (simp add: mult.commute)
  qed simp
  note number = this[of 8]
  have "[0 ..< 8] = [0, 1, 2, 3, 4, 5, 6, 7::nat]" by (simp add: upt_conv_Cons)
  then have "rev [0 ..< 8] = [7, 6, 5, 4, 3, 2, 1, 0::nat]" by simp
  then have "hextets_number 0 (ipv6_hextets v) = v mod 65536 ^ 8"
    using number unfolding ipv6_hextets_def by argo
  also have "(65536::nat) ^ 8 = 2 ^ 128" by simp
  finally show ?thesis using assms by (simp only: mod_less)
qed

lemma inner_gaps_none: "\<forall>p\<in>set parts. p \<noteq> [] \<Longrightarrow> inner_gaps parts = []"
  unfolding inner_gaps_def filter_empty_conv
proof (intro ballI)
  fix i assume "\<forall>p\<in>set parts. p \<noteq> []" and "i \<in> set [1 ..< length parts - 1]"
  then show "parts ! i \<noteq> []" using nth_mem[of i parts] by force
qed

lemma inner_gaps_one:
  assumes "as \<noteq> []" and "bs \<noteq> []" and "\<forall>p\<in>set (tl as) \<union> set (butlast bs). p \<noteq> []"
  shows "inner_gaps (as @ [] # bs) = [length as]"
proof -
  let ?parts = "as @ [] # bs"
  have "?parts ! i = [] \<longleftrightarrow> i = length as" if "i \<in> set [1 ..< length ?parts - 1]" for i
  proof (cases i "length as" rule: linorder_cases)
    case less
    with that have "as ! i \<in> set (tl as)"
      by (cases as) (auto simp: nth_Cons split: nat.splits)
    with less assms(3) show ?thesis by (auto simp: nth_append)
  next
    case greater
    define j where "j = i - length as - 1"
    have j: "i = length as + Suc j" "j < length bs - 1" using greater that by (auto simp: j_def)
    then have "bs ! j \<in> set (butlast bs)" by (metis length_butlast nth_butlast nth_mem)
    with j assms(3) show ?thesis by (auto simp: nth_append)
  qed (simp add: nth_append)
  then have "inner_gaps ?parts = filter (\<lambda>i. i = length as) [1 ..< length ?parts - 1]"
    unfolding inner_gaps_def by (rule filter_cong[OF refl])
  also have "\<dots> = [length as]"
  proof -
    have "1 \<le> length as" "1 \<le> length bs" using assms(1,2) by (simp_all add: Suc_le_eq)
    then have "length as \<in> set [1 ..< length ?parts - 1]" unfolding set_upt by (simp add: assms(2))
    moreover have "filter (\<lambda>i. i = x) xs = [x]" if "distinct xs" "x \<in> set xs" for x :: nat and xs
      using that by (induction xs) (auto simp: filter_empty_conv)
    ultimately show ?thesis by simp
  qed
  finally show ?thesis .
qed

lemma ipv6_of_parts_full:
  assumes "length hs = 8" and "\<forall>h\<in>set hs. h < 65536"
  shows "ipv6_of_parts (map nat_hex hs) = Some (hextets_number 0 hs)"
proof -
  have "hs \<noteq> []" using assms(1) by auto
  then have "hd (map nat_hex hs) \<noteq> []" "last (map nat_hex hs) \<noteq> []"
    by (simp_all add: hd_map last_map)
  then show ?thesis
    using assms by (simp add: ipv6_of_parts_def inner_gaps_none hextets_value_nat_hex)
qed

lemma ipv6_of_parts_compressed:
  assumes "length as + length bs \<le> 6" and "\<forall>h\<in>set as \<union> set bs. h < 65536"
  shows "ipv6_of_parts ((if as = [] then [[]] else map nat_hex as) @ [] #
      (if bs = [] then [[]] else map nat_hex bs))
    = Some (hextets_number 0 (as @ replicate (8 - (length as + length bs)) 0 @ bs))"
proof -
  let ?l = "if as = [] then [[]] else map nat_hex as"
  let ?r = "if bs = [] then [[]] else map nat_hex bs"
  let ?parts = "?l @ [] # ?r"
  have gaps: "inner_gaps ?parts = [length ?l]"
  proof (rule inner_gaps_one)
    have "p \<noteq> []" if "p \<in> set (tl (map nat_hex as)) \<union> set (butlast (map nat_hex bs))" for p
    proof -
      from that have "p \<in> set (map nat_hex as) \<union> set (map nat_hex bs)"
        by (metis Un_iff empty_iff in_set_butlastD list.sel(2) list.set(1) list.set_sel(2))
      then show ?thesis using nat_hex_not_Nil by (metis Un_iff ex_map_conv)
    qed
    then show "\<forall>p\<in>set (tl ?l) \<union> set (butlast ?r). p \<noteq> []" by simp
  qed simp_all
  have hd: "hd ?parts = [] \<longleftrightarrow> as = []" by (cases as) auto
  have last: "last ?parts = [] \<longleftrightarrow> bs = []"
    by (simp add: last_map)
  have "take (length as) ?parts = map nat_hex as" by simp
  moreover have "drop (length ?parts - length bs) ?parts = map nat_hex bs"
    by (cases "bs = []") auto
  ultimately show ?thesis
    unfolding ipv6_of_parts_def gaps Let_def hd last
    using assms
    by (cases "as = []"; cases "bs = []")
      (simp_all add: hextets_value_nat_hex hextets_number_append hextets_number_zeros)
qed

lemma length_run: "take n (drop i hs) = replicate n (0::nat) \<Longrightarrow> i + n \<le> length hs \<or> n = 0"
  by (metis add.commute le_diff_conv2 length_drop length_replicate length_take min.absorb_iff2
      diff_is_0_eq' linorder_le_cases min.cobounded1 le_zero_eq)

lemma parse_ipv6_text:
  assumes "v < 2 ^ 128"
  shows "parse_ipv6 (ipv6_text v) = Some v"
proof -
  let ?hs = "ipv6_hextets v"
  let ?parts = "split_on 58 (ipv6_text v)"
  have len: "length ?hs = 8" and small: "\<forall>h\<in>set ?hs. h < 65536"
    by (simp_all add: ipv6_hextets_def)
  obtain i n where run: "longest_zero_run ?hs = (i, n)" by (cases "longest_zero_run ?hs")
  have "length ?parts \<ge> 3 \<and> ipv6_of_parts ?parts = Some (hextets_number 0 ?hs)"
  proof (cases "n \<le> 1")
    case True
    have "?parts = map nat_hex ?hs"
      using True len by (simp add: ipv6_text_def Let_def run split_join_hex flip: length_0_conv)
    then show ?thesis using ipv6_of_parts_full[OF len small] len by simp
  next
    case False
    let ?as = "take i ?hs" and ?bs = "drop (i + n) ?hs"
    have zeros: "take n (drop i ?hs) = replicate n 0" by (rule longest_zero_run_zeros[OF run])
    then have room: "i + n \<le> 8" using length_run[OF zeros] False len by simp
    have "?hs = ?as @ take n (drop i ?hs) @ ?bs"
      by (metis add.commute append_take_drop_id drop_drop)
    with zeros have hs: "?hs = ?as @ replicate n 0 @ ?bs" by simp
    have "8 - (length ?as + length ?bs) = n" "length ?as + length ?bs \<le> 6"
      using room len False by simp_all
    moreover have "?parts = (if ?as = [] then [[]] else map nat_hex ?as) @ [] #
        (if ?bs = [] then [[]] else map nat_hex ?bs)"
      using False by (simp only: ipv6_text_def Let_def run split_compressed prod.case if_False)
    moreover have "\<forall>h\<in>set ?as \<union> set ?bs. h < 65536"
      using small by (auto dest: in_set_takeD in_set_dropD)
    moreover have "3 \<le> length ((if as = [] then [[]] else map nat_hex as) @ [] #
        (if bs = [] then [[]] else map nat_hex bs))" for as bs
      by (cases as; cases bs) simp_all
    ultimately show ?thesis using ipv6_of_parts_compressed[of ?as ?bs] hs by metis
  qed
  moreover have "46 \<notin> set (last ?parts)"
  proof -
    have "set (last ?parts) \<subseteq> set (ipv6_text v)" using split_on_subset[OF last_in_set] by auto
    then show ?thesis using ipv6_text_chars by blast
  qed
  ultimately show ?thesis
    using hextets_number_ipv6[OF assms] by (simp add: parse_ipv6_def ipv6_parts_def Let_def)
qed

lemma parse_ip_text:
  assumes "case a of IPv4Address v \<Rightarrow> v < 2 ^ 32 | IPv6Address v \<Rightarrow> v < 2 ^ 128"
  shows "parse_ip_address (ip_text a) = Some a"
proof (cases a)
  case (IPv4Address v)
  with assms show ?thesis by (simp add: parse_ip_address_def parse_ipv4_text)
next
  case (IPv6Address v)
  have "46 \<notin> set (ipv6_text v)" using ipv6_text_chars by blast
  then have "parse_ipv4 (ipv6_text v) = None" by (simp add: parse_ipv4_def split_on_none split: option.split)
  with IPv6Address assms show ?thesis by (simp add: parse_ip_address_def parse_ipv6_text)
qed

lemma length_join_hex: "\<forall>h\<in>set hs. h < 65536 \<Longrightarrow> length (join_with [58] (map nat_hex hs)) \<le> 5 * length hs"
proof (induction hs)
  case (Cons h hs)
  then have "length (nat_hex h) \<le> 4" using nat_hex_length[of h 3] by simp
  with Cons show ?case by (cases "hs = []") (auto simp: join_with_Cons)
qed simp

lemma ipv6_text_length: "length (ipv6_text v) \<le> 45"
proof -
  let ?hs = "ipv6_hextets v"
  have len: "length ?hs = 8" and small: "\<forall>h\<in>set ?hs. h < 65536"
    by (simp_all add: ipv6_hextets_def)
  obtain i n where run: "longest_zero_run ?hs = (i, n)" by (cases "longest_zero_run ?hs")
  have "length (join_with [58] (map nat_hex (take i ?hs))) \<le> 5 * length (take i ?hs)"
    "length (join_with [58] (map nat_hex (drop (i + n) ?hs))) \<le> 5 * length (drop (i + n) ?hs)"
    using small by (intro length_join_hex; auto dest: in_set_takeD in_set_dropD)+
  moreover have "length (take i ?hs) + length (drop (i + n) ?hs) \<le> 8" using len by simp
  ultimately show ?thesis
    using length_join_hex[OF small] len by (auto simp: ipv6_text_def Let_def run)
qed

end
