(* ===== verification/Proxies.thy ===== *)
theory Proxies
  imports Addresses
begin

text \<open>
  \<open>webauth/proxies.py\<close>, the part that decides on text alone: which peers are trusted, how a
  forwarded header is read from the right, and which address a request's budget belongs to.
  The functions that read a connection are in the theory of the connections.
\<close>

section \<open>Trusted proxies\<close>

record trusted_proxies =
  networks :: "ip_network list"

definition proxy_network :: "pystr \<Rightarrow> exn + ip_network" where
  "proxy_network entry =
     (if 37 \<in> set entry then Inl ValueError
      else (case parse_ip_network entry of None \<Rightarrow> Inl ValueError | Some n \<Rightarrow> Inr n))"

definition parse_trusted_proxies :: "pystr \<Rightarrow> exn + trusted_proxies" where
  "parse_trusted_proxies raw =
     bindR (mapR proxy_network (filter (\<lambda>e. e \<noteq> []) (map strip (split_on 44 raw))))
       (\<lambda>ns. Inr \<lparr>networks = ns\<rparr>)"

definition trusts :: "trusted_proxies \<Rightarrow> ip_address \<Rightarrow> bool" where
  "trusts tp a \<longleftrightarrow> list_ex (in_network a) (networks tp)"

definition MAX_ADDRESS_CHARS :: nat where "MAX_ADDRESS_CHARS = 45"

definition canonical_address :: "pystr \<Rightarrow> ip_address option" where
  "canonical_address host =
     (if MAX_ADDRESS_CHARS < length host \<or> 37 \<in> set host then None
      else (case parse_ip_address host of
          None \<Rightarrow> None
        | Some (IPv4Address v) \<Rightarrow> Some (IPv4Address v)
        | Some (IPv6Address v) \<Rightarrow> (case ipv4_mapped v of
              Some w \<Rightarrow> Some (IPv4Address w)
            | None \<Rightarrow> Some (IPv6Address v))))"

definition trusts_host :: "trusted_proxies \<Rightarrow> pystr \<Rightarrow> bool" where
  "trusts_host tp host = (case canonical_address host of None \<Rightarrow> False | Some a \<Rightarrow> trusts tp a)"

definition canonical_host :: "pystr \<Rightarrow> pystr" where
  "canonical_host host = (case canonical_address host of None \<Rightarrow> host | Some a \<Rightarrow> ip_text a)"

definition budget_address :: "pystr \<Rightarrow> pystr" where
  "budget_address address = (case canonical_address address of
      Some (IPv6Address v) \<Rightarrow> ipv6_network_text v 64
    | Some (IPv4Address v) \<Rightarrow> ip_text (IPv4Address v)
    | None \<Rightarrow> address)"

section \<open>The forwarded chain\<close>

text \<open>\<open>s.rfind(c, 0, end)\<close>: the last index of \<open>c\<close> below \<open>end\<close>.\<close>

fun rfind_before :: "nat \<Rightarrow> pystr \<Rightarrow> nat \<Rightarrow> nat option" where
  "rfind_before c s 0 = None"
| "rfind_before c s (Suc e) = (if e < length s \<and> s ! e = c then Some e else rfind_before c s e)"

lemma rfind_before_Some:
  "rfind_before c s e = Some i \<Longrightarrow>
     i < e \<and> i < length s \<and> s ! i = c \<and> (\<forall>j. i < j \<longrightarrow> j < e \<longrightarrow> j < length s \<longrightarrow> s ! j \<noteq> c)"
proof (induction e)
  case (Suc e)
  show ?case
  proof (cases "e < length s \<and> s ! e = c")
    case True
    with Suc.prems show ?thesis by auto
  next
    case False
    with Suc show ?thesis by (auto simp: less_Suc_eq)
  qed
qed simp

lemma rfind_before_None: "rfind_before c s e = None \<Longrightarrow> j < e \<Longrightarrow> j < length s \<Longrightarrow> s ! j \<noteq> c"
  by (induction e) (auto simp: less_Suc_eq split: if_splits)

text \<open>The loop over one field: \<open>e\<close> is the local \<open>end\<close>; what it yields, newest hop first.\<close>

function field_entries :: "pystr \<Rightarrow> nat \<Rightarrow> pystr list" where
  "field_entries s e = (case rfind_before 44 s e of
      None \<Rightarrow> [strip (take e s)]
    | Some i \<Rightarrow> strip (drop (Suc i) (take e s)) # field_entries s i)"
  by pat_completeness auto
termination
  by (relation "measure snd") (auto dest: rfind_before_Some)

declare field_entries.simps [simp del]

definition forwarded_entries :: "pystr list \<Rightarrow> pystr list" where
  "forwarded_entries header_values =
     concat (map (\<lambda>v. field_entries v (length v)) (rev header_values))"

definition MAX_FORWARDED_FOR_HOPS :: nat where "MAX_FORWARDED_FOR_HOPS = 16"

fun first_untrusted :: "pystr list \<Rightarrow> trusted_proxies \<Rightarrow> ip_address option" where
  "first_untrusted [] tp = None"
| "first_untrusted (entry # entries) tp = (case canonical_address entry of
      None \<Rightarrow> None
    | Some hop \<Rightarrow> if \<not> trusts tp hop then Some hop else first_untrusted entries tp)"

definition client_from_chain :: "pystr list \<Rightarrow> trusted_proxies \<Rightarrow> ip_address option" where
  "client_from_chain entries tp = first_untrusted (take MAX_FORWARDED_FOR_HOPS entries) tp"

definition get_client_ip :: "pystr \<Rightarrow> pystr list \<Rightarrow> trusted_proxies \<Rightarrow> pystr" where
  "get_client_ip peer forwarded tp =
     (if \<not> trusts_host tp peer then canonical_host peer
      else (case client_from_chain (forwarded_entries forwarded) tp of
          None \<Rightarrow> canonical_host peer
        | Some client \<Rightarrow> ip_text client))"

section \<open>Reading from the right is splitting from the left\<close>

text \<open>The index walk yields what cutting the field at every comma yields, reversed.\<close>

lemma split_on_last_sep:
  assumes "c \<notin> set b"
  shows "split_on c (a @ c # b) = split_on c a @ [b]"
  using assms by (simp add: split_on_append_sep split_on_none)

lemma field_entries_split:
  "e \<le> length s \<Longrightarrow> field_entries s e = rev (map strip (split_on 44 (take e s)))"
proof (induction e rule: less_induct)
  case (less e)
  show ?case
  proof (cases "rfind_before 44 s e")
    case None
    then have "44 \<notin> set (take e s)"
      using rfind_before_None[OF None] by (auto simp: in_set_conv_nth)
    then show ?thesis by (subst field_entries.simps) (simp add: None split_on_none)
  next
    case (Some i)
    note i = rfind_before_Some[OF Some]
    have cut: "take e s = take i s @ 44 # drop (Suc i) (take e s)"
      using i id_take_nth_drop[of i "take e s"] less.prems by (simp add: min_def)
    have "44 \<notin> set (drop (Suc i) (take e s))"
      using i by (auto simp: in_set_conv_nth)
    then have "split_on 44 (take e s) = split_on 44 (take i s) @ [drop (Suc i) (take e s)]"
      using split_on_last_sep cut by metis
    moreover have "field_entries s i = rev (map strip (split_on 44 (take i s)))"
      using i less.prems by (intro less.IH) auto
    ultimately show ?thesis by (subst field_entries.simps) (simp add: Some)
  qed
qed

lemma forwarded_entries_split:
  "forwarded_entries forwarded = rev (map strip (concat (map (split_on 44) forwarded)))"
  by (induction forwarded) (simp_all add: forwarded_entries_def field_entries_split)

lemma forwarded_entries_prefix:
  "forwarded_entries (before @ (p @ 44 # s) # forwarded) =
     forwarded_entries (s # forwarded) @ forwarded_entries (before @ [p])"
  by (simp add: forwarded_entries_split split_on_append_sep)

lemma first_untrusted_decided:
  assumes "i < length es" and "case canonical_address (es ! i) of None \<Rightarrow> True | Some h \<Rightarrow> \<not> trusts tp h"
  shows "first_untrusted (es @ es') tp = first_untrusted es tp"
  using assms
proof (induction es arbitrary: i)
  case (Cons e es)
  then show ?case by (cases i) (auto split: option.splits)
qed simp

lemma client_from_chain_decided:
  assumes "i < length es" and "i < MAX_FORWARDED_FOR_HOPS"
    and "case canonical_address (es ! i) of None \<Rightarrow> True | Some h \<Rightarrow> \<not> trusts tp h"
  shows "client_from_chain (es @ es') tp = client_from_chain es tp"
proof -
  have "take MAX_FORWARDED_FOR_HOPS (es @ es') =
      take MAX_FORWARDED_FOR_HOPS es @ take (MAX_FORWARDED_FOR_HOPS - length es) es'"
    by simp
  then show ?thesis
    unfolding client_from_chain_def
    using assms first_untrusted_decided[of i "take MAX_FORWARDED_FOR_HOPS es"] by simp
qed

lemma first_untrusted_Some:
  "first_untrusted es tp = Some a \<Longrightarrow>
     \<not> trusts tp a \<and> (\<exists>i<length es. canonical_address (es ! i) = Some a
       \<and> (\<forall>j<i. \<exists>h. canonical_address (es ! j) = Some h \<and> trusts tp h))"
proof (induction es)
  case (Cons e es)
  show ?case
  proof (cases "canonical_address e")
    case None
    with Cons.prems show ?thesis by simp
  next
    case (Some h)
    show ?thesis
    proof (cases "trusts tp h")
      case False
      with Some Cons.prems show ?thesis by (intro conjI exI[of _ 0]) auto
    next
      case True
      with Some Cons.prems have "first_untrusted es tp = Some a" by simp
      then obtain i where i: "\<not> trusts tp a" "i < length es" "canonical_address (es ! i) = Some a"
        "\<forall>j<i. \<exists>h. canonical_address (es ! j) = Some h \<and> trusts tp h"
        using Cons.IH by blast
      have "\<exists>h. canonical_address ((e # es) ! j) = Some h \<and> trusts tp h" if "j < Suc i" for j
        using that i(4) Some True by (cases j) auto
      with i show ?thesis by (intro conjI exI[of _ "Suc i"]) auto
    qed
  qed
qed simp

lemma canonical_address_not_mapped: "canonical_address h = Some (IPv6Address v) \<Longrightarrow> ipv4_mapped v = None"
  by (auto simp: canonical_address_def split: if_splits option.splits ip_address.splits)

section \<open>Canonical addresses\<close>

lemma canonical_address_fits:
  assumes "canonical_address h = Some a"
  shows "case a of IPv4Address v \<Rightarrow> v < 2 ^ 32 | IPv6Address v \<Rightarrow> v < 2 ^ 128 \<and> ipv4_mapped v = None"
  using assms ip_address_parsed[of h]
  by (auto simp: canonical_address_def ipv4_mapped_def split: if_splits option.splits ip_address.splits)

lemma canonical_address_text:
  assumes "case a of IPv4Address v \<Rightarrow> v < 2 ^ 32 | IPv6Address v \<Rightarrow> v < 2 ^ 128 \<and> ipv4_mapped v = None"
  shows "canonical_address (ip_text a) = Some a"
proof -
  have "parse_ip_address (ip_text a) = Some a"
    using assms by (intro parse_ip_text) (auto split: ip_address.splits)
  moreover have "length (ip_text a) \<le> 45"
    using ipv4_text_length[of "case a of IPv4Address v \<Rightarrow> v | IPv6Address v \<Rightarrow> v"] ipv6_text_length
    by (cases a) auto
  moreover have "37 \<notin> set (ip_text a)"
    using ipv4_text_no_percent ipv6_text_chars by (cases a) auto
  ultimately show ?thesis
    using assms by (simp add: canonical_address_def MAX_ADDRESS_CHARS_def split: ip_address.splits)
qed

lemma canonical_address_again: "canonical_address h = Some a \<Longrightarrow> canonical_address (ip_text a) = Some a"
  by (rule canonical_address_text) (rule canonical_address_fits)

lemma canonical_host_idem: "canonical_host (canonical_host h) = canonical_host h"
  by (simp add: canonical_host_def canonical_address_again split: option.split)

definition same_budget_network :: "ip_address \<Rightarrow> ip_address \<Rightarrow> bool" where
  "same_budget_network a b = (case (a, b) of
      (IPv4Address v, IPv4Address w) \<Rightarrow> v = w
    | (IPv6Address v, IPv6Address w) \<Rightarrow> v div 2 ^ 64 = w div 2 ^ 64
    | _ \<Rightarrow> False)"

lemma ipv6_network_text_cong:
  "v div 2 ^ (128 - p) = w div 2 ^ (128 - p) \<Longrightarrow> ipv6_network_text v p = ipv6_network_text w p"
  by (simp add: ipv6_network_text_def)

lemma ipv6_network_text_slash: "47 \<in> set (ipv6_network_text v p)"
  by (simp add: ipv6_network_text_def)

lemma budget_address_eq:
  assumes a: "canonical_address s = Some a" and b: "canonical_address t = Some b"
  shows "budget_address s = budget_address t \<longleftrightarrow> same_budget_network a b"
proof (cases a; cases b)
  fix v w assume c: "a = IPv4Address v" "b = IPv4Address w"
  then show ?thesis
    using assms canonical_address_fits[OF a] canonical_address_fits[OF b] parse_ipv4_text
    by (auto simp: budget_address_def same_budget_network_def) (metis option.inject)
next
  fix v w assume c: "a = IPv6Address v" "b = IPv6Address w"
  then have "v < 2 ^ 128" "w < 2 ^ 128"
    using canonical_address_fits[OF a] canonical_address_fits[OF b] by auto
  then have "ipv6_network_text v 64 = ipv6_network_text w 64 \<longleftrightarrow> v div 2 ^ 64 = w div 2 ^ 64"
    using ipv6_network_text_inj[of v 64 w] ipv6_network_text_cong[of v 64 w] by auto
  with assms c show ?thesis by (simp add: budget_address_def same_budget_network_def)
next
  fix v w assume "a = IPv4Address v" "b = IPv6Address w"
  with assms show ?thesis
    using ipv4_text_no_slash[of v] ipv6_network_text_slash[of w 64]
    by (auto simp: budget_address_def same_budget_network_def)
next
  fix v w assume "a = IPv6Address v" "b = IPv4Address w"
  with assms show ?thesis
    using ipv4_text_no_slash[of w] ipv6_network_text_slash[of v 64]
    by (auto simp: budget_address_def same_budget_network_def)
qed

section \<open>Properties\<close>

text \<open>C19. A client cannot change who it is by writing into the forwarded header. Once a hop among the
  first sixteen read from the right decides (it is no address, or no trusted proxy vouches for it),
  whatever text \<open>p\<close> was in the same field before it, and whatever fields came before that field,
  the client identity is the same.\<close>

theorem forwarded_prefix_ignored:
  assumes "i < length (forwarded_entries (s # later))" and "i < MAX_FORWARDED_FOR_HOPS"
    and "case canonical_address (forwarded_entries (s # later) ! i) of
           None \<Rightarrow> True | Some hop \<Rightarrow> \<not> trusts tp hop"
  shows "get_client_ip peer (before @ (p @ 44 # s) # later) tp = get_client_ip peer (s # later) tp"
  using client_from_chain_decided[OF assms]
  by (simp add: get_client_ip_def forwarded_entries_prefix)

lemma forwarded_prefix_ignored_witness:
  "get_client_ip (py ''10.0.0.1'') ([py ''1.1.1.1''] @ (py ''6.6.6.6'' @ 44 # py ''203.0.113.9'') # [])
      \<lparr>networks = [IPv4Network 167772160 8]\<rparr>
    = get_client_ip (py ''10.0.0.1'') (py ''203.0.113.9'' # []) \<lparr>networks = [IPv4Network 167772160 8]\<rparr>"
proof (rule forwarded_prefix_ignored[of 0])
  have "forwarded_entries [py ''203.0.113.9''] = [py ''203.0.113.9'']"
    by (simp add: forwarded_entries_split text_eval)
  moreover have "parse_ip_address (py ''203.0.113.9'') = Some (IPv4Address 3405803785)"
    by (simp add: parse_ip_address_def parse_ipv4_def parse_octet_def text_eval)
  ultimately show "0 < length (forwarded_entries [py ''203.0.113.9''])"
    "case canonical_address (forwarded_entries [py ''203.0.113.9''] ! 0) of None \<Rightarrow> True
      | Some hop \<Rightarrow> \<not> trusts \<lparr>networks = [IPv4Network 167772160 8]\<rparr> hop"
    by (simp_all add: canonical_address_def MAX_ADDRESS_CHARS_def trusts_def text_eval)
qed (simp add: MAX_FORWARDED_FOR_HOPS_def)

text \<open>Where an identity comes from: either it is the peer in canonical form, or the peer is trusted
  and it is the text of one hop of the chain that is an address no trusted proxy vouches for, reached
  from the right over trusted hops only and among the first sixteen. So a request from an untrusted
  peer is always its peer, and a trusted hop or text that is no address is nobody's identity.\<close>

theorem client_identity_is_peer_or_untrusted_hop:
  "get_client_ip peer forwarded tp = canonical_host peer
   \<or> (trusts_host tp peer \<and> (\<exists>i a. i < length (forwarded_entries forwarded) \<and> i < 16
        \<and> canonical_address (forwarded_entries forwarded ! i) = Some a \<and> \<not> trusts tp a
        \<and> (\<forall>j<i. \<exists>h. canonical_address (forwarded_entries forwarded ! j) = Some h \<and> trusts tp h)
        \<and> get_client_ip peer forwarded tp = ip_text a))"
proof (cases "trusts_host tp peer")
  case True
  let ?es = "forwarded_entries forwarded"
  show ?thesis
  proof (cases "client_from_chain ?es tp")
    case (Some a)
    from first_untrusted_Some[OF Some[unfolded client_from_chain_def]]
    obtain i where i: "\<not> trusts tp a" "i < length ?es" "i < 16" "canonical_address (?es ! i) = Some a"
      "\<forall>j<i. \<exists>h. canonical_address (?es ! j) = Some h \<and> trusts tp h"
      by (auto simp: MAX_FORWARDED_FOR_HOPS_def)
    have "get_client_ip peer forwarded tp = ip_text a" using True Some by (simp add: get_client_ip_def)
    with i True show ?thesis by blast
  qed (simp add: get_client_ip_def)
qed (simp add: get_client_ip_def)

lemma client_identity_is_peer_or_untrusted_hop_witness:
  "get_client_ip (py ''10.0.0.1'') [py ''203.0.113.9''] \<lparr>networks = [IPv4Network 167772160 8]\<rparr>
     \<in> {canonical_host (py ''10.0.0.1''), ip_text (IPv4Address 3405803785)}"
proof -
  have entries: "forwarded_entries [py ''203.0.113.9''] = [py ''203.0.113.9'']"
    by (simp add: forwarded_entries_split text_eval)
  have "parse_ip_address (py ''203.0.113.9'') = Some (IPv4Address 3405803785)"
    by (simp add: parse_ip_address_def parse_ipv4_def parse_octet_def text_eval)
  then have hop: "canonical_address (py ''203.0.113.9'') = Some (IPv4Address 3405803785)"
    by (simp add: canonical_address_def MAX_ADDRESS_CHARS_def text_eval)
  show ?thesis
    using client_identity_is_peer_or_untrusted_hop[of "py ''10.0.0.1''" "[py ''203.0.113.9'']"
        "\<lparr>networks = [IPv4Network 167772160 8]\<rparr>"]
    unfolding entries by (auto simp: hop)
qed

text \<open>Whose budget a request spends: two client identities that are addresses share a rate-limit
  identity exactly when they are the same IPv4 address (mapped or not) or two IPv6 addresses of one
  /64, so an IPv6 subscriber cannot mint budgets inside its network and no two networks pool.\<close>

theorem budget_is_the_network:
  assumes "canonical_address s = Some a" and "canonical_address t = Some b"
  shows "budget_address s = budget_address t \<longleftrightarrow> same_budget_network a b"
  by (rule budget_address_eq[OF assms])

lemma budget_is_the_network_witness:
  "budget_address (py ''::ffff:1.2.3.4'') = budget_address (py ''1.2.3.4'')
     \<longleftrightarrow> same_budget_network (IPv4Address 16909060) (IPv4Address 16909060)"
proof (rule budget_is_the_network)
  have four: "parse_ipv4 (py ''1.2.3.4'') = Some 16909060"
    by (simp add: parse_ipv4_def parse_octet_def text_eval)
  then show "canonical_address (py ''1.2.3.4'') = Some (IPv4Address 16909060)"
    by (simp add: canonical_address_def parse_ip_address_def MAX_ADDRESS_CHARS_def text_eval)
  have hex: "nat_hex 258 = py ''102''" "nat_hex 772 = py ''304''"
    by (simp_all add: nat_hex.simps hex_digit_def text_eval)
  have none: "parse_ipv4 (py ''::ffff:1.2.3.4'') = None"
    by (simp add: parse_ipv4_def parse_octet_def text_eval)
  have "split_on 58 (py ''::ffff:1.2.3.4'') = [[], [], py ''ffff'', py ''1.2.3.4'']"
    by (simp add: text_eval)
  then have "ipv6_parts (py ''::ffff:1.2.3.4'') = Some [[], [], py ''ffff'', py ''102'', py ''304'']"
    using four hex by (simp add: ipv6_parts_def text_eval)
  moreover have "inner_gaps [[], [], py ''ffff'', py ''102'', py ''304''] = [1]"
    by (simp add: inner_gaps_def upt_conv_Cons)
  ultimately have "parse_ipv6 (py ''::ffff:1.2.3.4'') = Some 281470698652420"
    by (simp add: parse_ipv6_def ipv6_of_parts_def parse_hextet_def hex_value_def text_eval)
  with none show "canonical_address (py ''::ffff:1.2.3.4'') = Some (IPv4Address 16909060)"
    by (simp add: canonical_address_def parse_ip_address_def MAX_ADDRESS_CHARS_def ipv4_mapped_def text_eval)
qed

end
