(* ===== verification/Validation.thy ===== *)
theory Validation
  imports Text
begin

text \<open>
  \<open>webauth/_validation.py\<close>: the checks the configuration classes share. An argument of type
  \<open>object\<close> is a \<open>pyobj\<close>. A check that returns nothing in Python and after which the value is
  used at its checked type answers that value here. Error messages are not modelled; which
  exception is raised is.
\<close>

definition is_scope_token_char :: "nat \<Rightarrow> bool" where
  "is_scope_token_char c \<longleftrightarrow> c = 33 \<or> (35 \<le> c \<and> c \<le> 91) \<or> (93 \<le> c \<and> c \<le> 126)"

definition is_scope_token :: "pystr \<Rightarrow> bool" where
  "is_scope_token s \<longleftrightarrow> s \<noteq> [] \<and> list_all is_scope_token_char s"

fun is_scope_token_obj :: "pyobj \<Rightarrow> bool" where
  "is_scope_token_obj (PyStr s) = is_scope_token s"
| "is_scope_token_obj _ = False"

fun is_scope_token_tuple :: "pyobj \<Rightarrow> bool" where
  "is_scope_token_tuple (PyTuple scopes) = list_all is_scope_token_obj scopes"
| "is_scope_token_tuple _ = False"

definition is_utf8 :: "pystr \<Rightarrow> bool" where
  "is_utf8 text = (case utf8_encode text of Inl _ \<Rightarrow> False | Inr _ \<Rightarrow> True)"

fun require_non_empty_string :: "pyobj \<Rightarrow> exn + pystr" where
  "require_non_empty_string (PyStr s) = (if s = [] then Inl ValueError else Inr s)"
| "require_non_empty_string _ = Inl ValueError"

text \<open>\<open>isinstance(value, int) and not isinstance(value, bool)\<close>: \<open>True\<close> is an \<open>int\<close> in Python.\<close>

fun is_whole_number :: "pyobj \<Rightarrow> int option" where
  "is_whole_number (PyInt i) = Some i"
| "is_whole_number _ = None"

definition require_non_negative_whole_number :: "pyobj \<Rightarrow> exn + int" where
  "require_non_negative_whole_number v =
     (case is_whole_number v of
        None \<Rightarrow> Inl ValueError
      | Some i \<Rightarrow> if i < 0 then Inl ValueError else Inr i)"

definition require_positive_whole_number :: "pyobj \<Rightarrow> exn + int" where
  "require_positive_whole_number v =
     (case is_whole_number v of
        None \<Rightarrow> Inl ValueError
      | Some i \<Rightarrow> if i \<le> 0 then Inl ValueError else Inr i)"

fun require_collection_not_one_string :: "pyobj \<Rightarrow> exn + unit" where
  "require_collection_not_one_string (PyStr _) = Inl ValueError"
| "require_collection_not_one_string _ = Inr ()"

section \<open>Facts\<close>

lemma is_whole_number_Some: "is_whole_number v = Some i \<longleftrightarrow> v = PyInt i"
  by (cases v) auto

lemma require_non_empty_string_Inr [simp]:
  "require_non_empty_string v = Inr s \<longleftrightarrow> v = PyStr s \<and> s \<noteq> []"
  by (cases v) auto

lemma require_positive_Inr [simp]:
  "require_positive_whole_number v = Inr i \<longleftrightarrow> v = PyInt i \<and> 0 < i"
  by (cases v) (auto simp: require_positive_whole_number_def)

lemma require_non_negative_Inr [simp]:
  "require_non_negative_whole_number v = Inr i \<longleftrightarrow> v = PyInt i \<and> 0 \<le> i"
  by (cases v) (auto simp: require_non_negative_whole_number_def)

lemma is_utf8_iff: "is_utf8 s \<longleftrightarrow> list_all is_scalar s"
  by (simp add: is_utf8_def utf8_encode_def)

lemma is_scope_token_ascii: "is_scope_token s \<Longrightarrow> x \<in> set s \<Longrightarrow> 32 < x \<and> x < 127"
  by (auto simp: is_scope_token_def is_scope_token_char_def list_all_iff)

end
