(* ===== verification/Config.thy ===== *)
theory Config
  imports Ports Proxies Validation
begin

text \<open>
  \<open>webauth/config.py\<close>: the deployment facts and their validation. The configuration is compared
  by identity in places, so the record carries the number of its instance. The rate limiter and
  the wall clock are the host's operations.
\<close>

section \<open>Session lifetime\<close>

record session_lifetime =
  idle_seconds :: int
  absolute_max_age_seconds :: int

definition MAX_SESSION_LIFETIME_SECONDS :: int where
  "MAX_SESSION_LIFETIME_SECONDS = 400 * 24 * 60 * 60"

definition SessionLifetime :: "pyobj \<Rightarrow> pyobj \<Rightarrow> exn + session_lifetime" where
  "SessionLifetime idle cap =
     bindR (require_positive_whole_number idle) (\<lambda>i.
     bindR (require_positive_whole_number cap) (\<lambda>c.
     bindR (check (c \<le> MAX_SESSION_LIFETIME_SECONDS) ValueError) (\<lambda>_.
     bindR (check (i \<le> c) ValueError) (\<lambda>_.
       Inr \<lparr>idle_seconds = i, absolute_max_age_seconds = c\<rparr>))))"

section \<open>The configuration\<close>

datatype cookie_samesite = Strict | Lax

fun samesite_value :: "cookie_samesite \<Rightarrow> pystr" where
  "samesite_value Strict = py ''strict''"
| "samesite_value Lax = py ''lax''"

definition samesite_of :: "pyobj \<Rightarrow> cookie_samesite option" where
  "samesite_of v =
     (if v = PyStr (py ''strict'') then Some Strict
      else if v = PyStr (py ''lax'') then Some Lax
      else None)"

record 's web_auth_config =
  cf_instance :: nat
  cf_session_secret :: pystr
  cf_trusted_proxies :: trusted_proxies
  cf_rate_limits :: "'s rate_limit_backend"
  cf_allowed_hosts_exact :: "pystr set"
  cf_session_lifetime :: session_lifetime
  cf_cookie_samesite :: cookie_samesite
  cf_cookie_secure :: bool
  cf_wall_clock :: "('s, rat) act"

definition MIN_SESSION_SECRET_CHARS :: nat where "MIN_SESSION_SECRET_CHARS = 32"

text \<open>The hosts argument: one string (refused), or a collection, of which membership is read.\<close>

datatype hosts_argument = OneString pystr | HostCollection "pystr set"

fun require_hosts :: "hosts_argument \<Rightarrow> exn + pystr set" where
  "require_hosts (OneString _) = Inl ValueError"
| "require_hosts (HostCollection hs) = (if hs = {} then Inl ValueError else Inr hs)"

fun require_bool :: "pyobj \<Rightarrow> exn + bool" where
  "require_bool (PyBool b) = Inr b"
| "require_bool _ = Inl ValueError"

definition WebAuthConfig ::
    "nat \<Rightarrow> pystr \<Rightarrow> trusted_proxies \<Rightarrow> 's rate_limit_backend \<Rightarrow> hosts_argument \<Rightarrow> session_lifetime
     \<Rightarrow> pyobj \<Rightarrow> pyobj \<Rightarrow> ('s, rat) act \<Rightarrow> exn + 's web_auth_config" where
  "WebAuthConfig instance_number secret proxies limits hosts lifetime samesite secure clock =
     bindR (check (MIN_SESSION_SECRET_CHARS \<le> length secret) ValueError) (\<lambda>_.
     bindR (case samesite_of samesite of None \<Rightarrow> Inl ValueError | Some s \<Rightarrow> Inr s) (\<lambda>s.
     bindR (require_bool secure) (\<lambda>b.
     bindR (require_hosts hosts) (\<lambda>hs.
       Inr \<lparr>cf_instance = instance_number, cf_session_secret = secret, cf_trusted_proxies = proxies,
            cf_rate_limits = limits, cf_allowed_hosts_exact = hs, cf_session_lifetime = lifetime,
            cf_cookie_samesite = s, cf_cookie_secure = b, cf_wall_clock = clock\<rparr>))))"

definition cookie_name :: "pystr \<Rightarrow> bool \<Rightarrow> pystr" where
  "cookie_name plain_name secure = (if secure then py ''__Host-'' @ plain_name else plain_name)"

definition session_cookie_name :: "'s web_auth_config \<Rightarrow> pystr" where
  "session_cookie_name cfg = cookie_name (py ''session_id'') (cf_cookie_secure cfg)"

definition signing_key :: "'s web_auth_config \<Rightarrow> exn + nat list" where
  "signing_key cfg = utf8_encode (cf_session_secret cfg)"

section \<open>The application that carries it\<close>

text \<open>An ASGI application: its identity and what its state holds under \<open>webauth\<close>.\<close>

record 's app_object =
  app_id :: nat
  app_webauth :: "'s web_auth_config option"

definition install_web_auth_config :: "'s app_object \<Rightarrow> 's web_auth_config \<Rightarrow> 's app_object" where
  "install_web_auth_config app cfg = app\<lparr>app_webauth := Some cfg\<rparr>"

definition installed_web_auth_config :: "'s app_object \<Rightarrow> exn + 's web_auth_config" where
  "installed_web_auth_config app = (case app_webauth app of
      None \<Rightarrow> Inl RuntimeError
    | Some cfg \<Rightarrow> Inr cfg)"

section \<open>Facts\<close>

lemma SessionLifetime_Inr:
  "SessionLifetime idle cap = Inr l \<longleftrightarrow>
     idle = PyInt (idle_seconds l) \<and> cap = PyInt (absolute_max_age_seconds l)
     \<and> 0 < idle_seconds l \<and> idle_seconds l \<le> absolute_max_age_seconds l
     \<and> absolute_max_age_seconds l \<le> MAX_SESSION_LIFETIME_SECONDS"
  by (cases l) (auto simp: SessionLifetime_def)

lemma installed_after_install [simp]:
  "installed_web_auth_config (install_web_auth_config app cfg) = Inr cfg"
  by (simp add: installed_web_auth_config_def install_web_auth_config_def)

lemma WebAuthConfig_hosts:
  "WebAuthConfig n secret proxies limits hosts lifetime samesite secure clock = Inr cfg \<Longrightarrow>
     cf_allowed_hosts_exact cfg \<noteq> {} \<and> 32 \<le> length (cf_session_secret cfg)"
  by (cases hosts) (auto simp: WebAuthConfig_def MIN_SESSION_SECRET_CHARS_def split: if_splits)

end
