(* ===== verification/Sha256.thy ===== *)
theory Sha256
  imports Text "HOL-Library.Word"
begin

unbundle bit_operations_syntax

text \<open>
  \<open>hashlib.sha256\<close> and \<open>hmac\<close> of Python's standard library, as FIPS 180-4 and RFC 2104 define
  them, on bytes written as numbers below 256. The 32-bit words wrap as the standard says. The
  library's own theorems use of the digest only that it is a function with 32 bytes of output;
  that no two texts collide is never assumed.
\<close>

definition sha256_k :: "32 word list" where
  "sha256_k = [
     1116352408, 1899447441, 3049323471, 3921009573, 961987163, 1508970993, 2453635748, 2870763221,
     3624381080, 310598401, 607225278, 1426881987, 1925078388, 2162078206, 2614888103, 3248222580,
     3835390401, 4022224774, 264347078, 604807628, 770255983, 1249150122, 1555081692, 1996064986,
     2554220882, 2821834349, 2952996808, 3210313671, 3336571891, 3584528711, 113926993, 338241895,
     666307205, 773529912, 1294757372, 1396182291, 1695183700, 1986661051, 2177026350, 2456956037,
     2730485921, 2820302411, 3259730800, 3345764771, 3516065817, 3600352804, 4094571909, 275423344,
     430227734, 506948616, 659060556, 883997877, 958139571, 1322822218, 1537002063, 1747873779,
     1955562222, 2024104815, 2227730452, 2361852424, 2428436474, 2756734187, 3204031479, 3329325298]"

type_synonym sha_state =
  "32 word \<times> 32 word \<times> 32 word \<times> 32 word \<times> 32 word \<times> 32 word \<times> 32 word \<times> 32 word"

definition sha256_init :: sha_state where
  "sha256_init = (1779033703, 3144134277, 1013904242, 2773480762, 1359893119, 2600822924, 528734635, 1541459225)"

definition rotr :: "nat \<Rightarrow> 32 word \<Rightarrow> 32 word" where
  "rotr n w = (drop_bit n w) OR (push_bit (32 - n) w)"

definition schedule_word :: "32 word \<Rightarrow> 32 word \<Rightarrow> 32 word \<Rightarrow> 32 word \<Rightarrow> 32 word" where
  "schedule_word w2 w7 w15 w16 =
     (rotr 17 w2 XOR rotr 19 w2 XOR drop_bit 10 w2) + w7
       + (rotr 7 w15 XOR rotr 18 w15 XOR drop_bit 3 w15) + w16"

text \<open>The message schedule, newest word first: sixteen words of the block, then \<open>n\<close> more.\<close>

fun extend_schedule :: "nat \<Rightarrow> 32 word list \<Rightarrow> 32 word list" where
  "extend_schedule 0 ws = ws"
| "extend_schedule (Suc n) ws =
     extend_schedule n (schedule_word (ws ! 1) (ws ! 6) (ws ! 14) (ws ! 15) # ws)"

fun sha256_round :: "sha_state \<Rightarrow> 32 word \<times> 32 word \<Rightarrow> sha_state" where
  "sha256_round (a, b, c, d, e, f, g, h) (k, w) =
     (let t1 = h + (rotr 6 e XOR rotr 11 e XOR rotr 25 e) + ((e AND f) XOR (NOT e AND g)) + k + w;
          t2 = (rotr 2 a XOR rotr 13 a XOR rotr 22 a) + ((a AND b) XOR (a AND c) XOR (b AND c))
      in (t1 + t2, a, b, c, d + t1, e, f, g))"

fun add_state :: "sha_state \<Rightarrow> sha_state \<Rightarrow> sha_state" where
  "add_state (a, b, c, d, e, f, g, h) (a', b', c', d', e', f', g', h') =
     (a + a', b + b', c + c', d + d', e + e', f + f', g + g', h + h')"

definition sha256_block :: "sha_state \<Rightarrow> 32 word list \<Rightarrow> sha_state" where
  "sha256_block st block =
     add_state st (foldl sha256_round st (zip sha256_k (rev (extend_schedule 48 (rev block)))))"

fun chunks :: "nat \<Rightarrow> 'a list \<Rightarrow> 'a list list" where
  "chunks n xs = (if xs = [] \<or> n = 0 then [] else take n xs # chunks n (drop n xs))"

declare chunks.simps [simp del]

definition big_endian :: "nat \<Rightarrow> nat \<Rightarrow> nat list" where
  "big_endian n v = map (\<lambda>i. v div 256 ^ i mod 256) (rev [0 ..< n])"

definition word_of_bytes :: "nat list \<Rightarrow> 32 word" where
  "word_of_bytes bs = word_of_nat (foldl (\<lambda>acc b. acc * 256 + b) 0 bs)"

definition sha256_pad :: "nat list \<Rightarrow> nat list" where
  "sha256_pad m = m @ 128 # replicate ((119 - length m mod 64) mod 64) 0 @ big_endian 8 (8 * length m)"

definition sha256_digest :: "nat list \<Rightarrow> nat list" where
  "sha256_digest m =
     (case foldl (\<lambda>st c. sha256_block st (map word_of_bytes (chunks 4 c))) sha256_init
        (chunks 64 (sha256_pad m)) of
      (a, b, c, d, e, f, g, h) \<Rightarrow> concat (map (\<lambda>w. big_endian 4 (unat w)) [a, b, c, d, e, f, g, h]))"

definition hexdigest :: "nat list \<Rightarrow> pystr" where
  "hexdigest bs = concat (map (\<lambda>b. [hex_digit (b div 16), hex_digit (b mod 16)]) bs)"

definition hmac_key :: "nat list \<Rightarrow> nat list" where
  "hmac_key key = (let k = (if 64 < length key then sha256_digest key else key)
     in k @ replicate (64 - length k) 0)"

definition hmac_sha256 :: "nat list \<Rightarrow> nat list \<Rightarrow> nat list" where
  "hmac_sha256 key m =
     sha256_digest (map (\<lambda>b. b XOR 92) (hmac_key key) @
       sha256_digest (map (\<lambda>b. b XOR 54) (hmac_key key) @ m))"

section \<open>The shape of a digest\<close>

lemma length_big_endian [simp]: "length (big_endian n v) = n"
  by (simp add: big_endian_def)

lemma big_endian_bytes: "x \<in> set (big_endian n v) \<Longrightarrow> x < 256"
  by (auto simp: big_endian_def)

lemma length_sha256_digest [simp]: "length (sha256_digest m) = 32"
  by (simp add: sha256_digest_def split: prod.split)

lemma sha256_digest_bytes: "x \<in> set (sha256_digest m) \<Longrightarrow> x < 256"
  by (auto simp: sha256_digest_def dest: big_endian_bytes split: prod.splits)

lemma length_hmac [simp]: "length (hmac_sha256 key m) = 32"
  by (simp add: hmac_sha256_def)

lemma length_hexdigest [simp]: "length (hexdigest bs) = 2 * length bs"
  by (induction bs) (auto simp: hexdigest_def)

lemma hexdigest_chars:
  assumes "x \<in> set (hexdigest bs)" and "\<forall>b\<in>set bs. b < 256"
  shows "is_hex_lower x"
proof -
  obtain b where "b \<in> set bs" and x: "x = hex_digit (b div 16) \<or> x = hex_digit (b mod 16)"
    using assms(1) by (auto simp: hexdigest_def)
  then have "b div 16 < 16" using assms(2) by (auto simp: less_mult_imp_div_less)
  moreover have "is_hex_lower (hex_digit n)" if "n < 16" for n
    using that by (auto simp: is_hex_lower_def is_digit_def hex_digit_def)
  ultimately show ?thesis using x by auto
qed

lemma hmac_hex_chars: "x \<in> set (hexdigest (hmac_sha256 key m)) \<Longrightarrow> is_hex_lower x"
  by (rule hexdigest_chars) (auto simp: hmac_sha256_def dest: sha256_digest_bytes)

end
