(* ===== verification/Connection.thy ===== *)
theory Connection
  imports Config Sha256
begin

text \<open>
  The ASGI connection the library reads and annotates, and the readers that need nothing but it:
  \<open>middleware/_route_path.py\<close>, \<open>web_auth_config\<close>, and the functions of \<open>proxies.py\<close> that take a
  connection. The record \<open>scope\<close> is the \<open>scope\<close> dictionary: the request as the server wrote
  it (header names and values, raw path and query are bytes, here their Latin-1 decoding), the
  application serving it, and the three private keys the library writes, which hold \<open>None\<close> or
  \<open>False\<close> until a gate has decided. \<open>sc_scheme\<close> is what \<open>request.url.scheme\<close> reads.
\<close>

section \<open>What the gates record\<close>

datatype connection_refusal =
    NO_SESSION | INVALID_SESSION | SESSION_ENDED_OR_EXPIRED | MISSING_ORIGIN | FOREIGN_ORIGIN

text \<open>A cookie reading or an admission: the refusal, or the session id or account.\<close>

type_synonym cookie_reading = "connection_refusal + pystr"
type_synonym admission = "connection_refusal + authenticated_user"

record 's gate_admission =
  ga_config :: "'s web_auth_config"
  ga_cookie_reading :: cookie_reading
  ga_admission :: "admission option"

record bearer_admission =
  ba_app :: nat
  ba_path :: pystr
  ba_authorization_digest :: "nat list"
  ba_principal :: principal
  ba_resource_method :: "pystr option"

section \<open>The scope\<close>

datatype scope_type = Http | Websocket | Lifespan

record 's scope =
  sc_type :: scope_type
  sc_scheme :: pystr
  sc_method :: pystr
  sc_path :: pystr
  sc_root_path :: pystr
  sc_raw_path :: pystr
  sc_query_string :: pystr
  sc_headers :: "(pystr \<times> pystr) list"
  sc_client :: "pystr option"
  sc_app :: "'s app_object"
  sc_gate_admission :: "'s gate_admission option"
  sc_bearer_admission :: "bearer_admission option"
  sc_person_path :: bool

text \<open>\<open>headers.getlist\<close>: a server hands the names over in lower case.\<close>

definition getlist :: "'s scope \<Rightarrow> pystr \<Rightarrow> pystr list" where
  "getlist sc name = map snd (filter (\<lambda>(n, v). n = lower_py name) (sc_headers sc))"

definition get_header :: "'s scope \<Rightarrow> pystr \<Rightarrow> pystr option" where
  "get_header sc name = (case getlist sc name of [] \<Rightarrow> None | v # _ \<Rightarrow> Some v)"

definition route_path :: "'s scope \<Rightarrow> pystr" where
  "route_path sc =
     (let path = sc_path sc; root_path = sc_root_path sc in
      if root_path = [] \<or> \<not> startswith path root_path then path
      else if path = root_path then []
      else if path ! length root_path = 47 then drop (length root_path) path
      else path)"

definition web_auth_config :: "'s scope \<Rightarrow> exn + 's web_auth_config" where
  "web_auth_config sc = installed_web_auth_config (sc_app sc)"

section \<open>The client's identity\<close>

definition peer_host :: "'s scope \<Rightarrow> pystr" where
  "peer_host sc = (case sc_client sc of Some host \<Rightarrow> host | None \<Rightarrow> py ''unknown'')"

definition resolve_client_ip :: "'s scope \<Rightarrow> exn + pystr" where
  "resolve_client_ip sc =
     bindR (web_auth_config sc) (\<lambda>cfg.
       Inr (get_client_ip (peer_host sc) (getlist sc (py ''x-forwarded-for'')) (cf_trusted_proxies cfg)))"

definition request_is_https :: "'s scope \<Rightarrow> exn + bool" where
  "request_is_https sc =
     (if sc_scheme sc = py ''https'' then Inr True
      else bindR (web_auth_config sc) (\<lambda>cfg.
        if \<not> trusts_host (cf_trusted_proxies cfg) (peer_host sc) then Inr False
        else let newest = (case forwarded_entries (getlist sc (py ''x-forwarded-proto'')) of
                 [] \<Rightarrow> [] | e # _ \<Rightarrow> e)
             in Inr (lower_py newest = py ''https'')))"

section \<open>Facts\<close>

lemma route_path_mounted:
  "r \<noteq> [] \<Longrightarrow> sc_root_path sc = r \<Longrightarrow> sc_path sc = r @ 47 # rest \<Longrightarrow> route_path sc = 47 # rest"
  by (simp add: route_path_def Let_def)

lemma route_path_no_boundary:
  "sc_root_path sc = r \<Longrightarrow> sc_path sc = r @ c # rest \<Longrightarrow> c \<noteq> 47 \<Longrightarrow> r \<noteq> [] \<Longrightarrow>
     route_path sc = sc_path sc"
  by (simp add: route_path_def Let_def)

lemma route_path_unmounted [simp]: "sc_root_path sc = [] \<Longrightarrow> route_path sc = sc_path sc"
  by (simp add: route_path_def)

text \<open>The private keys are no input of these readers.\<close>

lemma readers_ignore_marks [simp]:
  "route_path (sc\<lparr>sc_gate_admission := g\<rparr>) = route_path sc"
  "route_path (sc\<lparr>sc_bearer_admission := b\<rparr>) = route_path sc"
  "route_path (sc\<lparr>sc_person_path := p\<rparr>) = route_path sc"
  "web_auth_config (sc\<lparr>sc_gate_admission := g\<rparr>) = web_auth_config sc"
  "web_auth_config (sc\<lparr>sc_bearer_admission := b\<rparr>) = web_auth_config sc"
  "web_auth_config (sc\<lparr>sc_person_path := p\<rparr>) = web_auth_config sc"
  "getlist (sc\<lparr>sc_gate_admission := g\<rparr>) n = getlist sc n"
  "getlist (sc\<lparr>sc_bearer_admission := b\<rparr>) n = getlist sc n"
  "getlist (sc\<lparr>sc_person_path := p\<rparr>) n = getlist sc n"
  by (simp_all add: route_path_def web_auth_config_def getlist_def)

section \<open>Properties\<close>

text \<open>The scheme of the client's own connection: a request that did not arrive over https counts
  as https exactly when its peer is trusted and the newest value of the forwarded protocol, the
  last entry of the last field, is \<open>https\<close> in any case; nothing a client writes before it counts.\<close>

theorem forwarded_https_is_the_newest:
  assumes "web_auth_config sc = Inr cfg" and "sc_scheme sc \<noteq> py ''https''"
    and "getlist sc (py ''x-forwarded-proto'') = before @ [v]"
  shows "request_is_https sc = Inr (trusts_host (cf_trusted_proxies cfg) (peer_host sc)
    \<and> lower_py (strip (last (split_on 44 v))) = py ''https'')"
proof -
  have "forwarded_entries (before @ [v]) = strip (last (split_on 44 v)) #
      tl (rev (map strip (split_on 44 v))) @ forwarded_entries before"
    by (cases "split_on 44 v" rule: rev_cases) (simp_all add: forwarded_entries_split)
  with assms show ?thesis by (simp add: request_is_https_def Let_def)
qed

definition sample_config :: "'s web_auth_config" where
  "sample_config = \<lparr>cf_instance = 1, cf_session_secret = replicate 32 97,
     cf_trusted_proxies = \<lparr>networks = []\<rparr>, cf_rate_limits = (\<lambda>_ _ _. ret True),
     cf_allowed_hosts_exact = {py ''app.example''},
     cf_session_lifetime = \<lparr>idle_seconds = 3600, absolute_max_age_seconds = 86400\<rparr>,
     cf_cookie_samesite = Strict, cf_cookie_secure = True, cf_wall_clock = ret 1000\<rparr>"

definition sample_scope :: "(pystr \<times> pystr) list \<Rightarrow> 's scope" where
  "sample_scope headers = \<lparr>sc_type = Http, sc_scheme = py ''http'', sc_method = py ''GET'',
     sc_path = py ''/'', sc_root_path = [], sc_raw_path = py ''/'', sc_query_string = [],
     sc_headers = headers, sc_client = None, sc_app = \<lparr>app_id = 1, app_webauth = Some sample_config\<rparr>,
     sc_gate_admission = None, sc_bearer_admission = None, sc_person_path = False\<rparr>"

lemma sample_config_installed: "web_auth_config (sample_scope headers) = Inr sample_config"
  by (simp add: web_auth_config_def installed_web_auth_config_def sample_scope_def)

lemma forwarded_https_is_the_newest_witness:
  "\<exists>sc :: unit scope. request_is_https sc = Inr (trusts_host (cf_trusted_proxies (sample_config :: unit web_auth_config)) (peer_host sc)
    \<and> lower_py (strip (last (split_on 44 (py ''https, http'')))) = py ''https'')"
  by (rule exI[of _ "sample_scope [(py ''x-forwarded-proto'', py ''https, http'')]"],
      rule forwarded_https_is_the_newest[OF sample_config_installed, where before = "[]"])
    (simp_all add: sample_scope_def getlist_def text_eval)

end
