(* ===== verification/Responses.thy ===== *)
theory Responses
  imports Text
begin

text \<open>
  A Starlette response as the library builds it: status, body, the headers it was given (in lower
  case, as Starlette sends them) and the cookies it sets, in order. The content length and type
  Starlette adds are not part of it. A deleted cookie is one set empty with \<open>Max-Age=0\<close>.
\<close>

record set_cookie =
  ck_name :: pystr
  ck_value :: pystr
  ck_max_age :: int
  ck_path :: pystr
  ck_secure :: bool
  ck_httponly :: bool
  ck_samesite :: pystr

datatype body =
    JsonDetail pystr
  | JsonBody pyobj
  | PlainText pystr
  | HtmlPage pystr
  | NoBody

record response =
  rs_status :: int
  rs_body :: body
  rs_headers :: "(pystr \<times> pystr) list"
  rs_cookies :: "set_cookie list"

definition json_detail :: "int \<Rightarrow> pystr \<Rightarrow> (pystr \<times> pystr) list \<Rightarrow> response" where
  "json_detail status detail headers =
     \<lparr>rs_status = status, rs_body = JsonDetail detail, rs_headers = headers, rs_cookies = []\<rparr>"

definition add_cookie :: "response \<Rightarrow> set_cookie \<Rightarrow> response" where
  "add_cookie r c = r\<lparr>rs_cookies := rs_cookies r @ [c]\<rparr>"

lemma add_cookie_simps [simp]:
  "rs_cookies (add_cookie r c) = rs_cookies r @ [c]"
  "rs_status (add_cookie r c) = rs_status r"
  "rs_body (add_cookie r c) = rs_body r"
  "rs_headers (add_cookie r c) = rs_headers r"
  by (simp_all add: add_cookie_def)

end
