(* ===== verification/Asgi.thy ===== *)
theory Asgi
  imports Connection Responses
begin

text \<open>
  An ASGI application as the library's middleware sees one: a process that receives messages,
  sends messages, and touches the host's state, until it returns or raises. A process may go on
  for ever (an application that reads or streams in a loop), so \<open>proc\<close> is a codatatype. \<open>await\<close>
  of a receive or a send continues with what came of it, an exception included; that is where
  a middleware that wraps \<open>receive\<close> or \<open>send\<close> interposes, and where a failed or timed-out send
  shows. Cancellation is not modelled.

  \<open>run n\<close> lets a process take \<open>n\<close> steps against a server: the messages it hands over (a disconnect
  when there are no more) and what becomes of each send (success when nothing else is said). It
  answers what the process ended with, \<open>None\<close> while it is still running, the state and everything
  sent so far, so a statement for every \<open>n\<close> covers processes that never end.
\<close>

datatype in_message = HttpRequest pystr bool | HttpDisconnect | OtherReceived

datatype message =
    ResponseStart int "(pystr \<times> pystr) list" "set_cookie list"
  | ResponseBody body
  | OtherSent

codatatype 's proc =
    Done
  | Fail exn
  | Receive "exn + in_message \<Rightarrow> 's proc"
  | Send message "exn + unit \<Rightarrow> 's proc"
  | Do "'s \<Rightarrow> 's" "'s \<Rightarrow> 's proc"

type_synonym 's asgi = "'s scope \<Rightarrow> 's proc"

definition act_then :: "('s, 'a) act \<Rightarrow> (exn + 'a \<Rightarrow> 's proc) \<Rightarrow> 's proc" where
  "act_then m k = Do (\<lambda>s. snd (m s)) (\<lambda>s. k (fst (m s)))"

definition then_or_fail :: "'s proc \<Rightarrow> exn + unit \<Rightarrow> 's proc" where
  "then_or_fail p r = (case r of Inl e \<Rightarrow> Fail e | Inr _ \<Rightarrow> p)"

text \<open>\<open>await response(scope, receive, send)\<close>.\<close>

definition start_of :: "response \<Rightarrow> message" where
  "start_of r = ResponseStart (rs_status r) (rs_headers r) (rs_cookies r)"

definition send_response :: "response \<Rightarrow> 's proc" where
  "send_response r = Send (start_of r) (then_or_fail (Send (ResponseBody (rs_body r)) (then_or_fail Done)))"

section \<open>Running a process\<close>

type_synonym 's outcome = "(exn + unit) option \<times> 's \<times> message list"

fun run :: "nat \<Rightarrow> 's proc \<Rightarrow> 's \<Rightarrow> (exn + in_message) list \<Rightarrow> (exn + unit) list \<Rightarrow> 's outcome" where
  "run 0 p s ins outs = (None, s, [])"
| "run (Suc n) p s ins outs = (case p of
      Done \<Rightarrow> (Some (Inr ()), s, [])
    | Fail e \<Rightarrow> (Some (Inl e), s, [])
    | Receive k \<Rightarrow> run n (k (case ins of [] \<Rightarrow> Inr HttpDisconnect | i # _ \<Rightarrow> i)) s (tl ins) outs
    | Send m k \<Rightarrow> (case run n (k (case outs of [] \<Rightarrow> Inr () | r # _ \<Rightarrow> r)) s ins (tl outs) of
        (r, s', ms) \<Rightarrow> (r, s', m # ms))
    | Do u k \<Rightarrow> run n (k s) (u s) ins outs)"

definition sent :: "'s outcome \<Rightarrow> message list" where
  "sent out = snd (snd out)"

definition ended :: "'s outcome \<Rightarrow> (exn + unit) option" where
  "ended out = fst out"

definition state_of :: "'s outcome \<Rightarrow> 's" where
  "state_of out = fst (snd out)"

lemma sent_run_simps [simp]:
  "sent (run 0 p s ins outs) = []"
  "sent (run (Suc n) Done s ins outs) = []"
  "sent (run (Suc n) (Fail e) s ins outs) = []"
  "sent (run (Suc n) (Receive k) s ins outs) =
     sent (run n (k (case ins of [] \<Rightarrow> Inr HttpDisconnect | i # _ \<Rightarrow> i)) s (tl ins) outs)"
  "sent (run (Suc n) (Send m after) s ins outs) =
     m # sent (run n (after (case outs of [] \<Rightarrow> Inr () | r # _ \<Rightarrow> r)) s ins (tl outs))"
  "sent (run (Suc n) (Do u cont) s ins outs) = sent (run n (cont s) (u s) ins outs)"
  by (simp_all add: sent_def split: prod.split)

lemma state_run_simps [simp]:
  "state_of (run 0 p s ins outs) = s"
  "state_of (run (Suc n) Done s ins outs) = s"
  "state_of (run (Suc n) (Fail e) s ins outs) = s"
  "state_of (run (Suc n) (Receive k) s ins outs) =
     state_of (run n (k (case ins of [] \<Rightarrow> Inr HttpDisconnect | i # _ \<Rightarrow> i)) s (tl ins) outs)"
  "state_of (run (Suc n) (Send m after) s ins outs) =
     state_of (run n (after (case outs of [] \<Rightarrow> Inr () | r # _ \<Rightarrow> r)) s ins (tl outs))"
  "state_of (run (Suc n) (Do u cont) s ins outs) = state_of (run n (cont s) (u s) ins outs)"
  by (simp_all add: state_of_def split: prod.split)

lemma ended_run_simps [simp]:
  "ended (run 0 p s ins outs) = None"
  "ended (run (Suc n) Done s ins outs) = Some (Inr ())"
  "ended (run (Suc n) (Fail e) s ins outs) = Some (Inl e)"
  "ended (run (Suc n) (Receive k) s ins outs) =
     ended (run n (k (case ins of [] \<Rightarrow> Inr HttpDisconnect | i # _ \<Rightarrow> i)) s (tl ins) outs)"
  "ended (run (Suc n) (Send m after) s ins outs) =
     ended (run n (after (case outs of [] \<Rightarrow> Inr () | r # _ \<Rightarrow> r)) s ins (tl outs))"
  "ended (run (Suc n) (Do u cont) s ins outs) = ended (run n (cont s) (u s) ins outs)"
  by (simp_all add: ended_def split: prod.split)

declare run.simps [simp del]

lemma then_or_fail_simps [simp]: "then_or_fail p (Inr u) = p" "then_or_fail p (Inl e) = Fail e"
  by (simp_all add: then_or_fail_def)

fun is_start :: "message \<Rightarrow> bool" where
  "is_start (ResponseStart _ _ _) = True"
| "is_start _ = False"

definition starts :: "message list \<Rightarrow> message list" where
  "starts ms = filter is_start ms"

lemma starts_simps [simp]:
  "starts [] = []"
  "starts (m # ms) = (if is_start m then m # starts ms else starts ms)"
  "starts (as @ bs) = starts as @ starts bs"
  by (simp_all add: starts_def)

lemma is_start_start_of [simp]: "is_start (start_of r)"
  by (simp add: start_of_def)

text \<open>A response sent to a server that accepts it arrives whole, and touches no host state.\<close>

lemma run_send_response:
  "run (Suc (Suc (Suc n))) (send_response r) s ins [] = (Some (Inr ()), s, [start_of r, ResponseBody (rs_body r)])"
  by (simp add: send_response_def run.simps)

lemma state_send_response: "state_of (run n (send_response r) s ins outs) = s"
proof -
  have fail: "state_of (run n (then_or_fail Done x) s ins outs) = s" for n x outs
    by (cases n; cases x) simp_all
  have "state_of (run n (then_or_fail (Send (ResponseBody (rs_body r)) (then_or_fail Done)) x) s ins outs) = s" for n x outs
    by (cases n; cases x) (simp_all add: fail)
  then show ?thesis by (cases n) (simp_all add: send_response_def)
qed

lemma sent_send_response:
  "sent (run n (send_response r) s ins outs) \<in> {[], [start_of r], [start_of r, ResponseBody (rs_body r)]}"
proof -
  have fail: "sent (run n (then_or_fail Done x) s ins outs) = []" for n x outs
    by (cases n; cases x) simp_all
  have "sent (run n (then_or_fail (Send (ResponseBody (rs_body r)) (then_or_fail Done)) x) s ins outs)
      \<in> {[], [ResponseBody (rs_body r)]}" for n x outs
    by (cases n; cases x) (simp_all add: fail)
  then show ?thesis by (cases n) (auto simp: send_response_def)
qed

section \<open>Refusing before the application runs\<close>

text \<open>
  \<open>middleware/_refusal.py\<close>: \<open>RefusalMiddleware\<close>. A gate's \<open>_refusal\<close> reads the request and may
  write its decision into the scope, so it answers the refusal or \<open>None\<close> and the scope it leaves.
\<close>

type_synonym 's gate = "'s scope \<Rightarrow> ('s, response option \<times> 's scope) act"

definition refusal_middleware :: "'s gate \<Rightarrow> 's asgi \<Rightarrow> 's asgi" where
  "refusal_middleware gate app sc =
     (if sc_type sc = Http
      then act_then (gate sc) (\<lambda>decided. case decided of
          Inl e \<Rightarrow> Fail e
        | Inr (Some refusal, _) \<Rightarrow> send_response refusal
        | Inr (None, sc') \<Rightarrow> app sc')
      else app sc)"

lemma refusal_middleware_run:
  assumes "sc_type sc = Http"
  shows "run (Suc n) (refusal_middleware gate app sc) s ins outs =
    (case gate sc s of
       (Inl e, s') \<Rightarrow> run n (Fail e) s' ins outs
     | (Inr (Some refusal, _), s') \<Rightarrow> run n (send_response refusal) s' ins outs
     | (Inr (None, sc'), s') \<Rightarrow> run n (app sc') s' ins outs)"
  using assms
  by (simp add: refusal_middleware_def act_then_def run.simps split: prod.split sum.split option.split)

lemma refusal_middleware_other: "sc_type sc \<noteq> Http \<Longrightarrow> refusal_middleware gate app sc = app sc"
  by (simp add: refusal_middleware_def)

end
