(* ===== verification/Policies.thy ===== *)
theory Policies
  imports Validation
begin

text \<open>
  \<open>webauth/policies.py\<close>: what the host decides about its requests, as data. A compiled
  regular expression of the host is the predicate its \<open>match\<close> decides; a \<open>frozenset\<close> is a
  set. The classes whose construction can fail have a constructor function of the class's
  name that answers the record or the exception.

  The rule lists of the policies share one contract, the locale \<open>first_match\<close>: the first
  rule that applies decides, and a request no rule claims gets the default.
\<close>

section \<open>Paths\<close>

record path_shape =
  starts_with :: pystr
  ends_with :: pystr

definition shape_matches :: "path_shape \<Rightarrow> pystr \<Rightarrow> bool" where
  "shape_matches sh path \<longleftrightarrow> startswith path (starts_with sh) \<and> endswith path (ends_with sh)"

record path_rules =
  pr_exact :: "pystr set"
  pr_prefixes :: "pystr list"
  pr_shapes :: "path_shape list"
  pr_patterns :: "(pystr \<Rightarrow> bool) list"

definition no_paths :: path_rules where
  "no_paths = \<lparr>pr_exact = {}, pr_prefixes = [], pr_shapes = [], pr_patterns = []\<rparr>"

definition exact_paths :: "pystr set \<Rightarrow> path_rules" where
  "exact_paths ps = no_paths\<lparr>pr_exact := ps\<rparr>"

text \<open>A \<open>frozenset\<close> of texts given as an object: a tuple or a list does as well. Collections of other
  things and objects that are no collection are outside the model.\<close>

fun member_texts :: "pyobj \<Rightarrow> pystr set" where
  "member_texts (PyFrozenset items) = {s. PyStr s \<in> set items}"
| "member_texts (PyTuple items) = {s. PyStr s \<in> set items}"
| "member_texts (PyList items) = {s. PyStr s \<in> set items}"
| "member_texts _ = {}"

definition PathRules :: "pyobj \<Rightarrow> pystr list \<Rightarrow> path_shape list \<Rightarrow> (pystr \<Rightarrow> bool) list \<Rightarrow> exn + path_rules" where
  "PathRules exact begin_with shapes patterns = bindR (require_collection_not_one_string exact) (\<lambda>_.
     Inr \<lparr>pr_exact = member_texts exact, pr_prefixes = begin_with, pr_shapes = shapes, pr_patterns = patterns\<rparr>)"

definition rules_match :: "path_rules \<Rightarrow> pystr \<Rightarrow> bool" where
  "rules_match r path \<longleftrightarrow>
     path \<in> pr_exact r
     \<or> startswith_any path (pr_prefixes r)
     \<or> (\<exists>sh\<in>set (pr_shapes r). shape_matches sh path)
     \<or> (\<exists>pat\<in>set (pr_patterns r). pat path)"

record authorized_parties =
  client_ids :: "pystr set"

fun non_empty_str :: "pyobj \<Rightarrow> bool" where
  "non_empty_str (PyStr s) = (s \<noteq> [])"
| "non_empty_str _ = False"

fun str_of :: "pyobj \<Rightarrow> pystr" where
  "str_of (PyStr s) = s"
| "str_of _ = []"

fun AuthorizedParties :: "pyobj \<Rightarrow> exn + authorized_parties" where
  "AuthorizedParties (PyFrozenset ids) =
     (if ids = [] \<or> \<not> list_all non_empty_str ids then Inl ValueError
      else Inr \<lparr>client_ids = set (map str_of ids)\<rparr>)"
| "AuthorizedParties _ = Inl ValueError"

fun admits_party :: "authorized_parties \<Rightarrow> pyobj option \<Rightarrow> bool" where
  "admits_party ap (Some (PyStr s)) = (s \<in> client_ids ap)"
| "admits_party ap _ = False"

section \<open>Rate-limit budgets\<close>

definition is_budget_name :: "pystr \<Rightarrow> bool" where
  "is_budget_name s = (case s of
      [] \<Rightarrow> False
    | c # cs \<Rightarrow> is_lower_ascii c
        \<and> list_all (\<lambda>x. is_lower_ascii x \<or> is_digit x \<or> x = 95 \<or> x = 45) cs)"

record rate_limit_budget =
  rb_name :: pystr
  rb_max_requests :: int
  rb_window_seconds :: int

definition RateLimitBudget :: "pystr \<Rightarrow> pyobj \<Rightarrow> pyobj \<Rightarrow> exn + rate_limit_budget" where
  "RateLimitBudget name max_requests window_seconds =
     bindR (check (is_budget_name name) ValueError) (\<lambda>_.
     bindR (require_positive_whole_number max_requests) (\<lambda>m.
     bindR (require_positive_whole_number window_seconds) (\<lambda>w.
       Inr \<lparr>rb_name = name, rb_max_requests = m, rb_window_seconds = w\<rparr>)))"

record rate_limit_rule =
  rr_paths :: path_rules
  rr_budget :: rate_limit_budget

record rate_limit_policy =
  rl_default :: rate_limit_budget
  rl_rules :: "rate_limit_rule list"
  rl_exempt :: path_rules

definition policy_budgets :: "rate_limit_policy \<Rightarrow> rate_limit_budget list" where
  "policy_budgets p = rl_default p # map rr_budget (rl_rules p)"

definition RateLimitPolicy ::
    "rate_limit_budget \<Rightarrow> rate_limit_rule list \<Rightarrow> path_rules \<Rightarrow> exn + rate_limit_policy" where
  "RateLimitPolicy dflt rules exempt =
     (let names = rb_name dflt # map (rb_name \<circ> rr_budget) rules;
          repeated = filter (\<lambda>n. 1 < count_list names n) names
      in if repeated \<noteq> [] then Inl ValueError
         else Inr \<lparr>rl_default = dflt, rl_rules = rules, rl_exempt = exempt\<rparr>)"

definition is_exempt :: "rate_limit_policy \<Rightarrow> pystr \<Rightarrow> bool" where
  "is_exempt p path = rules_match (rl_exempt p) path"

fun first_budget :: "rate_limit_rule list \<Rightarrow> rate_limit_budget \<Rightarrow> pystr \<Rightarrow> rate_limit_budget" where
  "first_budget [] dflt path = dflt"
| "first_budget (r # rs) dflt path =
     (if rules_match (rr_paths r) path then rr_budget r else first_budget rs dflt path)"

definition budget_for :: "rate_limit_policy \<Rightarrow> pystr \<Rightarrow> rate_limit_budget" where
  "budget_for p path = first_budget (rl_rules p) (rl_default p) path"

section \<open>CSRF, body size, public paths, cacheability\<close>

record csrf_policy =
  cp_exempt :: path_rules

definition requires_same_origin :: "csrf_policy \<Rightarrow> pystr \<Rightarrow> bool" where
  "requires_same_origin p path \<longleftrightarrow> \<not> rules_match (cp_exempt p) path"

definition methods_allow :: "pystr set option \<Rightarrow> pystr \<Rightarrow> bool" where
  "methods_allow ms method = (case ms of None \<Rightarrow> True | Some m \<Rightarrow> upper_py method \<in> m)"

record body_size_rule =
  bs_paths :: path_rules
  bs_max_bytes :: int
  bs_methods :: "pystr set option"

text \<open>The methods a rule is given: \<open>None\<close>, or a collection of them, never one string.\<close>

definition methods_of :: "pyobj \<Rightarrow> exn + pystr set option" where
  "methods_of methods = bindR (require_collection_not_one_string methods) (\<lambda>_.
     Inr (if methods = PyNone then None else Some (member_texts methods)))"

definition BodySizeRule :: "path_rules \<Rightarrow> int \<Rightarrow> pyobj \<Rightarrow> exn + body_size_rule" where
  "BodySizeRule paths largest methods = bindR (methods_of methods) (\<lambda>ms.
     Inr \<lparr>bs_paths = paths, bs_max_bytes = largest, bs_methods = ms\<rparr>)"

definition body_rule_applies :: "body_size_rule \<Rightarrow> pystr \<times> pystr \<Rightarrow> bool" where
  "body_rule_applies r q = (case q of (path, method) \<Rightarrow>
     (if \<not> methods_allow (bs_methods r) method then False else rules_match (bs_paths r) path))"

record public_rule =
  pu_paths :: path_rules
  pu_methods :: "pystr set option"

definition PublicRule :: "path_rules \<Rightarrow> pyobj \<Rightarrow> exn + public_rule" where
  "PublicRule paths methods = bindR (methods_of methods) (\<lambda>ms. Inr \<lparr>pu_paths = paths, pu_methods = ms\<rparr>)"

definition public_rule_applies :: "public_rule \<Rightarrow> pystr \<Rightarrow> pystr \<Rightarrow> bool" where
  "public_rule_applies r path method =
     (if \<not> methods_allow (pu_methods r) method then False else rules_match (pu_paths r) path)"

record body_size_policy =
  bp_default_max_bytes :: int
  bp_rules :: "body_size_rule list"
  bp_start_send_seconds :: rat

text \<open>A \<open>float\<close> of seconds; \<open>None\<close> is one that is no number between minus infinity and infinity
  (\<open>inf\<close>, \<open>-inf\<close>, \<open>nan\<close>), which \<open>0 < seconds < math.inf\<close> refuses.\<close>

definition BodySizePolicy :: "int \<Rightarrow> body_size_rule list \<Rightarrow> rat option \<Rightarrow> exn + body_size_policy" where
  "BodySizePolicy dflt rules start_send_seconds = (case start_send_seconds of
      None \<Rightarrow> Inl ValueError
    | Some seconds \<Rightarrow> bindR (check (0 < seconds) ValueError) (\<lambda>_.
        Inr \<lparr>bp_default_max_bytes = dflt, bp_rules = rules, bp_start_send_seconds = seconds\<rparr>))"

fun first_max_bytes :: "body_size_rule list \<Rightarrow> int \<Rightarrow> pystr \<times> pystr \<Rightarrow> int" where
  "first_max_bytes [] dflt q = dflt"
| "first_max_bytes (r # rs) dflt q =
     (if body_rule_applies r q then bs_max_bytes r else first_max_bytes rs dflt q)"

definition max_bytes :: "body_size_policy \<Rightarrow> pystr \<Rightarrow> pystr \<Rightarrow> int" where
  "max_bytes p path method = first_max_bytes (bp_rules p) (bp_default_max_bytes p) (path, method)"

definition is_visible :: "nat \<Rightarrow> bool" where
  "is_visible c \<longleftrightarrow> 33 \<le> c \<and> c \<le> 126"

definition is_header_field_value :: "pystr \<Rightarrow> bool" where
  "is_header_field_value s \<longleftrightarrow> s \<noteq> [] \<and> is_visible (hd s) \<and> is_visible (last s)
     \<and> list_all (\<lambda>c. c = 9 \<or> (32 \<le> c \<and> c \<le> 126)) s"

definition require_header_field_value :: "pystr \<Rightarrow> exn + unit" where
  "require_header_field_value v = check (is_header_field_value v) ValueError"

record cache_control_rule =
  cc_paths :: path_rules
  cc_value :: pystr

definition CacheControlRule :: "path_rules \<Rightarrow> pystr \<Rightarrow> exn + cache_control_rule" where
  "CacheControlRule paths value =
     bindR (require_header_field_value value) (\<lambda>_. Inr \<lparr>cc_paths = paths, cc_value = value\<rparr>)"

record security_headers_policy =
  sh_content_security_policy :: pystr
  sh_cache_control_rules :: "cache_control_rule list"
  sh_permissions_policy :: pystr

definition SecurityHeadersPolicy ::
    "pystr \<Rightarrow> cache_control_rule list \<Rightarrow> pystr \<Rightarrow> exn + security_headers_policy" where
  "SecurityHeadersPolicy csp rules permissions =
     bindR (require_header_field_value csp) (\<lambda>_.
     bindR (require_header_field_value permissions) (\<lambda>_.
       Inr \<lparr>sh_content_security_policy = csp, sh_cache_control_rules = rules,
            sh_permissions_policy = permissions\<rparr>))"

fun first_cache_control :: "cache_control_rule list \<Rightarrow> pystr option \<Rightarrow> pystr \<Rightarrow> pystr option" where
  "first_cache_control [] dflt path = dflt"
| "first_cache_control (r # rs) dflt path =
     (if rules_match (cc_paths r) path then Some (cc_value r)
      else first_cache_control rs dflt path)"

definition cache_control :: "security_headers_policy \<Rightarrow> pystr \<Rightarrow> pystr option" where
  "cache_control p path = first_cache_control (sh_cache_control_rules p) None path"

section \<open>The contract of a rule list\<close>

locale first_match =
  fixes applies :: "'r \<Rightarrow> 'q \<Rightarrow> bool"
    and value_of :: "'r \<Rightarrow> 'v"
    and pick :: "'r list \<Rightarrow> 'v \<Rightarrow> 'q \<Rightarrow> 'v"
  assumes pick_Nil: "pick [] d q = d"
    and pick_Cons: "pick (r # rs) d q = (if applies r q then value_of r else pick rs d q)"
begin

lemma pick_skip: "\<forall>r\<in>set rs. \<not> applies r q \<Longrightarrow> pick (rs @ rs') d q = pick rs' d q"
  by (induction rs) (auto simp: pick_Cons)

lemma pick_first:
  "\<forall>r\<in>set rs. \<not> applies r q \<Longrightarrow> applies r q \<Longrightarrow> pick (rs @ r # rs') d q = value_of r"
  by (simp add: pick_skip pick_Cons)

lemma pick_default: "\<forall>r\<in>set rs. \<not> applies r q \<Longrightarrow> pick rs d q = d"
  using pick_skip[of rs q "[]" d] by (simp add: pick_Nil)

lemma pick_cases:
  "(\<forall>r\<in>set rs. \<not> applies r q) \<and> pick rs d q = d
   \<or> (\<exists>as r bs. rs = as @ r # bs \<and> (\<forall>a\<in>set as. \<not> applies a q) \<and> applies r q
        \<and> pick rs d q = value_of r)"
proof (cases "\<exists>r\<in>set rs. applies r q")
  case True
  then obtain as r bs where "rs = as @ r # bs" "applies r q" "\<forall>a\<in>set as. \<not> applies a q"
    by (rule split_list_first_propE)
  then show ?thesis by (metis pick_first)
qed (simp add: pick_default)

lemma pick_range: "pick rs d q \<in> insert d (value_of ` set rs)"
  using pick_cases[of rs q d] by auto

end

interpretation budgets: first_match "\<lambda>r. rules_match (rr_paths r)" rr_budget first_budget
  by unfold_locales auto

interpretation body_sizes: first_match body_rule_applies bs_max_bytes first_max_bytes
  by unfold_locales auto

interpretation cache_rules: first_match "\<lambda>r. rules_match (cc_paths r)" "\<lambda>r. Some (cc_value r)"
    first_cache_control
  by unfold_locales auto

section \<open>Facts on paths and budgets\<close>

lemma rules_match_no_paths [simp]: "\<not> rules_match no_paths path"
  by (simp add: rules_match_def no_paths_def startswith_any_def)

lemma rules_match_exact [simp]: "rules_match (exact_paths ps) path \<longleftrightarrow> path \<in> ps"
  by (simp add: rules_match_def no_paths_def exact_paths_def startswith_any_def)

text \<open>A rule is only ever built over its members: one string never stands in for a collection.\<close>

lemma PathRules_exact:
  "PathRules exact [] [] [] = Inr r \<Longrightarrow> (\<nexists>s. exact = PyStr s) \<and> (rules_match r path \<longleftrightarrow> path \<in> member_texts exact)"
  by (cases exact) (auto simp: PathRules_def rules_match_def startswith_any_def)

lemma PublicRule_methods:
  "PublicRule paths methods = Inr r \<Longrightarrow> public_rule_applies r path m
    \<longleftrightarrow> rules_match paths path \<and> (methods = PyNone \<or> upper_py m \<in> member_texts methods)"
  by (cases methods) (auto simp: PublicRule_def methods_of_def public_rule_applies_def methods_allow_def)

lemma admits_party_iff: "admits_party ap v \<longleftrightarrow> (\<exists>s. v = Some (PyStr s) \<and> s \<in> client_ids ap)"
  by (cases "(ap, v)" rule: admits_party.cases) auto

lemma non_empty_str_iff: "non_empty_str v \<longleftrightarrow> (\<exists>s. v = PyStr s \<and> s \<noteq> [])"
  by (cases v) auto

lemma is_budget_name_no_colon: "is_budget_name s \<Longrightarrow> 58 \<notin> set s"
  by (cases s) (auto simp: is_budget_name_def list_all_iff char_class_defs)

lemma distinct_count_list: "distinct ns \<longleftrightarrow> (\<forall>n. count_list ns n \<le> 1)"
proof (induction ns)
  case (Cons a ns)
  have "(\<forall>n. count_list (a # ns) n \<le> 1) \<longleftrightarrow> count_list ns a = 0 \<and> (\<forall>n. count_list ns n \<le> 1)"
    by (metis Suc_eq_plus1 count_list.simps(2) le_zero_eq not_less_eq_eq One_nat_def zero_le)
  with Cons.IH show ?case by (simp add: count_list_0_iff)
qed simp

lemma repeated_iff_distinct: "filter (\<lambda>n. 1 < count_list ns n) ns = [] \<longleftrightarrow> distinct ns"
  unfolding distinct_count_list filter_empty_conv
  by (metis count_notin linorder_not_less zero_le)

lemma RateLimitPolicy_Inr:
  "RateLimitPolicy d rs ex = Inr p \<longleftrightarrow>
     p = \<lparr>rl_default = d, rl_rules = rs, rl_exempt = ex\<rparr> \<and> distinct (map rb_name (policy_budgets p))"
  unfolding RateLimitPolicy_def Let_def repeated_iff_distinct
  by (auto simp: policy_budgets_def comp_def)

lemma RateLimitBudget_Inr:
  "RateLimitBudget n m w = Inr b \<longleftrightarrow> is_budget_name n \<and> m = PyInt (rb_max_requests b)
     \<and> w = PyInt (rb_window_seconds b) \<and> 0 < rb_max_requests b \<and> 0 < rb_window_seconds b
     \<and> rb_name b = n"
  by (cases b) (auto simp: RateLimitBudget_def)

text \<open>A path no rule claims spends from the default: every request has exactly one budget.\<close>

lemma budget_for_in: "budget_for p path \<in> set (policy_budgets p)"
  using budgets.pick_range[of "rl_rules p" "rl_default p" path]
  by (auto simp: budget_for_def policy_budgets_def)

end
