(* ===== verification/RateLimit.thy ===== *)
theory RateLimit
  imports Prelude
begin

text \<open>
  \<open>webauth/rate_limit.py\<close>: the sliding-window counter. \<open>SingleProcessRateLimitBackend\<close> keeps
  its state in the record \<open>single_process\<close>; its clock \<open>time.monotonic()\<close> is the argument
  \<open>now\<close> of a check, a rational number (the rounding of Python's floats is not modelled). The
  lock makes a check atomic, so a concurrent history is a sequence of checks.

  The contract of the \<open>RateLimitBackend\<close> port is the locale \<open>sliding_window\<close>: a check admits
  exactly when fewer than \<open>limit\<close> admitted events of its key are younger than its window, and
  no key spends another's budget. Everything the gate relies on is proved from it once: a
  backend answers as the reference counter, and no window of any length-\<open>window\<close> interval holds
  more than \<open>limit\<close> admitted events.
\<close>

section \<open>The in-process backend\<close>

record windowed_events =
  we_window_seconds :: int
  we_timestamps :: "rat list"

record single_process =
  sp_events :: "pystr \<rightharpoonup> windowed_events"
  sp_next_prune_at :: rat

definition new_single_process :: single_process where
  "new_single_process = \<lparr>sp_events = Map.empty, sp_next_prune_at = 0\<rparr>"

definition PRUNE_INTERVAL_SECONDS :: rat where
  "PRUNE_INTERVAL_SECONDS = 60"

definition is_expired :: "rat \<Rightarrow> windowed_events \<Rightarrow> bool" where
  "is_expired now e \<longleftrightarrow>
     we_timestamps e = [] \<or> last (we_timestamps e) + of_int (we_window_seconds e) \<le> now"

definition sweep_expired_when_due :: "rat \<Rightarrow> single_process \<Rightarrow> single_process" where
  "sweep_expired_when_due now st =
     (if now < sp_next_prune_at st then st
      else st\<lparr>sp_next_prune_at := now + PRUNE_INTERVAL_SECONDS,
              sp_events := (\<lambda>k. case sp_events st k of
                 None \<Rightarrow> None
               | Some e \<Rightarrow> if is_expired now e then None else Some e)\<rparr>)"

definition sp_is_allowed ::
    "single_process \<Rightarrow> rat \<Rightarrow> pystr \<Rightarrow> int \<Rightarrow> int \<Rightarrow> (exn + bool) \<times> single_process" where
  "sp_is_allowed st0 now key limit window_seconds =
     (let st = sweep_expired_when_due now st0;
          checked = (case sp_events st key of
             None \<Rightarrow> Inr \<lparr>we_window_seconds = window_seconds, we_timestamps = []\<rparr>
           | Some e \<Rightarrow> if we_window_seconds e \<noteq> window_seconds then Inl ValueError else Inr e)
      in case checked of
           Inl err \<Rightarrow> (Inl err, st)
         | Inr entry \<Rightarrow>
             let cutoff = now - of_int window_seconds;
                 kept = filter (\<lambda>stamp. cutoff < stamp) (we_timestamps entry)
             in if limit \<le> int (length kept)
                then (Inr False, st\<lparr>sp_events := (sp_events st)(key \<mapsto> entry\<lparr>we_timestamps := kept\<rparr>)\<rparr>)
                else (Inr True, st\<lparr>sp_events :=
                        (sp_events st)(key \<mapsto> entry\<lparr>we_timestamps := kept @ [now]\<rparr>)\<rparr>))"

section \<open>The reference counter and the contract\<close>

text \<open>A history is the list of admitted events, each its instant and its key.\<close>

type_synonym history = "(rat \<times> pystr) list"

definition events_of :: "history \<Rightarrow> pystr \<Rightarrow> rat \<Rightarrow> rat list" where
  "events_of h key cutoff = map fst (filter (\<lambda>(s, k). k = key \<and> cutoff < s) h)"

definition reference_admits ::
    "(pystr \<Rightarrow> int) \<Rightarrow> (pystr \<Rightarrow> int) \<Rightarrow> history \<Rightarrow> rat \<Rightarrow> pystr \<Rightarrow> bool" where
  "reference_admits L W h t key \<longleftrightarrow> int (length (events_of h key (t - of_int (W key)))) < L key"

fun reference_run ::
    "(pystr \<Rightarrow> int) \<Rightarrow> (pystr \<Rightarrow> int) \<Rightarrow> history \<Rightarrow> (rat \<times> pystr) list \<Rightarrow> bool list \<times> history" where
  "reference_run L W h [] = ([], h)"
| "reference_run L W h ((t, key) # calls) =
     (let ok = reference_admits L W h t key
      in case reference_run L W (if ok then h @ [(t, key)] else h) calls of
           (oks, h') \<Rightarrow> (ok # oks, h'))"

text \<open>A run of a backend: one check per call, each key with its own limit and window.\<close>

fun run_checks ::
    "('s \<Rightarrow> rat \<Rightarrow> pystr \<Rightarrow> int \<Rightarrow> int \<Rightarrow> (exn + bool) \<times> 's) \<Rightarrow> (pystr \<Rightarrow> int) \<Rightarrow> (pystr \<Rightarrow> int)
     \<Rightarrow> 's \<Rightarrow> (rat \<times> pystr) list \<Rightarrow> (exn + bool) list \<times> 's" where
  "run_checks is_allowed L W st [] = ([], st)"
| "run_checks is_allowed L W st ((t, key) # calls) =
     (case is_allowed st t key (L key) (W key) of (r, st1) \<Rightarrow>
       (case run_checks is_allowed L W st1 calls of (rs, st2) \<Rightarrow> (r # rs, st2)))"

text \<open>The events a run admitted: the calls it answered \<open>True\<close>.\<close>

definition granted :: "(rat \<times> pystr) list \<Rightarrow> (exn + bool) list \<Rightarrow> history" where
  "granted calls answers = map fst (filter (\<lambda>(c, r). r = Inr True) (zip calls answers))"

definition spent_between :: "history \<Rightarrow> pystr \<Rightarrow> rat \<Rightarrow> rat \<Rightarrow> nat" where
  "spent_between h key a b = length (filter (\<lambda>(s, k). k = key \<and> a < s \<and> s \<le> b) h)"

locale sliding_window =
  fixes is_allowed :: "'s \<Rightarrow> rat \<Rightarrow> pystr \<Rightarrow> int \<Rightarrow> int \<Rightarrow> (exn + bool) \<times> 's"
    and live :: "'s \<Rightarrow> pystr \<Rightarrow> int \<Rightarrow> rat \<Rightarrow> rat list"
    and wf :: "(pystr \<Rightarrow> int) \<Rightarrow> rat \<Rightarrow> 's \<Rightarrow> bool"
  assumes answer: "wf W start st \<Longrightarrow> start \<le> t \<Longrightarrow>
      fst (is_allowed st t key l (W key)) = Inr (int (length (live st key (W key) t)) < l)"
    and wf_step: "wf W start st \<Longrightarrow> start \<le> t \<Longrightarrow> wf W t (snd (is_allowed st t key l (W key)))"
    and live_own: "wf W start st \<Longrightarrow> start \<le> t \<Longrightarrow> 0 < W key \<Longrightarrow>
      live (snd (is_allowed st t key l (W key))) key (W key) t =
        live st key (W key) t @ (if int (length (live st key (W key) t)) < l then [t] else [])"
    and live_other: "wf W start st \<Longrightarrow> start \<le> t \<Longrightarrow> key' \<noteq> key \<Longrightarrow>
      live (snd (is_allowed st t key l (W key))) key' (W key') t = live st key' (W key') t"
    and live_ages: "t \<le> t' \<Longrightarrow>
      live st key w t' = filter (\<lambda>s. t' - of_int w < s) (live st key w t)"
begin

definition agrees :: "(pystr \<Rightarrow> int) \<Rightarrow> 's \<Rightarrow> history \<Rightarrow> rat \<Rightarrow> bool" where
  "agrees W st h t \<longleftrightarrow> (\<forall>key. live st key (W key) t = events_of h key (t - of_int (W key)))"

lemma agrees_ages:
  assumes "agrees W st h t" and "t \<le> t'"
  shows "agrees W st h t'"
proof -
  have "filter (\<lambda>s. t' - of_int w < s) (events_of h key (t - of_int w)) = events_of h key (t' - of_int w)"
    for key w
    unfolding events_of_def filter_map filter_filter
    using assms(2) by (intro arg_cong[where f = "map fst"] filter_cong) auto
  with assms show ?thesis unfolding agrees_def by (metis live_ages)
qed

lemma agrees_step:
  assumes wf: "wf W start st" "start \<le> t" and pos: "0 < W key" and agr: "agrees W st h t"
  shows "fst (is_allowed st t key (L key) (W key)) = Inr (reference_admits L W h t key)"
    and "agrees W (snd (is_allowed st t key (L key) (W key)))
      (if reference_admits L W h t key then h @ [(t, key)] else h) t"
proof -
  let ?ok = "reference_admits L W h t key"
  let ?st = "snd (is_allowed st t key (L key) (W key))"
  have live: "live st key (W key) t = events_of h key (t - of_int (W key))" for key
    using agr by (simp add: agrees_def)
  show "fst (is_allowed st t key (L key) (W key)) = Inr ?ok"
    using answer[OF wf] by (simp add: live reference_admits_def)
  have own: "live ?st key (W key) t = live st key (W key) t @ (if ?ok then [t] else [])"
    using live_own[OF wf pos] by (simp add: live reference_admits_def)
  have "live ?st k (W k) t = events_of (if ?ok then h @ [(t, key)] else h) k (t - of_int (W k))" for k
  proof (cases "k = key")
    case True
    with own pos show ?thesis by (auto simp: live events_of_def)
  next
    case False
    then have "live ?st k (W k) t = live st k (W k) t" by (rule live_other[OF wf])
    with False show ?thesis by (auto simp: live events_of_def)
  qed
  then show "agrees W ?st (if ?ok then h @ [(t, key)] else h) t"
    by (simp add: agrees_def)
qed

lemma run_is_reference:
  assumes "wf W start st" "agrees W st h start" "\<forall>c\<in>set calls. start \<le> fst c"
    "sorted (map fst calls)" "\<forall>c\<in>set calls. 0 < W (snd c)"
  shows "fst (run_checks is_allowed L W st calls) = map Inr (fst (reference_run L W h calls))"
  using assms
proof (induction calls arbitrary: st h start)
  case (Cons c calls)
  obtain t key where c: "c = (t, key)" by (cases c)
  let ?ok = "reference_admits L W h t key"
  let ?h = "if ?ok then h @ [(t, key)] else h"
  obtain r st1 where step: "is_allowed st t key (L key) (W key) = (r, st1)"
    by (cases "is_allowed st t key (L key) (W key)")
  have t: "start \<le> t" and pos: "0 < W key" using Cons.prems c by auto
  have agr: "agrees W st h t" using Cons.prems(2) t by (rule agrees_ages)
  note s = agrees_step[OF Cons.prems(1) t pos agr, where L = L, unfolded step, simplified]
  have "wf W t st1" using wf_step[OF Cons.prems(1) t, of key "L key"] step by simp
  moreover have "\<forall>c\<in>set calls. t \<le> fst c" "sorted (map fst calls)" "\<forall>c\<in>set calls. 0 < W (snd c)"
    using Cons.prems c by auto
  ultimately have "fst (run_checks is_allowed L W st1 calls) = map Inr (fst (reference_run L W ?h calls))"
    using s(2) by (intro Cons.IH[where start = t]) auto
  then show ?case
    using s(1) by (auto simp: c step Let_def split: prod.split)
qed simp

end

section \<open>The reference counter never overspends\<close>

lemma spent_between_append:
  "spent_between (h @ h') key a b = spent_between h key a b + spent_between h' key a b"
  by (simp add: spent_between_def)

lemma spent_between_le_events: "spent_between h key a b \<le> length (events_of h key a)"
  unfolding spent_between_def events_of_def length_map
  by (rule filter_eq_imp_length_le) auto

lemma events_of_antimono: "a \<le> b \<Longrightarrow> length (events_of h key b) \<le> length (events_of h key a)"
  unfolding events_of_def length_map by (rule filter_eq_imp_length_le) auto

definition within_limit :: "(pystr \<Rightarrow> int) \<Rightarrow> (pystr \<Rightarrow> int) \<Rightarrow> history \<Rightarrow> bool" where
  "within_limit L W h \<longleftrightarrow> (\<forall>key x. int (spent_between h key (x - of_int (W key)) x) \<le> max 0 (L key))"

lemma within_limit_step:
  assumes h: "within_limit L W h" and past: "\<forall>e\<in>set h. fst e \<le> t"
    and ok: "reference_admits L W h t key"
  shows "within_limit L W (h @ [(t, key)])"
  unfolding within_limit_def
proof (intro allI)
  fix k x
  show "int (spent_between (h @ [(t, key)]) k (x - of_int (W k)) x) \<le> max 0 (L k)"
  proof (cases "k = key \<and> x - of_int (W k) < t \<and> t \<le> x")
    case True
    then have k: "k = key" and x: "t \<le> x" by auto
    have "spent_between h key (x - of_int (W key)) x \<le> length (events_of h key (x - of_int (W key)))"
      by (rule spent_between_le_events)
    also have "\<dots> \<le> length (events_of h key (t - of_int (W key)))"
      using x by (intro events_of_antimono) simp
    finally have "int (spent_between h key (x - of_int (W key)) x) < L key"
      using ok by (simp add: reference_admits_def)
    with True show ?thesis by (simp add: k spent_between_append) (simp add: spent_between_def)
  next
    case False
    then have "spent_between [(t, key)] k (x - of_int (W k)) x = 0"
      by (auto simp: spent_between_def)
    with h show ?thesis by (simp add: spent_between_append within_limit_def)
  qed
qed

lemma reference_run_within_limit:
  assumes "within_limit L W h" "sorted (map fst calls)" "\<forall>e\<in>set h. \<forall>c\<in>set calls. fst e \<le> fst c"
  shows "within_limit L W (snd (reference_run L W h calls))"
  using assms
proof (induction calls arbitrary: h)
  case (Cons c calls)
  obtain t key where c: "c = (t, key)" by (cases c)
  let ?h = "if reference_admits L W h t key then h @ [(t, key)] else h"
  have "within_limit L W ?h"
    using within_limit_step[of L W h t key] Cons.prems c by auto
  then have "within_limit L W (snd (reference_run L W ?h calls))"
    using Cons.prems c by (intro Cons.IH) auto
  then show ?case by (auto simp: c Let_def split: prod.split)
qed simp

lemma reference_run_history:
  "snd (reference_run L W h calls) = h @ granted calls (map Inr (fst (reference_run L W h calls)))"
  by (induction L W h calls rule: reference_run.induct)
    (auto simp: granted_def Let_def split: prod.splits)

context sliding_window
begin

text \<open>In every run from a well-formed state that has admitted nothing, on a clock that never goes
  back, no interval of a key's window length holds more admitted events than its limit.\<close>

lemma run_within_limit:
  assumes "wf W start st" "agrees W st [] start" "\<forall>c\<in>set calls. start \<le> fst c"
    "sorted (map fst calls)" "\<forall>c\<in>set calls. 0 < W (snd c)"
  shows "within_limit L W (granted calls (fst (run_checks is_allowed L W st calls)))"
proof -
  have "granted calls (fst (run_checks is_allowed L W st calls)) = snd (reference_run L W [] calls)"
    using run_is_reference[OF assms] by (simp add: reference_run_history)
  moreover have "within_limit L W (snd (reference_run L W [] calls))"
    using assms(4) by (intro reference_run_within_limit) (auto simp: within_limit_def spent_between_def)
  ultimately show ?thesis by simp
qed

end

section \<open>The in-process backend meets the contract\<close>

definition sp_live :: "single_process \<Rightarrow> pystr \<Rightarrow> int \<Rightarrow> rat \<Rightarrow> rat list" where
  "sp_live st key w t = (case sp_events st key of
      None \<Rightarrow> []
    | Some e \<Rightarrow> filter (\<lambda>s. t - of_int w < s) (we_timestamps e))"

text \<open>Each entry carries its key's window, and its timestamps are in order and past.\<close>

definition sp_wf :: "(pystr \<Rightarrow> int) \<Rightarrow> rat \<Rightarrow> single_process \<Rightarrow> bool" where
  "sp_wf W t st \<longleftrightarrow> (\<forall>key e. sp_events st key = Some e \<longrightarrow>
     we_window_seconds e = W key \<and> sorted (we_timestamps e) \<and> (\<forall>s\<in>set (we_timestamps e). s \<le> t))"

lemma sp_wfD:
  assumes "sp_wf W t st" and "sp_events st key = Some e"
  shows "we_window_seconds e = W key" "sorted (we_timestamps e)" "s \<in> set (we_timestamps e) \<Longrightarrow> s \<le> t"
  using assms by (auto simp: sp_wf_def)

lemma sorted_le_last: "sorted xs \<Longrightarrow> s \<in> set xs \<Longrightarrow> s \<le> last xs"
  by (induction xs) auto

lemma expired_has_no_live:
  assumes "is_expired t e" and "sorted (we_timestamps e)"
  shows "filter (\<lambda>s. t - of_int (we_window_seconds e) < s) (we_timestamps e) = []"
proof (cases "we_timestamps e = []")
  case False
  have "s \<le> last (we_timestamps e)" if "s \<in> set (we_timestamps e)" for s
    using assms(2) that by (rule sorted_le_last)
  with False assms(1) show ?thesis by (force simp: is_expired_def filter_empty_conv)
qed simp

lemma sweep_sub: "sp_events (sweep_expired_when_due t st) key = Some e \<Longrightarrow> sp_events st key = Some e"
  by (auto simp: sweep_expired_when_due_def split: if_splits option.splits)

lemma sweep_wf: "sp_wf W start st \<Longrightarrow> start \<le> t \<Longrightarrow> sp_wf W t (sweep_expired_when_due t st)"
  unfolding sp_wf_def by (blast dest: sweep_sub intro: order_trans)

lemma sweep_live:
  assumes "sp_wf W start st"
  shows "sp_live (sweep_expired_when_due t st) key (W key) t = sp_live st key (W key) t"
proof (cases "sp_events st key")
  case (Some e)
  show ?thesis
  proof (cases "sp_next_prune_at st \<le> t \<and> is_expired t e")
    case True
    then have "sp_live (sweep_expired_when_due t st) key (W key) t = []"
      using Some by (simp add: sp_live_def sweep_expired_when_due_def)
    moreover have "sp_live st key (W key) t = []"
      using expired_has_no_live[of t e] True Some sp_wfD[OF assms Some] by (simp add: sp_live_def)
    ultimately show ?thesis by simp
  next
    case False
    with Some show ?thesis by (auto simp: sp_live_def sweep_expired_when_due_def)
  qed
qed (simp add: sp_live_def sweep_expired_when_due_def)

lemma sp_live_sorted: "sp_wf W start st \<Longrightarrow> sorted (sp_live st key (W key) t)"
  by (auto simp: sp_live_def sorted_wrt_filter dest: sp_wfD(2) split: option.splits)

lemma sp_live_past:
  assumes "sp_wf W start st" and "start \<le> t"
  shows "\<forall>s\<in>set (sp_live st key (W key) t). s \<le> t"
proof (cases "sp_events st key")
  case (Some e)
  with sp_wfD(3)[OF assms(1) Some] assms(2) show ?thesis
    by (auto simp: sp_live_def intro: order_trans)
qed (simp add: sp_live_def)

text \<open>What a check does to a swept, well-formed store: one equation for both branches.\<close>

lemma sp_is_allowed_eq:
  assumes "sp_wf W start st" and "start \<le> t"
  shows "sp_is_allowed st t key l (W key) =
    (let st1 = sweep_expired_when_due t st; kept = sp_live st key (W key) t;
         ok = int (length kept) < l
     in (Inr ok, st1\<lparr>sp_events := (sp_events st1)(key \<mapsto>
           \<lparr>we_window_seconds = W key, we_timestamps = kept @ (if ok then [t] else [])\<rparr>)\<rparr>))"
proof -
  let ?st1 = "sweep_expired_when_due t st"
  have kept: "sp_live st key (W key) t = sp_live ?st1 key (W key) t"
    using sweep_live[OF assms(1)] by simp
  show ?thesis
  proof (cases "sp_events ?st1 key")
    case None
    then have "sp_live ?st1 key (W key) t = []" by (simp add: sp_live_def)
    with None show ?thesis by (simp add: sp_is_allowed_def Let_def kept)
  next
    case (Some e)
    then have "we_window_seconds e = W key"
      using sp_wfD(1)[OF sweep_wf[OF assms]] by blast
    moreover have "sp_live ?st1 key (W key) t
        = filter (\<lambda>s. t - of_int (W key) < s) (we_timestamps e)"
      using Some by (simp add: sp_live_def)
    ultimately show ?thesis
      using Some by (cases e) (simp add: sp_is_allowed_def Let_def kept)
  qed
qed

interpretation sp: sliding_window sp_is_allowed sp_live sp_wf
proof
  fix W start st t key l
  assume wf: "sp_wf W start st" "start \<le> t"
  note eq = sp_is_allowed_eq[OF wf, of key l, unfolded Let_def]
  show "fst (sp_is_allowed st t key l (W key)) = Inr (int (length (sp_live st key (W key) t)) < l)"
    by (simp add: eq)
  show "sp_wf W t (snd (sp_is_allowed st t key l (W key)))"
    unfolding sp_wf_def
  proof (intro allI impI)
    fix k e
    assume "sp_events (snd (sp_is_allowed st t key l (W key))) k = Some e"
    then have e: "if k = key
        then e = \<lparr>we_window_seconds = W key, we_timestamps = sp_live st key (W key) t @
          (if int (length (sp_live st key (W key) t)) < l then [t] else [])\<rparr>
        else sp_events (sweep_expired_when_due t st) k = Some e"
      by (simp add: eq split: if_splits)
    have "sorted (xs @ (if b then [t] else []))" if "sorted xs" "\<forall>s\<in>set xs. s \<le> t" for xs b
      using that by (simp add: sorted_append)
    note appended = this[OF sp_live_sorted[OF wf(1), of key t] sp_live_past[OF wf, of key]]
    show "we_window_seconds e = W k \<and> sorted (we_timestamps e) \<and> (\<forall>s\<in>set (we_timestamps e). s \<le> t)"
    proof (cases "k = key")
      case True
      with e show ?thesis using appended sp_live_past[OF wf, of key] by (simp split del: if_split) auto
    next
      case False
      with e sp_wfD[OF sweep_wf[OF wf]] show ?thesis by simp
    qed
  qed
  show "sp_live (snd (sp_is_allowed st t key l (W key))) key (W key) t =
      sp_live st key (W key) t @ (if int (length (sp_live st key (W key) t)) < l then [t] else [])"
    if "0 < W key"
    using that by (auto simp: eq sp_live_def split: option.splits)
  show "sp_live (snd (sp_is_allowed st t key l (W key))) key' (W key') t = sp_live st key' (W key') t"
    if "key' \<noteq> key" for key'
    using that sweep_live[OF wf(1), of t key'] by (simp add: eq sp_live_def)
next
  fix t t' :: rat and st key w
  assume "t \<le> t'"
  then show "sp_live st key w t' = filter (\<lambda>s. t' - of_int w < s) (sp_live st key w t)"
    by (auto simp: sp_live_def intro: filter_cong split: option.splits)
qed

lemma new_single_process_wf: "sp_wf W start new_single_process" "sp.agrees W new_single_process [] start"
  by (auto simp: sp_wf_def new_single_process_def sp.agrees_def sp_live_def events_of_def)

section \<open>Properties\<close>

text \<open>The in-process limiter is a sliding window that never overspends: in every sequence of
  checks on a clock that does not go back, with each key always checked against its own limit and
  window, no interval as long as a key's window holds more admitted checks of that key than the
  key's limit, whatever the other keys do and whenever the store is swept.\<close>

theorem rate_limit_never_overspends:
  assumes "\<forall>c\<in>set calls. start \<le> fst c" and "sorted (map fst calls)"
    and "\<forall>c\<in>set calls. 0 < W (snd c)"
  shows "int (spent_between (granted calls (fst (run_checks sp_is_allowed L W new_single_process calls)))
      key (x - of_int (W key)) x) \<le> max 0 (L key)"
  using sp.run_within_limit[OF new_single_process_wf assms, of L] by (simp add: within_limit_def)

lemma rate_limit_never_overspends_witness:
  "int (spent_between (granted [(0, [97]), (1, [97]), (2, [97])] (fst (run_checks sp_is_allowed
      (\<lambda>_. 2) (\<lambda>_. 10) new_single_process [(0, [97]), (1, [97]), (2, [97])])))
      [97] (5 - of_int 10) 5) \<le> max 0 2"
  using rate_limit_never_overspends
    [of "[(0, [97]), (1, [97]), (2, [97])]" 0 "\<lambda>_. 10" "\<lambda>_. 2" "[97]" 5] by simp

text \<open>The limiter answers exactly as the counter that remembers every admitted check: a check
  is admitted when fewer than the limit of its own key's admitted checks are younger than the
  window, so sweeping and trimming the store never changes an answer, one key never spends
  another's budget, and the configured use never raises.\<close>

theorem rate_limit_is_reference:
  assumes "\<forall>c\<in>set calls. start \<le> fst c" and "sorted (map fst calls)"
    and "\<forall>c\<in>set calls. 0 < W (snd c)"
  shows "fst (run_checks sp_is_allowed L W new_single_process calls)
    = map Inr (fst (reference_run L W [] calls))"
  by (rule sp.run_is_reference[OF new_single_process_wf assms])

lemma rate_limit_is_reference_witness:
  "fst (run_checks sp_is_allowed (\<lambda>_. 1) (\<lambda>_. 10) new_single_process
      [(0, [97]), (1, [98]), (2, [97]), (70, [97])])
    = map Inr (fst (reference_run (\<lambda>_. 1) (\<lambda>_. 10) []
        [(0, [97]), (1, [98]), (2, [97]), (70, [97])]))
   \<and> fst (reference_run (\<lambda>_. 1) (\<lambda>_. 10) [] [(0, [97]), (1, [98]), (2, [97]), (70, [97])])
    = [True, True, False, True]"
  using rate_limit_is_reference
    [of "[(0, [97]), (1, [98]), (2, [97]), (70, [97])]" 0 "\<lambda>_. 10" "\<lambda>_. 1"]
  by (simp add: reference_admits_def events_of_def)

end
