(* ===== verification/RateGate.thy ===== *)
theory RateGate
  imports Asgi Policies RateLimit
begin

text \<open>
  \<open>middleware/rate_limit.py\<close>: each request spends one of its client's budget for the budget its
  path falls into. The limiter runs on a worker; an exception it raises is the 503.
\<close>

definition rate_limit_key :: "rate_limit_budget \<Rightarrow> pystr \<Rightarrow> pystr" where
  "rate_limit_key budget budget_identity = rb_name budget @ 58 # budget_identity"

definition limiter_unavailable :: response where
  "limiter_unavailable = json_detail 503 (py ''Rate limiter unavailable'') [(py ''retry-after'', nat_dec 5)]"

definition too_many_requests :: "rate_limit_budget \<Rightarrow> response" where
  "too_many_requests budget = json_detail 429 (py ''Too many requests'')
     [(py ''retry-after'', int_dec (rb_window_seconds budget))]"

definition rate_gate :: "rate_limit_policy \<Rightarrow> 's gate" where
  "rate_gate policy sc =
     (let path = route_path sc in
      if is_exempt policy path then ret (None, sc)
      else bindA (liftR (web_auth_config sc)) (\<lambda>cfg.
           bindA (liftR (bindR (resolve_client_ip sc) (\<lambda>ip. Inr (budget_address ip)))) (\<lambda>budget_identity.
             let budget = budget_for policy path in
             (\<lambda>s. case cf_rate_limits cfg (rate_limit_key budget budget_identity)
                      (rb_max_requests budget) (rb_window_seconds budget) s of
                (Inl _, s') \<Rightarrow> (Inr (Some limiter_unavailable, sc), s')
              | (Inr allowed, s') \<Rightarrow>
                  if \<not> allowed then (Inr (Some (too_many_requests budget), sc), s')
                  else (Inr (None, sc), s')))))"

section \<open>One key space per budget\<close>

lemma rate_limit_key_inj:
  assumes "is_budget_name (rb_name a)" and "is_budget_name (rb_name b)"
  shows "rate_limit_key a i = rate_limit_key b j \<longleftrightarrow> rb_name a = rb_name b \<and> i = j"
proof
  assume eq: "rate_limit_key a i = rate_limit_key b j"
  have "partition_on 58 (rate_limit_key a i) = (rb_name a, True, i)"
    "partition_on 58 (rate_limit_key b j) = (rb_name b, True, j)"
    unfolding rate_limit_key_def using assms is_budget_name_no_colon by (simp_all add: partition_on_first)
  with eq show "rb_name a = rb_name b \<and> i = j" by simp
qed (simp add: rate_limit_key_def)

lemma distinct_name_inj:
  "distinct (map f xs) \<Longrightarrow> x \<in> set xs \<Longrightarrow> y \<in> set xs \<Longrightarrow> f x = f y \<Longrightarrow> x = y"
  by (simp add: distinct_map inj_on_def)

definition policy_ok :: "rate_limit_policy \<Rightarrow> bool" where
  "policy_ok p \<longleftrightarrow> distinct (map rb_name (policy_budgets p))
     \<and> (\<forall>b\<in>set (policy_budgets p). is_budget_name (rb_name b) \<and> 0 < rb_max_requests b \<and> 0 < rb_window_seconds b)"

text \<open>What a key is checked with: its budget's limit and window, found by the name before the colon.\<close>

definition budget_of_key :: "rate_limit_policy \<Rightarrow> pystr \<Rightarrow> rate_limit_budget" where
  "budget_of_key p key = (case find (\<lambda>b. rb_name b = fst (partition_on 58 key)) (policy_budgets p) of
      Some b \<Rightarrow> b | None \<Rightarrow> rl_default p)"

lemma budget_of_rate_limit_key:
  assumes "policy_ok p" and "b \<in> set (policy_budgets p)"
  shows "budget_of_key p (rate_limit_key b i) = b"
proof -
  have "partition_on 58 (rate_limit_key b i) = (rb_name b, True, i)"
    unfolding rate_limit_key_def using assms is_budget_name_no_colon
    by (intro partition_on_first) (auto simp: policy_ok_def)
  moreover have "find (\<lambda>c. rb_name c = rb_name b) (policy_budgets p) = Some b"
  proof -
    have "find (\<lambda>c. rb_name c = rb_name b) (policy_budgets p) \<noteq> None"
      using assms(2) by (auto simp: find_None_iff)
    then obtain c where c: "find (\<lambda>c. rb_name c = rb_name b) (policy_budgets p) = Some c" by blast
    then have "c \<in> set (policy_budgets p)" "rb_name c = rb_name b"
      by (auto simp: find_Some_iff)
    then have "c = b" using assms by (auto simp: policy_ok_def intro: distinct_name_inj)
    with c show ?thesis by simp
  qed
  ultimately show ?thesis by (simp add: budget_of_key_def)
qed

lemma find_in_set: "find P xs = Some x \<Longrightarrow> x \<in> set xs"
  by (metis find_Some_iff nth_mem)

lemma budget_of_key_in: "budget_of_key p key \<in> set (policy_budgets p)"
  by (auto simp: budget_of_key_def policy_budgets_def dest: find_in_set split: option.split)

lemma budget_of_key_ok:
  assumes "policy_ok p"
  shows "0 < rb_window_seconds (budget_of_key p key)" "0 < rb_max_requests (budget_of_key p key)"
  using assms budget_of_key_in[of p key] by (simp_all add: policy_ok_def)

section \<open>The gate over the in-process backend\<close>

text \<open>The host's state is the limiter and the reading of its clock at the request.\<close>

definition sp_backend :: "(single_process \<times> rat) rate_limit_backend" where
  "sp_backend key limit window_seconds = (\<lambda>(st, now).
     case sp_is_allowed st now key limit window_seconds of (r, st') \<Rightarrow> (r, (st', now)))"

fun gate_run ::
    "rate_limit_policy \<Rightarrow> single_process \<Rightarrow> (rat \<times> (single_process \<times> rat) scope) list
     \<Rightarrow> (exn + response option) list" where
  "gate_run policy st [] = []"
| "gate_run policy st ((now, sc) # requests) =
     (case rate_gate policy sc (st, now) of (r, (st', _)) \<Rightarrow>
       map_sum id fst r # gate_run policy st' requests)"

definition request_key :: "rate_limit_policy \<Rightarrow> 's web_auth_config \<Rightarrow> 's scope \<Rightarrow> pystr" where
  "request_key policy cfg sc = rate_limit_key (budget_for policy (route_path sc))
     (budget_address (get_client_ip (peer_host sc) (getlist sc (py ''x-forwarded-for'')) (cf_trusted_proxies cfg)))"

definition spends :: "rate_limit_policy \<Rightarrow> 's web_auth_config \<Rightarrow> 's scope \<Rightarrow> bool" where
  "spends policy cfg sc \<longleftrightarrow> web_auth_config sc = Inr cfg \<and> \<not> is_exempt policy (route_path sc)"

lemma rate_gate_step:
  assumes "spends policy cfg sc" and "cf_rate_limits cfg = sp_backend" and "policy_ok policy"
  shows "rate_gate policy sc (st, now) =
    (case sp_is_allowed st now (request_key policy cfg sc)
        (rb_max_requests (budget_of_key policy (request_key policy cfg sc)))
        (rb_window_seconds (budget_of_key policy (request_key policy cfg sc))) of
       (Inl _, st') \<Rightarrow> (Inr (Some limiter_unavailable, sc), (st', now))
     | (Inr ok, st') \<Rightarrow> (Inr (if ok then None else Some (too_many_requests (budget_for policy (route_path sc))), sc), (st', now)))"
proof -
  have "budget_of_key policy (request_key policy cfg sc) = budget_for policy (route_path sc)"
    unfolding request_key_def by (rule budget_of_rate_limit_key[OF assms(3) budget_for_in])
  then show ?thesis
    using assms(1,2)
    by (auto simp: rate_gate_def Let_def spends_def bindA_def resolve_client_ip_def sp_backend_def
        request_key_def split: prod.splits sum.splits)
qed

lemma gate_run_checks:
  assumes "policy_ok policy" and "cf_rate_limits cfg = sp_backend" and "\<forall>(t, sc)\<in>set requests. spends policy cfg sc"
  shows "gate_run policy st requests = map2 (\<lambda>(t, sc) r. Inr (case r of
        Inl _ \<Rightarrow> Some limiter_unavailable
      | Inr ok \<Rightarrow> if ok then None else Some (too_many_requests (budget_for policy (route_path sc)))))
    requests (fst (run_checks sp_is_allowed (\<lambda>k. rb_max_requests (budget_of_key policy k))
      (\<lambda>k. rb_window_seconds (budget_of_key policy k)) st
      (map (\<lambda>(t, sc). (t, request_key policy cfg sc)) requests)))"
  using assms(3)
proof (induction requests arbitrary: st)
  case (Cons q requests)
  obtain t sc where q: "q = (t, sc)" by (cases q)
  have "spends policy cfg sc" using Cons.prems q by simp
  note step = rate_gate_step[OF this assms(2,1), of st t]
  show ?case
    using Cons q by (auto simp: step split: prod.split sum.split)
qed simp

text \<open>Counting the passed requests of a run is counting the granted checks.\<close>

lemma passed_are_granted:
  assumes "length requests = length rs"
    and "\<And>q r. (q, r) \<in> set (zip requests rs) \<Longrightarrow> P (q, F q r) \<longleftrightarrow> r = Inr True \<and> snd (K q) = key \<and> a < fst (K q) \<and> fst (K q) \<le> b"
  shows "length (filter P (zip requests (map2 F requests rs))) = spent_between (granted (map K requests) rs) key a b"
  using assms
proof (induction requests rs rule: list_induct2)
  case (Cons q qs r rs)
  have "length (filter P (zip qs (map2 F qs rs))) = spent_between (granted (map K qs) rs) key a b"
    using Cons by simp
  moreover have "P (q, F q r) \<longleftrightarrow> r = Inr True \<and> snd (K q) = key \<and> a < fst (K q) \<and> fst (K q) \<le> b"
    using Cons.prems by simp
  ultimately show ?case
    by (cases "K q") (auto simp: granted_def spent_between_def)
qed (simp add: granted_def spent_between_def)

lemma accepted_policy_ok:
  assumes "RateLimitPolicy d rules exempt = Inr p"
    and "\<forall>b\<in>set (d # map rr_budget rules). \<exists>n m w. RateLimitBudget n m w = Inr b"
  shows "policy_ok p"
  using assms by (auto simp: policy_ok_def policy_budgets_def RateLimitPolicy_Inr RateLimitBudget_Inr)

lemma length_run_checks: "length (fst (run_checks a L W st calls)) = length calls"
proof (induction calls arbitrary: st)
  case (Cons c calls)
  then show ?case by (cases c) (simp add: case_prod_beta)
qed simp

lemma passed_iff:
  "(case r of Inl e \<Rightarrow> Some u | Inr ok \<Rightarrow> if ok then None else Some v) = None \<longleftrightarrow> r = Inr True"
  by (cases r) auto

section \<open>Properties\<close>

definition client_identity :: "'s web_auth_config \<Rightarrow> 's scope \<Rightarrow> pystr" where
  "client_identity cfg sc =
     budget_address (get_client_ip (peer_host sc) (getlist sc (py ''x-forwarded-for'')) (cf_trusted_proxies cfg))"

lemma request_key_eq:
  "request_key p cfg sc = rate_limit_key (budget_for p (route_path sc)) (client_identity cfg sc)"
  by (simp add: request_key_def client_identity_def)

text \<open>Requests share a counter exactly when they fall into the same budget and have the same client
  identity: under a policy the constructors accepted, no two budgets and no two clients ever
  reach one limiter key, whatever the identities' text.\<close>

theorem counters_are_separate:
  assumes "RateLimitPolicy d rules exempt = Inr p"
    and "\<forall>b\<in>set (d # map rr_budget rules). \<exists>n m w. RateLimitBudget n m w = Inr b"
  shows "request_key p cfg sc = request_key p cfg' sc' \<longleftrightarrow>
    budget_for p (route_path sc) = budget_for p (route_path sc') \<and> client_identity cfg sc = client_identity cfg' sc'"
proof -
  have ok: "policy_ok p" using assms by (rule accepted_policy_ok)
  have "rb_name (budget_for p a) = rb_name (budget_for p b) \<longleftrightarrow> budget_for p a = budget_for p b" for a b
    using ok budget_for_in[of p a] budget_for_in[of p b] by (auto simp: policy_ok_def intro: distinct_name_inj)
  moreover have "is_budget_name (rb_name (budget_for p a))" for a
    using ok budget_for_in[of p a] by (auto simp: policy_ok_def)
  ultimately show ?thesis by (simp add: request_key_eq rate_limit_key_inj)
qed

definition sample_budget :: rate_limit_budget where
  "sample_budget = \<lparr>rb_name = py ''api'', rb_max_requests = 2, rb_window_seconds = 60\<rparr>"

definition sample_rate_policy :: rate_limit_policy where
  "sample_rate_policy = \<lparr>rl_default = sample_budget, rl_rules = [], rl_exempt = no_paths\<rparr>"

lemma sample_rate_policy_accepted:
  "RateLimitPolicy sample_budget [] no_paths = Inr sample_rate_policy"
  "RateLimitBudget (py ''api'') (PyInt 2) (PyInt 60) = Inr sample_budget"
  by (simp_all add: RateLimitPolicy_Inr RateLimitBudget_Inr sample_rate_policy_def sample_budget_def
      policy_budgets_def is_budget_name_def text_eval)

lemma counters_are_separate_witness:
  "request_key sample_rate_policy sample_config (sample_scope [] :: unit scope)
     = request_key sample_rate_policy sample_config (sample_scope [(py ''x-forwarded-for'', py ''1.2.3.4'')] :: unit scope)"
proof -
  have "client_identity sample_config (sample_scope [] :: unit scope)
     = client_identity sample_config (sample_scope [(py ''x-forwarded-for'', py ''1.2.3.4'')] :: unit scope)"
    by (simp add: client_identity_def get_client_ip_def sample_config_def trusts_host_def trusts_def peer_host_def
        sample_scope_def split: option.split)
  then show ?thesis
    by (intro iffD2[OF counters_are_separate[OF sample_rate_policy_accepted(1)]])
      (use sample_rate_policy_accepted(2) in \<open>auto simp: sample_scope_def route_path_def\<close>)
qed

text \<open>C17. The rate-limit gate over the in-process backend, end to end: whatever requests arrive on a
  clock that does not go back, in no interval as long as a budget's window do more requests of one
  client identity pass the gate for that budget than the budget's maximum.\<close>

theorem gate_never_overspends:
  assumes "RateLimitPolicy d rules exempt = Inr p"
    and "\<forall>b\<in>set (d # map rr_budget rules). \<exists>n m w. RateLimitBudget n m w = Inr b"
    and "cf_rate_limits cfg = sp_backend" and "\<forall>(t, sc)\<in>set requests. spends p cfg sc"
    and "\<forall>q\<in>set requests. start \<le> fst q" and "sorted (map fst requests)"
  shows "int (length (filter (\<lambda>((t, sc), answer). answer = Inr None \<and> budget_for p (route_path sc) = b
        \<and> client_identity cfg sc = i \<and> x - of_int (rb_window_seconds b) < t \<and> t \<le> x)
      (zip requests (gate_run p new_single_process requests)))) \<le> max 0 (rb_max_requests b)"
proof (cases "b \<in> set (policy_budgets p)")
  case True
  let ?L = "\<lambda>k. rb_max_requests (budget_of_key p k)" and ?W = "\<lambda>k. rb_window_seconds (budget_of_key p k)"
  let ?K = "\<lambda>(t, sc). (t, request_key p cfg sc)" and ?key = "rate_limit_key b i"
  let ?rs = "fst (run_checks sp_is_allowed ?L ?W new_single_process (map ?K requests))"
  let ?F = "\<lambda>(t, sc) r. Inr (case r of
        Inl _ \<Rightarrow> Some limiter_unavailable
      | Inr ok \<Rightarrow> if ok then None else Some (too_many_requests (budget_for p (route_path sc))))"
  let ?P = "\<lambda>((t, sc), answer :: exn + response option). answer = Inr None
        \<and> budget_for p (route_path sc) = b \<and> client_identity cfg sc = i
        \<and> x - of_int (rb_window_seconds b) < t \<and> t \<le> x"
  have ok: "policy_ok p" using assms(1,2) by (rule accepted_policy_ok)
  have key: "request_key p cfg sc = ?key \<longleftrightarrow> budget_for p (route_path sc) = b \<and> client_identity cfg sc = i" for sc
    using ok True budget_for_in[of p "route_path sc"]
    by (auto simp: request_key_eq rate_limit_key_inj policy_ok_def intro: distinct_name_inj)
  have own: "budget_of_key p ?key = b" using ok True by (rule budget_of_rate_limit_key)
  have run: "gate_run p new_single_process requests = map2 ?F requests ?rs"
    by (rule gate_run_checks[OF ok assms(3,4)])
  have lim: "within_limit ?L ?W (granted (map ?K requests) ?rs)"
    using assms(5,6) ok by (intro sp.run_within_limit[OF new_single_process_wf[where start = start]])
      (auto simp: budget_of_key_ok comp_def case_prod_beta)
  have count: "length (filter ?P (zip requests (map2 ?F requests ?rs)))
    = spent_between (granted (map ?K requests) ?rs) ?key (x - of_int (rb_window_seconds b)) x"
  proof (rule passed_are_granted[where P = ?P and F = ?F and K = ?K])
    fix q :: "rat \<times> (single_process \<times> rat) scope" and r :: "exn + bool"
    obtain t sc where q: "q = (t, sc)" by (cases q)
    show "?P (q, ?F q r) \<longleftrightarrow> r = Inr True \<and> snd (?K q) = ?key
        \<and> x - of_int (rb_window_seconds b) < fst (?K q) \<and> fst (?K q) \<le> x"
      unfolding q by (simp only: prod.case fst_conv snd_conv sum.inject passed_iff key) (intro iffI conjI; elim conjE; assumption)
  qed (simp add: length_run_checks)
  show ?thesis
    using lim[unfolded within_limit_def, rule_format, of ?key x] unfolding run count own .
next
  case False
  then have "budget_for p (route_path sc) \<noteq> b" for sc :: "(single_process \<times> rat) scope"
    using budget_for_in[of p "route_path sc"] by metis
  then show ?thesis by (simp add: case_prod_beta)
qed

definition sample_limited_config :: "(single_process \<times> rat) web_auth_config" where
  "sample_limited_config = sample_config\<lparr>cf_rate_limits := sp_backend\<rparr>"

definition sample_limited_scope :: "(single_process \<times> rat) scope" where
  "sample_limited_scope = (sample_scope [])\<lparr>sc_app := \<lparr>app_id = 1, app_webauth = Some sample_limited_config\<rparr>\<rparr>"

lemma gate_never_overspends_witness:
  "int (length (filter (\<lambda>((t, sc), answer). answer = Inr None \<and> budget_for sample_rate_policy (route_path sc) = sample_budget
        \<and> client_identity sample_limited_config sc = py ''unknown'' \<and> 30 - of_int (rb_window_seconds sample_budget) < t \<and> t \<le> 30)
      (zip [(0::rat, sample_limited_scope), (1, sample_limited_scope), (2, sample_limited_scope)]
        (gate_run sample_rate_policy new_single_process
          [(0, sample_limited_scope), (1, sample_limited_scope), (2, sample_limited_scope)])))) \<le> max 0 (rb_max_requests sample_budget)"
  by (rule gate_never_overspends[OF sample_rate_policy_accepted(1), where start = 0])
    (use sample_rate_policy_accepted(2) in \<open>auto simp: sample_limited_config_def sample_limited_scope_def spends_def
        web_auth_config_def installed_web_auth_config_def is_exempt_def sample_rate_policy_def\<close>)

end
