(* ===== verification/Encoding.thy ===== *)
theory Encoding
  imports Text
begin

text \<open>
  \<open>bytes.decode\<close> for UTF-8, strict and with \<open>surrogateescape\<close>, and the unpadded URL-safe Base64 of
  the cookies, as Python's standard library defines them.
\<close>

section \<open>UTF-8\<close>

text \<open>The code point a well-formed sequence at the front of the bytes encodes, and its length.\<close>

definition sequence_code :: "nat list \<Rightarrow> nat \<Rightarrow> nat" where
  "sequence_code bs n =
     foldl (\<lambda>acc b. acc * 64 + (b - 128))
       (hd bs - (if n = 1 then 0 else if n = 2 then 192 else if n = 3 then 224 else 240))
       (take (n - 1) (tl bs))"

definition utf8_sequence :: "nat list \<Rightarrow> (nat \<times> nat) option" where
  "utf8_sequence bs =
     (case find (\<lambda>n. is_scalar (sequence_code bs n) \<and> utf8_char (sequence_code bs n) = take n bs) [1, 2, 3, 4] of
        None \<Rightarrow> None
      | Some n \<Rightarrow> Some (sequence_code bs n, n))"

function utf8_decode_escape :: "nat list \<Rightarrow> pystr" where
  "utf8_decode_escape bs = (case bs of
      [] \<Rightarrow> []
    | b # rest \<Rightarrow> (case utf8_sequence bs of
          Some (c, Suc n) \<Rightarrow> c # utf8_decode_escape (drop n rest)
        | _ \<Rightarrow> (56320 + b) # utf8_decode_escape rest))"
  by pat_completeness auto
termination by (relation "measure length") auto

declare utf8_decode_escape.simps [simp del]

text \<open>\<open>bytes.decode()\<close>: strict, so malformed bytes raise \<open>UnicodeDecodeError\<close>, a \<open>ValueError\<close>.\<close>

function utf8_decode :: "nat list \<Rightarrow> exn + pystr" where
  "utf8_decode bs = (case bs of
      [] \<Rightarrow> Inr []
    | b # rest \<Rightarrow> (case utf8_sequence bs of
          Some (c, Suc n) \<Rightarrow> bindR (utf8_decode (drop n rest)) (\<lambda>cs. Inr (c # cs))
        | _ \<Rightarrow> Inl ValueError))"
  by pat_completeness auto
termination by (relation "measure length") auto

declare utf8_decode.simps [simp del]

lemma utf8_char_bytes: "is_scalar c \<Longrightarrow> 128 \<le> c \<Longrightarrow> b \<in> set (utf8_char c) \<Longrightarrow> 128 \<le> b \<and> b < 256"
  by (auto simp: utf8_char_def is_scalar_def split: if_splits)

lemma utf8_char_ascii: "c < 128 \<Longrightarrow> utf8_char c = [c]"
  by (simp add: utf8_char_def)

lemma length_utf8_char: "length (utf8_char c) = (if c < 128 then 1 else if c < 2048 then 2 else if c < 65536 then 3 else 4)"
  by (simp add: utf8_char_def)

lemma utf8_char_not_Nil [simp]: "utf8_char c \<noteq> []"
  by (simp add: utf8_char_def)

text \<open>The lead byte tells the length.\<close>

lemma hd_utf8_char:
  assumes "is_scalar c"
  shows "hd (utf8_char c) < 128 \<longleftrightarrow> length (utf8_char c) = 1"
    "hd (utf8_char c) < 224 \<longleftrightarrow> length (utf8_char c) \<le> 2"
    "hd (utf8_char c) < 240 \<longleftrightarrow> length (utf8_char c) \<le> 3"
proof -
  have "c div 64 < 32" if "c < 2048" using that by (simp add: div_less_iff_less_mult)
  moreover have "c div 4096 < 16" if "c < 65536" using that by (simp add: div_less_iff_less_mult)
  moreover have "c div 64 < 48" if "c < 2048" using that by (simp add: div_less_iff_less_mult)
  ultimately show "hd (utf8_char c) < 128 \<longleftrightarrow> length (utf8_char c) = 1"
    "hd (utf8_char c) < 224 \<longleftrightarrow> length (utf8_char c) \<le> 2"
    "hd (utf8_char c) < 240 \<longleftrightarrow> length (utf8_char c) \<le> 3"
    by (simp_all add: utf8_char_def)
qed

lemma sequence_code_utf8_char:
  assumes "is_scalar c"
  shows "sequence_code (utf8_char c @ rest) (length (utf8_char c)) = c"
proof (cases "c < 128" ; cases "c < 2048"; cases "c < 65536")
  assume "\<not> c < 128" "c < 2048" "c < 65536"
  then show ?thesis
    using div_mult_mod_eq[of c 64] by (simp add: utf8_char_def sequence_code_def)
next
  assume c: "\<not> c < 128" "\<not> c < 2048" "c < 65536"
  have "c div 4096 = c div 64 div 64" by (simp flip: div_mult2_eq)
  with c show ?thesis
    using div_mult_mod_eq[of c 64] div_mult_mod_eq[of "c div 64" 64]
    by (simp add: utf8_char_def sequence_code_def)
next
  assume c: "\<not> c < 128" "\<not> c < 2048" "\<not> c < 65536"
  have "c div 4096 = c div 64 div 64" "c div 262144 = c div 64 div 64 div 64"
    by (simp_all flip: div_mult2_eq)
  with c show ?thesis
    using div_mult_mod_eq[of c 64] div_mult_mod_eq[of "c div 64" 64] div_mult_mod_eq[of "c div 64 div 64" 64]
    by (simp add: utf8_char_def sequence_code_def)
qed (simp_all add: utf8_char_def sequence_code_def)

lemma utf8_sequence_char:
  assumes "is_scalar c"
  shows "utf8_sequence (utf8_char c @ rest) = Some (c, length (utf8_char c))"
proof -
  let ?bs = "utf8_char c @ rest"
  let ?ok = "\<lambda>n. is_scalar (sequence_code ?bs n) \<and> utf8_char (sequence_code ?bs n) = take n ?bs"
  have len: "length (utf8_char c) \<in> {1, 2, 3, 4}" by (simp add: length_utf8_char)
  have right: "?ok (length (utf8_char c))"
    using assms sequence_code_utf8_char[OF assms] by simp
  have wrong: "\<not> ?ok n" if n: "0 < n" "n < length (utf8_char c)" for n
  proof
    let ?d = "sequence_code ?bs n"
    assume ok: "?ok n"
    have "hd (take n ?bs) = hd ?bs" using n by (cases ?bs) auto
    then have hd: "hd (utf8_char ?d) = hd (utf8_char c)" using ok by simp
    have "length (utf8_char ?d) = length (utf8_char c)"
    proof -
      have d: "is_scalar ?d" using ok by blast
      have "length (utf8_char ?d) \<in> {1, 2, 3, 4}" by (simp add: length_utf8_char)
      moreover note len
      moreover have "length (utf8_char ?d) = 1 \<longleftrightarrow> length (utf8_char c) = 1"
        "length (utf8_char ?d) \<le> 2 \<longleftrightarrow> length (utf8_char c) \<le> 2"
        "length (utf8_char ?d) \<le> 3 \<longleftrightarrow> length (utf8_char c) \<le> 3"
        using hd_utf8_char[OF assms] hd_utf8_char[OF d] hd by simp_all
      ultimately show ?thesis by (elim insertE emptyE) linarith+
    qed
    moreover have "utf8_char ?d = take n ?bs" using ok by blast
    ultimately show False using n by simp
  qed
  have "find ?ok [1, 2, 3, 4] = Some (length (utf8_char c))"
    using right wrong[of 1] wrong[of 2] wrong[of 3] len by (elim insertE emptyE) (simp_all add: find.simps)
  then show ?thesis
    by (simp add: utf8_sequence_def sequence_code_utf8_char[OF assms])
qed

lemma utf8_decode_char:
  assumes "is_scalar c"
  shows "utf8_decode (utf8_char c @ rest) = bindR (utf8_decode rest) (\<lambda>cs. Inr (c # cs))"
proof -
  obtain b bs where b: "utf8_char c = b # bs" by (cases "utf8_char c") auto
  then have "drop (length bs) (bs @ rest) = rest" "length (utf8_char c) = Suc (length bs)" by simp_all
  then show ?thesis
    using utf8_sequence_char[OF assms, of rest] by (subst utf8_decode.simps) (simp add: b)
qed

lemma utf8_decode_encode: "utf8_encode s = Inr bs \<Longrightarrow> utf8_decode bs = Inr s"
proof (induction s arbitrary: bs)
  case Nil
  then show ?case by (simp add: utf8_encode_def utf8_decode.simps)
next
  case (Cons c s)
  then have "is_scalar c" "utf8_encode s = Inr (concat (map utf8_char s))" and bs: "bs = utf8_char c @ concat (map utf8_char s)"
    by (auto simp: utf8_encode_def split: if_splits)
  with Cons.IH show ?case unfolding bs by (simp add: utf8_decode_char)
qed

lemma utf8_encode_inj: "utf8_encode s = Inr bs \<Longrightarrow> utf8_encode t = Inr bs \<Longrightarrow> s = t"
  using utf8_decode_encode[of s bs] utf8_decode_encode[of t bs] by simp

lemma utf8_encode_bytes: "utf8_encode s = Inr bs \<Longrightarrow> b \<in> set bs \<Longrightarrow> b < 256"
  using utf8_char_bytes by (fastforce simp: utf8_encode_def utf8_char_ascii list_all_iff not_le split: if_splits)

lemma utf8_encode_ascii: "isascii s \<Longrightarrow> utf8_encode s = Inr s"
proof -
  assume a: "isascii s"
  then have "concat (map utf8_char s) = s" by (induction s) (auto simp: isascii_def utf8_char_ascii)
  with a show ?thesis by (auto simp: utf8_encode_def isascii_def list_all_iff is_scalar_def)
qed

lemma utf8_encode_append:
  "utf8_encode (a @ b) = bindR (utf8_encode a) (\<lambda>x. bindR (utf8_encode b) (\<lambda>y. Inr (x @ y)))"
  by (simp add: utf8_encode_def)

section \<open>URL-safe Base64\<close>

text \<open>\<open>urlsafe_b64encode(...).rstrip("=")\<close>, and \<open>urlsafe_b64decode\<close> of text of the alphabet padded to
  a multiple of four: the bits left over in the last character are dropped, and a single left-over
  character is \<open>binascii.Error\<close>, a \<open>ValueError\<close>.\<close>

definition b64_digit :: "nat \<Rightarrow> nat" where
  "b64_digit n = (if n < 26 then 65 + n else if n < 52 then 71 + n else if n < 62 then n - 4
     else if n = 62 then 45 else 95)"

definition b64_value :: "nat \<Rightarrow> nat" where
  "b64_value c = (if is_upper_ascii c then c - 65 else if is_lower_ascii c then c - 71
     else if is_digit c then c + 4 else if c = 45 then 62 else 63)"

definition is_b64_char :: "nat \<Rightarrow> bool" where
  "is_b64_char c \<longleftrightarrow> is_alnum_ascii c \<or> c = 95 \<or> c = 45"

fun b64_encode :: "nat list \<Rightarrow> pystr" where
  "b64_encode [] = []"
| "b64_encode [a] = map b64_digit [a div 4, a mod 4 * 16]"
| "b64_encode [a, b] = map b64_digit [a div 4, a mod 4 * 16 + b div 16, b mod 16 * 4]"
| "b64_encode (a # b # c # bs) =
     map b64_digit [a div 4, a mod 4 * 16 + b div 16, b mod 16 * 4 + c div 64, c mod 64] @ b64_encode bs"

fun b64_decode :: "pystr \<Rightarrow> exn + nat list" where
  "b64_decode [] = Inr []"
| "b64_decode [_] = Inl ValueError"
| "b64_decode [p, q] = Inr [b64_value p * 4 + b64_value q div 16]"
| "b64_decode [p, q, r] =
     Inr [b64_value p * 4 + b64_value q div 16, b64_value q mod 16 * 16 + b64_value r div 4]"
| "b64_decode (p # q # r # s # cs) =
     bindR (b64_decode cs) (\<lambda>bs. Inr ([b64_value p * 4 + b64_value q div 16,
       b64_value q mod 16 * 16 + b64_value r div 4, b64_value r mod 4 * 64 + b64_value s] @ bs))"

lemma b64_value_digit: "n < 64 \<Longrightarrow> b64_value (b64_digit n) = n"
  by (auto simp: b64_value_def b64_digit_def char_class_defs)

lemma b64_digit_char: "n < 64 \<Longrightarrow> is_b64_char (b64_digit n)"
  by (auto simp: is_b64_char_def b64_digit_def char_class_defs)

lemma six_bits:
  fixes a b c :: nat
  assumes "a < 256" and "b < 256" and "c < 256"
  shows "a div 4 < 64" "a mod 4 * 16 + b div 16 < 64" "b mod 16 * 4 + c div 64 < 64" "c mod 64 < 64"
    "a mod 4 * 16 < 64" "b mod 16 * 4 < 64"
proof -
  have "a mod 4 < 4" "b div 16 < 16" "b mod 16 < 16" "c div 64 < 4"
    using assms by (simp_all add: div_less_iff_less_mult)
  then show "a div 4 < 64" "a mod 4 * 16 + b div 16 < 64" "b mod 16 * 4 + c div 64 < 64" "c mod 64 < 64"
    "a mod 4 * 16 < 64" "b mod 16 * 4 < 64"
    using assms(1) by (simp_all add: div_less_iff_less_mult)
qed

lemma b64_decode_encode: "\<forall>b\<in>set bs. b < 256 \<Longrightarrow> b64_decode (b64_encode bs) = Inr bs"
proof (induction bs rule: b64_encode.induct)
  case (2 a)
  then show ?case using six_bits[of a a a] by (simp add: b64_value_digit)
next
  case (3 a b)
  then have "(a mod 4 * 16 + b div 16) div 16 = a mod 4" "(a mod 4 * 16 + b div 16) mod 16 * 16 + b mod 16 = b"
    by (simp_all add: div_less_iff_less_mult)
  with 3 show ?case using six_bits[of a b b] by (simp add: b64_value_digit)
next
  case (4 a b c bs)
  have abc: "a < 256" "b < 256" "c < 256" using 4 by simp_all
  then have "(a mod 4 * 16 + b div 16) div 16 = a mod 4" "(a mod 4 * 16 + b div 16) mod 16 * 16 + b mod 16 = b"
    "(b mod 16 * 4 + c div 64) div 4 = b mod 16" "(b mod 16 * 4 + c div 64) mod 4 * 64 + c mod 64 = c"
    by (simp_all add: div_less_iff_less_mult)
  with 4 abc show ?case using six_bits[OF abc] by (simp add: b64_value_digit)
qed simp

lemma b64_encode_chars: "\<forall>b\<in>set bs. b < 256 \<Longrightarrow> x \<in> set (b64_encode bs) \<Longrightarrow> is_b64_char x"
proof (induction bs rule: b64_encode.induct)
  case (2 a)
  then show ?case using six_bits[of a a a] by (auto simp: b64_digit_char)
next
  case (3 a b)
  then show ?case using six_bits[of a b b] by (auto simp: b64_digit_char)
next
  case (4 a b c bs)
  have abc: "a < 256" "b < 256" "c < 256" using 4 by simp_all
  from 4 six_bits[OF abc] show ?case by (auto simp: b64_digit_char)
qed simp

lemma b64_encode_length: "length (b64_encode bs) = (4 * length bs + 2) div 3"
  by (induction bs rule: b64_encode.induct) auto

lemma b64_encode_Nil [simp]: "b64_encode bs = [] \<longleftrightarrow> bs = []"
  by (induction bs rule: b64_encode.induct) auto

end
