(* ===== verification/Cookies.thy ===== *)
theory Cookies
  imports Connection Encoding Responses
begin

text \<open>
  \<open>webauth/cookies.py\<close>: the signed session cookie and the signed pending login. Starlette's
  \<open>cookie_parser\<close> is not code of this repository; it is the parameter \<open>parse_cookie\<close>, the pairs it
  reads from one \<open>name=value\<close> piece of a header. \<open>text.encode()\<close> fails on a lone surrogate, so
  signing and verifying may raise.
\<close>

type_synonym cookie_parser = "pystr \<Rightarrow> (pystr \<times> pystr) list"

definition MAX_SESSION_COOKIE_CHARS :: nat where "MAX_SESSION_COOKIE_CHARS = 200"
definition MAX_PENDING_LOGIN_COOKIE_CHARS :: nat where "MAX_PENDING_LOGIN_COOKIE_CHARS = 896"
definition MAX_PENDING_LOGINS :: nat where "MAX_PENDING_LOGINS = 5"
definition UNRANKED :: int where "UNRANKED = -1"

section \<open>Names and values\<close>

definition pending_login_cookie_prefix :: "bool \<Rightarrow> pystr" where
  "pending_login_cookie_prefix secure = cookie_name (py ''oidc_pending'') secure @ py ''_''"

definition pending_login_cookie_name :: "pystr \<Rightarrow> bool \<Rightarrow> exn + pystr" where
  "pending_login_cookie_name state secure =
     bindR (utf8_encode state) (\<lambda>bs.
       Inr (pending_login_cookie_prefix secure @ take 16 (hexdigest (sha256_digest bs))))"

definition is_pending_login_cookie_name :: "pystr \<Rightarrow> bool \<Rightarrow> bool" where
  "is_pending_login_cookie_name name secure =
     (let p = pending_login_cookie_prefix secure in
      if \<not> startswith name p then False
      else length (drop (length p) name) = 16 \<and> list_all is_hex_lower (drop (length p) name))"

definition cookie_pairs :: "cookie_parser \<Rightarrow> 's scope \<Rightarrow> (pystr \<times> pystr) list" where
  "cookie_pairs parse_cookie sc =
     (let pairs = split_on 59 (join_with (py ''; '') (getlist sc (py ''cookie'')))
      in concat (map parse_cookie pairs))"

definition cookie_values :: "cookie_parser \<Rightarrow> 's scope \<Rightarrow> pystr \<Rightarrow> pystr list" where
  "cookie_values parse_cookie sc name =
     map snd (filter (\<lambda>(k, v). k = name) (cookie_pairs parse_cookie sc))"

section \<open>The session cookie\<close>

definition signature_of :: "pystr \<Rightarrow> pystr \<Rightarrow> nat list \<Rightarrow> exn + pystr" where
  "signature_of prefix_bytes text secret =
     bindR (utf8_encode text) (\<lambda>bs. Inr (hexdigest (hmac_sha256 secret (prefix_bytes @ bs))))"

definition session_signature :: "pystr \<Rightarrow> nat list \<Rightarrow> exn + pystr" where
  "session_signature session_id secret = signature_of (py ''session:'') session_id secret"

definition sign_session_id :: "pystr \<Rightarrow> nat list \<Rightarrow> exn + pystr" where
  "sign_session_id session_id secret =
     (if session_id = [] then Inl ValueError
      else bindR (session_signature session_id secret) (\<lambda>sig.
        let signed = session_id @ 46 # sig in
        if MAX_SESSION_COOKIE_CHARS < length signed then Inl ValueError else Inr signed))"

text \<open>\<open>hmac.compare_digest\<close> on the encoded texts: equality of bytes.\<close>

definition verify_session_cookie :: "pystr \<Rightarrow> nat list \<Rightarrow> exn + pystr option" where
  "verify_session_cookie cookie_value secret =
     (case rpartition_on 46 cookie_value of
        (_, False, _) \<Rightarrow> Inr None
      | (session_id, True, sig) \<Rightarrow>
          if session_id = [] \<or> sig = [] then Inr None
          else bindR (session_signature session_id secret) (\<lambda>expected.
            bindR (utf8_encode sig) (\<lambda>given.
            bindR (utf8_encode expected) (\<lambda>wanted.
              Inr (if given = wanted then Some session_id else None)))))"

definition attributed_cookie ::
    "'s web_auth_config \<Rightarrow> cookie_samesite \<Rightarrow> pystr \<Rightarrow> pystr \<Rightarrow> int \<Rightarrow> set_cookie" where
  "attributed_cookie cfg samesite name value max_age =
     \<lparr>ck_name = name, ck_value = value, ck_max_age = max_age, ck_path = py ''/'',
      ck_secure = cf_cookie_secure cfg, ck_httponly = True, ck_samesite = samesite_value samesite\<rparr>"

definition deleted_cookie :: "'s web_auth_config \<Rightarrow> cookie_samesite \<Rightarrow> pystr \<Rightarrow> set_cookie" where
  "deleted_cookie cfg samesite name = attributed_cookie cfg samesite name [] 0"

definition issue_session_cookies :: "response \<Rightarrow> pystr \<Rightarrow> 's web_auth_config \<Rightarrow> exn + response" where
  "issue_session_cookies response session_id cfg =
     bindR (signing_key cfg) (\<lambda>key.
     bindR (sign_session_id session_id key) (\<lambda>signed.
       Inr (add_cookie response (attributed_cookie cfg (cf_cookie_samesite cfg) (session_cookie_name cfg)
              signed (absolute_max_age_seconds (cf_session_lifetime cfg))))))"

definition clear_session_cookies :: "response \<Rightarrow> 's web_auth_config \<Rightarrow> response" where
  "clear_session_cookies response cfg =
     add_cookie response (deleted_cookie cfg (cf_cookie_samesite cfg) (session_cookie_name cfg))"

section \<open>The pending login\<close>

record pending_login =
  pl_state :: pystr
  pl_nonce :: pystr
  pl_code_verifier :: pystr
  pl_issued_at :: int
  pl_return_to :: "pystr option"

definition returning_to :: "pending_login \<Rightarrow> pystr option \<Rightarrow> pending_login" where
  "returning_to p path = p\<lparr>pl_return_to := path\<rparr>"

definition encoded_return_to :: "pystr option \<Rightarrow> exn + pystr" where
  "encoded_return_to return_to = (case return_to of
      None \<Rightarrow> Inr []
    | Some path \<Rightarrow> bindR (utf8_encode path) (\<lambda>bs. Inr (b64_encode bs)))"

definition decoded_return_to :: "pystr \<Rightarrow> exn + pystr option" where
  "decoded_return_to field =
     (if field = [] then Inr None
      else bindR (b64_decode field) (\<lambda>bs. bindR (utf8_decode bs) (\<lambda>s. Inr (Some s))))"

text \<open>The shape of a payload, \<open>_PENDING_LOGIN_VALUE\<close>: six fields between dots, none of which a field's
  own pattern admits, so cutting at the dots is the match.\<close>

definition is_pending_secret :: "pystr \<Rightarrow> bool" where
  "is_pending_secret s \<longleftrightarrow> length s = 43 \<and> list_all is_b64_char s"

definition is_issued_at :: "pystr \<Rightarrow> bool" where
  "is_issued_at s \<longleftrightarrow> s = [48] \<or> (s \<noteq> [] \<and> hd s \<noteq> 48 \<and> length s \<le> 12 \<and> list_all is_digit s)"

definition is_return_to_field :: "pystr \<Rightarrow> bool" where
  "is_return_to_field s \<longleftrightarrow> length s \<le> 683 \<and> list_all is_b64_char s"

definition pending_fields :: "pystr \<Rightarrow> (pystr \<times> pystr \<times> pystr \<times> pystr \<times> pystr) option" where
  "pending_fields payload = (case split_on 46 payload of
      [v, state, nonce, code_verifier, issued_at, return_to] \<Rightarrow>
        if v = py ''v2'' \<and> is_pending_secret state \<and> is_pending_secret nonce
           \<and> is_pending_secret code_verifier \<and> is_issued_at issued_at \<and> is_return_to_field return_to
        then Some (state, nonce, code_verifier, issued_at, return_to) else None
    | _ \<Rightarrow> None)"

definition pending_login_signature :: "pystr \<Rightarrow> nat list \<Rightarrow> exn + pystr" where
  "pending_login_signature payload secret = signature_of (py ''oidc-pending:'') payload secret"

definition sign_pending_login :: "pending_login \<Rightarrow> nat list \<Rightarrow> exn + pystr" where
  "sign_pending_login p secret =
     bindR (encoded_return_to (pl_return_to p)) (\<lambda>return_to.
       let payload = join_with [46] [py ''v2'', pl_state p, pl_nonce p, pl_code_verifier p,
             int_dec (pl_issued_at p), return_to]
       in if pending_fields payload = None then Inl ValueError
          else bindR (pending_login_signature payload secret) (\<lambda>sig. Inr (payload @ 46 # sig)))"

definition is_pending_login_signature :: "pystr \<Rightarrow> bool" where
  "is_pending_login_signature s \<longleftrightarrow> length s = 64 \<and> list_all is_hex_lower s"

definition verify_pending_login :: "pystr \<Rightarrow> nat list \<Rightarrow> exn + pending_login option" where
  "verify_pending_login cookie_value secret =
     (if MAX_PENDING_LOGIN_COOKIE_CHARS < length cookie_value then Inr None
      else case rpartition_on 46 cookie_value of (payload, _, sig) \<Rightarrow>
        (case pending_fields payload of
           None \<Rightarrow> Inr None
         | Some (state, nonce, code_verifier, issued_at, return_to) \<Rightarrow>
             if \<not> is_pending_login_signature sig then Inr None
             else bindR (pending_login_signature payload secret) (\<lambda>expected.
               if sig \<noteq> expected then Inr None
               else bindR (decoded_return_to return_to) (\<lambda>path.
                 Inr (Some \<lparr>pl_state = state, pl_nonce = nonce, pl_code_verifier = code_verifier,
                   pl_issued_at = int (dec_value 0 issued_at), pl_return_to = path\<rparr>)))))"

definition issue_pending_login_cookie ::
    "response \<Rightarrow> pending_login \<Rightarrow> int \<Rightarrow> 's web_auth_config \<Rightarrow> exn + response" where
  "issue_pending_login_cookie response p max_age_seconds cfg =
     bindR (pending_login_cookie_name (pl_state p) (cf_cookie_secure cfg)) (\<lambda>name.
     bindR (signing_key cfg) (\<lambda>key.
     bindR (sign_pending_login p key) (\<lambda>value.
       Inr (add_cookie response (attributed_cookie cfg Lax name value max_age_seconds)))))"

definition clear_pending_login_cookie :: "response \<Rightarrow> pystr \<Rightarrow> 's web_auth_config \<Rightarrow> response" where
  "clear_pending_login_cookie response name cfg = add_cookie response (deleted_cookie cfg Lax name)"

definition issued_at :: "pystr \<Rightarrow> 's web_auth_config \<Rightarrow> exn + int" where
  "issued_at cookie_value cfg =
     bindR (signing_key cfg) (\<lambda>key.
     bindR (verify_pending_login cookie_value key) (\<lambda>v.
       Inr (case v of None \<Rightarrow> UNRANKED | Some p \<Rightarrow> pl_issued_at p)))"

text \<open>The dictionary of the eviction, in insertion order: a name seen again is unranked.\<close>

fun ranked :: "'s web_auth_config \<Rightarrow> (pystr \<times> pystr) list \<Rightarrow> (pystr \<times> int) list \<Rightarrow> exn + (pystr \<times> int) list" where
  "ranked cfg [] ranks = Inr ranks"
| "ranked cfg ((name, value) # pairs) ranks =
     (if \<not> is_pending_login_cookie_name name (cf_cookie_secure cfg) then ranked cfg pairs ranks
      else if name \<in> set (map fst ranks)
      then ranked cfg pairs (map (\<lambda>(n, r). (n, if n = name then UNRANKED else r)) ranks)
      else bindR (issued_at value cfg) (\<lambda>r. ranked cfg pairs (ranks @ [(name, r)])))"

definition pending_login_cookies_to_evict ::
    "cookie_parser \<Rightarrow> 's scope \<Rightarrow> 's web_auth_config \<Rightarrow> exn + pystr list" where
  "pending_login_cookies_to_evict parse_cookie sc cfg =
     bindR (ranked cfg (cookie_pairs parse_cookie sc) []) (\<lambda>ranks.
       let oldest_first = map fst (sort_key snd ranks)
       in Inr (take (Suc (length oldest_first) - MAX_PENDING_LOGINS) oldest_first))"

definition begin_pending_login ::
    "cookie_parser \<Rightarrow> 's scope \<Rightarrow> response \<Rightarrow> pending_login \<Rightarrow> int \<Rightarrow> 's web_auth_config \<Rightarrow> exn + response" where
  "begin_pending_login parse_cookie sc response p max_age_seconds cfg =
     bindR (pending_login_cookies_to_evict parse_cookie sc cfg) (\<lambda>names.
       issue_pending_login_cookie
         (foldl (\<lambda>r name. clear_pending_login_cookie r name cfg) response names) p max_age_seconds cfg)"

definition take_pending_login ::
    "cookie_parser \<Rightarrow> 's scope \<Rightarrow> response \<Rightarrow> pystr \<Rightarrow> 's web_auth_config
     \<Rightarrow> exn + (pending_login option \<times> response)" where
  "take_pending_login parse_cookie sc response state cfg =
     bindR (pending_login_cookie_name state (cf_cookie_secure cfg)) (\<lambda>name.
       let cleared = clear_pending_login_cookie response name cfg in
       case cookie_values parse_cookie sc name of
         [value] \<Rightarrow> bindR (signing_key cfg) (\<lambda>key.
           bindR (verify_pending_login value key) (\<lambda>p. Inr (p, cleared)))
       | _ \<Rightarrow> Inr (None, cleared))"

section \<open>Signatures\<close>

lemma signature_hex:
  assumes "signature_of p text secret = Inr sig"
  shows "length sig = 64" "list_all is_hex_lower sig" "utf8_encode sig = Inr sig" "46 \<notin> set sig"
proof -
  obtain bs where sig: "sig = hexdigest (hmac_sha256 secret (p @ bs))"
    using assms by (auto simp: signature_of_def)
  then show "length sig = 64" by simp
  have hex: "x \<in> set sig \<Longrightarrow> is_hex_lower x" for x unfolding sig by (rule hmac_hex_chars)
  then show "list_all is_hex_lower sig" by (simp add: list_all_iff)
  have "isascii sig" using hex by (force simp: isascii_def list_all_iff char_class_defs)
  then show "utf8_encode sig = Inr sig" by (rule utf8_encode_ascii)
  show "46 \<notin> set sig" using hex by (force simp: char_class_defs)
qed

text \<open>The two kinds of cookie never sign the same bytes.\<close>

lemma signed_bytes_differ: "py ''session:'' @ a \<noteq> py ''oidc-pending:'' @ b"
  by (simp add: py_eval)

lemma verify_session_cookie_iff:
  "verify_session_cookie c secret = Inr (Some sid) \<longleftrightarrow>
     sid \<noteq> [] \<and> (\<exists>sig. session_signature sid secret = Inr sig \<and> c = sid @ 46 # sig)"
proof
  assume v: "verify_session_cookie c secret = Inr (Some sid)"
  obtain a found b where cut: "rpartition_on 46 c = (a, found, b)" by (cases "rpartition_on 46 c")
  from v have found: "found = True" by (cases found) (auto simp: verify_session_cookie_def cut)
  then have c: "c = a @ 46 # b" using cut by (simp add: rpartition_on_True_iff)
  from v found obtain expected given where s: "session_signature a secret = Inr expected"
    "utf8_encode b = Inr given" "utf8_encode expected = Inr given" "sid = a" "a \<noteq> []"
    by (auto simp: verify_session_cookie_def cut split: if_splits)
  from utf8_encode_inj[OF s(2,3)] s c
  show "sid \<noteq> [] \<and> (\<exists>sig. session_signature sid secret = Inr sig \<and> c = sid @ 46 # sig)" by auto
next
  assume "sid \<noteq> [] \<and> (\<exists>sig. session_signature sid secret = Inr sig \<and> c = sid @ 46 # sig)"
  then obtain sig where sig: "session_signature sid secret = Inr sig" and c: "c = sid @ 46 # sig" and "sid \<noteq> []"
    by blast
  note hex = signature_hex[OF sig[unfolded session_signature_def]]
  have "sig \<noteq> []" using hex(1) by auto
  then show "verify_session_cookie c secret = Inr (Some sid)"
    using hex \<open>sid \<noteq> []\<close> by (simp add: verify_session_cookie_def c rpartition_on_last sig)
qed

section \<open>The payload of a pending login\<close>

lemma pending_fields_join:
  assumes "pending_fields payload = Some (s, n, c, i, r)"
  shows "payload = join_with [46] [py ''v2'', s, n, c, i, r]" "is_pending_secret s" "is_pending_secret n"
    "is_pending_secret c" "is_issued_at i" "is_return_to_field r"
proof -
  have "split_on 46 payload = [py ''v2'', s, n, c, i, r]" and fields: "is_pending_secret s" "is_pending_secret n"
    "is_pending_secret c" "is_issued_at i" "is_return_to_field r"
    using assms by (auto simp: pending_fields_def split: list.splits if_splits)
  then show "payload = join_with [46] [py ''v2'', s, n, c, i, r]" by (metis join_split)
  from fields show "is_pending_secret s" "is_pending_secret n" "is_pending_secret c" "is_issued_at i"
    "is_return_to_field r" by blast+
qed

lemma field_chars:
  "is_pending_secret s \<Longrightarrow> x \<in> set s \<Longrightarrow> x < 128 \<and> x \<noteq> 46"
  "is_return_to_field s \<Longrightarrow> x \<in> set s \<Longrightarrow> x < 128 \<and> x \<noteq> 46"
  "is_issued_at s \<Longrightarrow> x \<in> set s \<Longrightarrow> x < 128 \<and> x \<noteq> 46"
  by (auto simp: is_pending_secret_def is_return_to_field_def is_issued_at_def list_all_iff is_b64_char_def
      char_class_defs)

text \<open>Cutting a payload back gives its six fields: a dot inside one would make a seventh.\<close>

lemma length_split_on: "length (split_on c s) = Suc (count_list s c)"
  by (induction s) (auto split: list.splits)

lemma count_list_append [simp]: "count_list (a @ b) x = count_list a x + count_list b x"
  by (induction a) auto

lemma pending_fields_of_join:
  assumes "pending_fields (join_with [46] [v, s, n, c, i, r]) \<noteq> None"
  shows "pending_fields (join_with [46] [v, s, n, c, i, r]) = Some (s, n, c, i, r)"
proof -
  let ?p = "join_with [46] [v, s, n, c, i, r]"
  have "length (split_on 46 ?p) = 6"
    using assms by (auto simp: pending_fields_def split: list.splits)
  then have "46 \<notin> set v" "46 \<notin> set s" "46 \<notin> set n" "46 \<notin> set c" "46 \<notin> set i" "46 \<notin> set r"
    by (simp_all add: length_split_on count_list_0_iff)
  then have "split_on 46 ?p = [v, s, n, c, i, r]"
    by (simp add: split_on_append split_on_none)
  with assms show ?thesis by (simp add: pending_fields_def split: if_splits)
qed

lemma decoded_encoded_return_to:
  assumes "encoded_return_to path = Inr f"
  shows "decoded_return_to f = Inr (if path = Some [] then None else path)"
proof (cases path)
  case None
  with assms show ?thesis by (simp add: encoded_return_to_def decoded_return_to_def)
next
  case (Some s)
  with assms obtain bs where bs: "utf8_encode s = Inr bs" and f: "f = b64_encode bs"
    by (auto simp: encoded_return_to_def)
  have "b64_decode f = Inr bs"
    unfolding f using utf8_encode_bytes[OF bs] by (intro b64_decode_encode) blast
  moreover have "bs = [] \<longleftrightarrow> s = []"
  proof -
    have "utf8_encode [] = Inr []" by (simp add: utf8_encode_def)
    with bs utf8_encode_inj show ?thesis by fastforce
  qed
  ultimately show ?thesis
    using Some utf8_decode_encode[OF bs] by (auto simp: decoded_return_to_def f)
qed

lemma is_issued_at_int_dec: "is_issued_at (int_dec i) \<Longrightarrow> 0 \<le> i \<and> int (dec_value 0 (int_dec i)) = i"
proof -
  assume a: "is_issued_at (int_dec i)"
  have "0 \<le> i"
  proof (rule ccontr)
    assume "\<not> 0 \<le> i"
    then have "45 \<in> set (int_dec i)" by (simp add: int_dec_def)
    with a show False by (auto simp: is_issued_at_def list_all_iff char_class_defs int_dec_def)
  qed
  then show ?thesis by (simp add: int_dec_def)
qed

lemma pending_payload_length:
  assumes "pending_fields payload = Some (s, n, c, i, r)"
  shows "length payload \<le> 831"
proof -
  note f = pending_fields_join[OF assms]
  have "length i \<le> 12" using f(5) by (auto simp: is_issued_at_def)
  with f(2-4,6) show ?thesis
    unfolding f(1) by (simp add: is_pending_secret_def is_return_to_field_def)
qed

section \<open>Eviction\<close>

definition held_pending_names :: "cookie_parser \<Rightarrow> 's scope \<Rightarrow> 's web_auth_config \<Rightarrow> pystr set" where
  "held_pending_names parse_cookie sc cfg =
     {n \<in> set (map fst (cookie_pairs parse_cookie sc)). is_pending_login_cookie_name n (cf_cookie_secure cfg)}"

lemma ranked_names:
  assumes "ranked cfg pairs ranks = Inr ranks'" and "distinct (map fst ranks)"
  shows "distinct (map fst ranks') \<and> set (map fst ranks') = set (map fst ranks) \<union>
    {n \<in> set (map fst pairs). is_pending_login_cookie_name n (cf_cookie_secure cfg)}"
  using assms
proof (induction cfg pairs ranks rule: ranked.induct)
  case (2 cfg name v pairs ranks)
  let ?reset = "map (\<lambda>(n, r). (n, if n = name then UNRANKED else r)) ranks"
  have reset: "map fst ?reset = map fst ranks" by (auto simp: comp_def case_prod_beta)
  show ?case
  proof (cases "is_pending_login_cookie_name name (cf_cookie_secure cfg)")
    case False
    with 2 show ?thesis by auto
  next
    case True
    show ?thesis
    proof (cases "name \<in> set (map fst ranks)")
      case seen: True
      then have "ranked cfg pairs ?reset = Inr ranks'" using 2(4) True by simp
      with 2(2)[OF _ seen, unfolded reset] True 2(5) have "distinct (map fst ranks') \<and>
        set (map fst ranks') = set (map fst ranks) \<union>
          {n \<in> set (map fst pairs). is_pending_login_cookie_name n (cf_cookie_secure cfg)}" by blast
      with seen True show ?thesis by auto
    next
      case new: False
      then obtain r where "ranked cfg pairs (ranks @ [(name, r)]) = Inr ranks'"
        using 2(4) True by auto
      then have "distinct (map fst ranks') \<and> set (map fst ranks') = set (map fst (ranks @ [(name, r)])) \<union>
        {n \<in> set (map fst pairs). is_pending_login_cookie_name n (cf_cookie_secure cfg)}"
        using 2(3)[OF _ new] True 2(5) new by simp
      with True show ?thesis by auto
    qed
  qed
qed simp

lemma evicted_are_oldest:
  assumes "pending_login_cookies_to_evict parse_cookie sc cfg = Inr names"
  obtains ranks where "ranked cfg (cookie_pairs parse_cookie sc) [] = Inr ranks"
    "distinct (map fst ranks)" "set (map fst ranks) = held_pending_names parse_cookie sc cfg"
    "names = take (length ranks - 4) (map fst (sort_key snd ranks))"
proof -
  obtain ranks where r: "ranked cfg (cookie_pairs parse_cookie sc) [] = Inr ranks"
    and names: "names = take (length ranks - 4) (map fst (sort_key snd ranks))"
    using assms by (auto simp: pending_login_cookies_to_evict_def MAX_PENDING_LOGINS_def Let_def)
  have "distinct (map fst ranks) \<and> set (map fst ranks) = held_pending_names parse_cookie sc cfg"
    using ranked_names[OF r] unfolding held_pending_names_def by simp
  with r names that show thesis by blast
qed

section \<open>Properties of the signatures\<close>

lemma verify_of_signed:
  "sign_session_id session_id secret = Inr c \<Longrightarrow> verify_session_cookie c secret = Inr (Some session_id)"
  unfolding verify_session_cookie_iff sign_session_id_def Let_def by (auto split: if_splits)

lemma sign_session_id_of_verified:
  assumes "verify_session_cookie c secret = Inr (Some session_id)" and "length c \<le> MAX_SESSION_COOKIE_CHARS"
  shows "sign_session_id session_id secret = Inr c"
proof -
  obtain sig where "session_id \<noteq> []" "session_signature session_id secret = Inr sig" "c = session_id @ 46 # sig"
    using assms(1) unfolding verify_session_cookie_iff by blast
  with assms(2) show ?thesis by (simp add: sign_session_id_def Let_def)
qed

text \<open>C12. The session cookie is read exactly as it is signed: within the reader's length bound, a
  cookie value names a session id if and only if signing that id under the same secret yields that
  very value. So every cookie the library issues is read back as its session, and a value the
  signer would not have produced names none, whatever dots an id carries.\<close>

theorem session_cookie_iff_signed:
  "verify_session_cookie c secret = Inr (Some session_id) \<and> length c \<le> MAX_SESSION_COOKIE_CHARS
   \<longleftrightarrow> sign_session_id session_id secret = Inr c"
  unfolding verify_session_cookie_iff sign_session_id_def Let_def
  by (cases "session_signature session_id secret") (auto split: if_splits)

text \<open>C25. A pending login survives its trip through the browser: when it can be signed at all, the
  signed value is within the reader's bound and reads back, under the same secret, as the same
  login (an empty return path reads back as none).\<close>

theorem pending_login_round_trip:
  assumes "sign_pending_login p secret = Inr c"
  shows "verify_pending_login c secret = Inr (Some (if pl_return_to p = Some [] then returning_to p None else p))"
proof -
  let ?payload = "\<lambda>r. join_with [46] [py ''v2'', pl_state p, pl_nonce p, pl_code_verifier p, int_dec (pl_issued_at p), r]"
  obtain r sig where r: "encoded_return_to (pl_return_to p) = Inr r"
    and fields: "pending_fields (?payload r) \<noteq> None"
    and sig: "pending_login_signature (?payload r) secret = Inr sig" and c: "c = ?payload r @ 46 # sig"
    using assms unfolding sign_pending_login_def Let_def by (auto simp del: join_with.simps split: if_splits)
  note all = pending_fields_of_join[OF fields]
  note hex = signature_hex[OF sig[unfolded pending_login_signature_def]]
  have "rpartition_on 46 c = (?payload r, True, sig)" unfolding c by (rule rpartition_on_last[OF hex(4)])
  moreover have "length c \<le> MAX_PENDING_LOGIN_COOKIE_CHARS"
    using pending_payload_length[OF all] hex(1) by (simp add: c MAX_PENDING_LOGIN_COOKIE_CHARS_def)
  moreover have "is_pending_login_signature sig" using hex by (simp add: is_pending_login_signature_def)
  moreover have "int (dec_value 0 (int_dec (pl_issued_at p))) = pl_issued_at p"
    using is_issued_at_int_dec[OF pending_fields_join(5)[OF all]] by blast
  ultimately show ?thesis
    using all sig decoded_encoded_return_to[OF r]
    by (cases p) (simp add: verify_pending_login_def returning_to_def)
qed

definition sample_pending :: pending_login where
  "sample_pending = \<lparr>pl_state = replicate 43 97, pl_nonce = replicate 43 98, pl_code_verifier = replicate 43 99,
     pl_issued_at = 1700000000, pl_return_to = Some (py ''/a'')\<rparr>"

lemma sample_pending_signed: "\<exists>c. sign_pending_login sample_pending secret = Inr c"
proof -
  have "encoded_return_to (Some (py ''/a'')) = Inr (py ''L2E'')"
    by (simp add: encoded_return_to_def utf8_encode_def is_scalar_def utf8_char_def b64_digit_def text_eval)
  moreover have "int_dec 1700000000 = py ''1700000000''"
    by (simp add: int_dec_def nat_dec.simps py_eval)
  moreover have "pending_fields (join_with [46] [py ''v2'', replicate 43 97, replicate 43 98, replicate 43 99,
      py ''1700000000'', py ''L2E'']) =
    Some (replicate 43 97, replicate 43 98, replicate 43 99, py ''1700000000'', py ''L2E'')"
    by (rule pending_fields_of_join)
      (simp add: pending_fields_def split_on_append split_on_none is_pending_secret_def is_b64_char_def
        is_issued_at_def is_return_to_field_def list_all_iff py_eval char_class_defs)
  moreover have "isascii (join_with [46] [py ''v2'', replicate 43 97, replicate 43 98, replicate 43 99,
      py ''1700000000'', py ''L2E''])"
    by (simp add: isascii_def list_all_iff py_eval)
  ultimately show ?thesis
    by (simp add: sign_pending_login_def sample_pending_def pending_login_signature_def signature_of_def
        utf8_encode_ascii Let_def del: join_with.simps)
qed

lemma pending_login_round_trip_witness:
  "\<exists>c. sign_pending_login sample_pending (py ''secret'') = Inr c
    \<and> verify_pending_login c (py ''secret'') = Inr (Some sample_pending)"
proof -
  obtain c where c: "sign_pending_login sample_pending (py ''secret'') = Inr c"
    using sample_pending_signed by blast
  have "pl_return_to sample_pending \<noteq> Some []" by (simp add: sample_pending_def)
  with pending_login_round_trip[OF c] c show ?thesis by auto
qed

text \<open>What eviction leaves of the pending logins a request carries: at most four, the newest.\<close>

lemma evicted_leave_four:
  assumes "pending_login_cookies_to_evict parse_cookie sc cfg = Inr names"
  shows "set names \<subseteq> held_pending_names parse_cookie sc cfg
    \<and> card (held_pending_names parse_cookie sc cfg - set names) \<le> 4
    \<and> (card (held_pending_names parse_cookie sc cfg) \<le> 4 \<longrightarrow> names = [])
    \<and> (\<exists>ranks. ranked cfg (cookie_pairs parse_cookie sc) [] = Inr ranks
        \<and> (\<forall>a\<in>set names. \<forall>b\<in>held_pending_names parse_cookie sc cfg - set names.
             the (map_of ranks a) \<le> the (map_of ranks b)))"
proof -
  let ?held = "held_pending_names parse_cookie sc cfg"
  obtain ranks where r: "ranked cfg (cookie_pairs parse_cookie sc) [] = Inr ranks"
    and dist: "distinct (map fst ranks)" and held: "set (map fst ranks) = ?held"
    and names: "names = take (length ranks - 4) (map fst (sort_key snd ranks))"
    by (rule evicted_are_oldest[OF assms])
  let ?sorted = "sort_key snd ranks"
  let ?k = "length ranks - 4"
  have sorted_set: "set (map fst ?sorted) = ?held" using held by simp
  have dist': "distinct (map fst ?sorted)"
    using dist by (metis distinct_map distinct_sort set_sort)
  have split: "map fst ?sorted = names @ map fst (drop ?k ?sorted)"
    unfolding names by (simp add: take_map drop_map flip: map_append)
  then have kept: "?held - set names = set (map fst (drop ?k ?sorted))"
    using dist' sorted_set by (metis Diff_cancel Un_Diff Un_empty_left distinct_append set_append
        Diff_triv inf_commute)
  have "card ?held = length ranks"
    using dist held by (metis distinct_card length_map)
  moreover have "card (?held - set names) \<le> length ranks - ?k"
    unfolding kept using card_length[of "map fst (drop ?k ?sorted)"] by simp
  moreover have "the (map_of ranks a) \<le> the (map_of ranks b)"
    if a: "a \<in> set names" and b: "b \<in> ?held - set names" for a b
  proof -
    obtain x where x: "(a, x) \<in> set (take ?k ?sorted)"
      using a unfolding names by (auto simp: take_map)
    obtain y where y: "(b, y) \<in> set (drop ?k ?sorted)"
      using b unfolding kept by auto
    have "sorted (map snd (take ?k ?sorted @ drop ?k ?sorted))" by (simp only: append_take_drop_id sorted_sort_key)
    then have "\<forall>u\<in>set (map snd (take ?k ?sorted)). \<forall>v\<in>set (map snd (drop ?k ?sorted)). u \<le> v"
      by (simp only: map_append sorted_append) blast
    then have "x \<le> y" using x y by (metis image_eqI set_map snd_conv)
    moreover have "(a, x) \<in> set ranks" "(b, y) \<in> set ranks"
      using in_set_takeD[OF x] in_set_dropD[OF y] by simp_all
    then have "map_of ranks a = Some x" "map_of ranks b = Some y"
      using dist by (simp_all add: map_of_eq_Some_iff)
    ultimately show ?thesis by simp
  qed
  moreover have "set names \<subseteq> ?held" unfolding split[THEN arg_cong[where f = set], unfolded sorted_set] by simp
  moreover have "names = []" if "length ranks \<le> 4" using that by (simp add: names)
  moreover have "length ranks - ?k \<le> 4" by simp
  ultimately show ?thesis using r by (metis order_trans)
qed

text \<open>The names a browser holds after an answer: each \<open>Set-Cookie\<close> in turn stores its cookie, or takes the
  one of its name back when its \<open>Max-Age\<close> is not positive.\<close>

definition browser_after :: "pystr set \<Rightarrow> set_cookie list \<Rightarrow> pystr set" where
  "browser_after held cookies =
     foldl (\<lambda>jar c. if ck_max_age c \<le> 0 then jar - {ck_name c} else insert (ck_name c) jar) held cookies"

lemma browser_after_append: "browser_after held (a @ b) = browser_after (browser_after held a) b"
  by (simp add: browser_after_def)

lemma browser_after_deleted: "browser_after held (map (deleted_cookie cfg samesite) names) = held - set names"
  by (induction names arbitrary: held) (auto simp: browser_after_def deleted_cookie_def attributed_cookie_def)

lemma cleared_cookies:
  "foldl (\<lambda>r name. clear_pending_login_cookie r name cfg) response names
    = response\<lparr>rs_cookies := rs_cookies response @ map (deleted_cookie cfg Lax) names\<rparr>"
  by (induction names arbitrary: response) (simp_all add: clear_pending_login_cookie_def add_cookie_def)

text \<open>C26. Repeated sign-in starts never crowd the browser. The answer that begins a sign-in first takes
  cookies back and then sets the new login's: of the pending-login cookies the request carried, the
  browser keeps at most four, so with the new one it holds at most five; only names of a
  pending login's exact shape that the request carried are taken back, none of them when four or fewer
  are held, and no cookie taken back is newer than one that stays (a forged or repeated one counts as
  oldest).\<close>

theorem at_most_five_pending_logins:
  fixes sc :: "'s scope" and cfg :: "'s web_auth_config"
  assumes "begin_pending_login parse_cookie sc response p max_age cfg = Inr answer" and "0 < max_age"
  shows "\<exists>added names name key v. rs_cookies answer = rs_cookies response @ added
    \<and> added = map (deleted_cookie cfg Lax) names @ [attributed_cookie cfg Lax name v max_age]
    \<and> pending_login_cookie_name (pl_state p) (cf_cookie_secure cfg) = Inr name
    \<and> signing_key cfg = Inr key \<and> sign_pending_login p key = Inr v
    \<and> browser_after (held_pending_names parse_cookie sc cfg) added = insert name (held_pending_names parse_cookie sc cfg - set names)
    \<and> card (browser_after (held_pending_names parse_cookie sc cfg) added) \<le> 5
    \<and> set names \<subseteq> held_pending_names parse_cookie sc cfg
    \<and> card (held_pending_names parse_cookie sc cfg - set names) \<le> 4
    \<and> (card (held_pending_names parse_cookie sc cfg) \<le> 4 \<longrightarrow> names = [])
    \<and> (\<exists>ranks. ranked cfg (cookie_pairs parse_cookie sc) [] = Inr ranks
        \<and> (\<forall>a\<in>set names. \<forall>b\<in>held_pending_names parse_cookie sc cfg - set names.
             the (map_of ranks a) \<le> the (map_of ranks b)))"
proof -
  let ?held = "held_pending_names parse_cookie sc cfg"
  obtain names where names: "pending_login_cookies_to_evict parse_cookie sc cfg = Inr names"
    and issued: "issue_pending_login_cookie (foldl (\<lambda>r name. clear_pending_login_cookie r name cfg) response names) p max_age cfg
      = Inr answer"
    using assms(1) by (auto simp: begin_pending_login_def)
  obtain name key v where issue: "pending_login_cookie_name (pl_state p) (cf_cookie_secure cfg) = Inr name"
      "signing_key cfg = Inr key" "sign_pending_login p key = Inr v"
    and answer: "rs_cookies answer = rs_cookies response @ map (deleted_cookie cfg Lax) names @ [attributed_cookie cfg Lax name v max_age]"
    using issued by (auto simp: issue_pending_login_cookie_def cleared_cookies)
  have jar: "browser_after ?held (map (deleted_cookie cfg Lax) names @ [attributed_cookie cfg Lax name v max_age])
      = insert name (?held - set names)"
    unfolding browser_after_append browser_after_deleted using assms(2) by (simp add: browser_after_def attributed_cookie_def)
  note four = evicted_leave_four[OF names]
  have "card (insert name (?held - set names)) \<le> Suc (card (?held - set names))" by (rule card_insert_le_m1) simp_all
  with four have "card (insert name (?held - set names)) \<le> 5" by linarith
  with four issue answer jar show ?thesis
    by - (rule exI[of _ "map (deleted_cookie cfg Lax) names @ [attributed_cookie cfg Lax name v max_age]"], rule exI[of _ names],
      rule exI[of _ name], rule exI[of _ key], rule exI[of _ v], simp)
qed

text \<open>A browser with five pending logins under forged values: the first one is taken back.\<close>

definition held_login :: "nat \<Rightarrow> pystr" where
  "held_login i = pending_login_cookie_prefix True @ replicate 16 (48 + i)"

definition five_held :: cookie_parser where
  "five_held = (\<lambda>_. [(held_login 0, []), (held_login 1, []), (held_login 2, []), (held_login 3, []), (held_login 4, [])])"

lemma held_login_simps:
  "held_login i = held_login j \<longleftrightarrow> i = j" "i < 10 \<Longrightarrow> is_pending_login_cookie_name (held_login i) True"
  by (simp_all add: held_login_def is_pending_login_cookie_name_def list_all_iff is_hex_lower_def is_digit_def)

lemma at_most_five_pending_logins_witness:
  "\<exists>answer c. begin_pending_login five_held (sample_scope [] :: unit scope) (json_detail 303 [] []) sample_pending 600 sample_config = Inr answer
    \<and> rs_cookies answer = [deleted_cookie (sample_config :: unit web_auth_config) Lax (held_login 0), c]
    \<and> card (held_pending_names five_held (sample_scope [] :: unit scope) sample_config) = 5
    \<and> card (browser_after (held_pending_names five_held (sample_scope [] :: unit scope) sample_config) (rs_cookies answer)) \<le> 5"
proof -
  let ?sc = "sample_scope [] :: unit scope" and ?cfg = "sample_config :: unit web_auth_config"
  have pairs: "cookie_pairs five_held ?sc = five_held []"
    by (simp add: cookie_pairs_def getlist_def sample_scope_def five_held_def)
  have secure: "cf_cookie_secure ?cfg" by (simp add: sample_config_def)
  obtain key where key: "signing_key ?cfg = Inr key"
    by (fastforce simp: signing_key_def sample_config_def utf8_encode_def is_scalar_def list_all_iff)
  have unranked: "issued_at [] ?cfg = Inr UNRANKED"
    by (simp add: issued_at_def key verify_pending_login_def pending_fields_def rpartition_on_def split: prod.split)
  have evict: "pending_login_cookies_to_evict five_held ?sc ?cfg = Inr [held_login 0]"
    unfolding pending_login_cookies_to_evict_def pairs
    by (simp add: five_held_def secure held_login_simps unranked MAX_PENDING_LOGINS_def Let_def)
  have held: "held_pending_names five_held ?sc ?cfg = {held_login 0, held_login 1, held_login 2, held_login 3, held_login 4}"
    unfolding held_pending_names_def pairs by (auto simp: five_held_def secure held_login_simps)
  obtain v where v: "sign_pending_login sample_pending key = Inr v" using sample_pending_signed by blast
  obtain name where name: "pending_login_cookie_name (pl_state sample_pending) True = Inr name"
    by (fastforce simp: pending_login_cookie_name_def sample_pending_def utf8_encode_def is_scalar_def list_all_iff)
  obtain answer where answer: "begin_pending_login five_held ?sc (json_detail 303 [] []) sample_pending 600 ?cfg = Inr answer"
      "rs_cookies answer = [deleted_cookie ?cfg Lax (held_login 0), attributed_cookie ?cfg Lax name v 600]"
    by (simp add: begin_pending_login_def evict issue_pending_login_cookie_def secure name key v cleared_cookies json_detail_def)
  from at_most_five_pending_logins[OF answer(1)] answer have
    "card (browser_after (held_pending_names five_held ?sc ?cfg) (rs_cookies answer)) \<le> 5"
    by (auto simp: json_detail_def)
  with answer held show ?thesis by (simp add: held_login_simps)
qed

end
