(* ===== verification/MediaTypes.thy ===== *)
theory MediaTypes
  imports Connection
begin

text \<open>
  \<open>webauth/_media_types.py\<close>: what an \<open>Accept\<close> header asks for. \<open>float\<close> on header text is Python's:
  decimal and exponent notation with single underscores between digits, \<open>inf\<close>, \<open>infinity\<close> and
  \<open>nan\<close>; a finite value is the rational the text denotes (its rounding to a double is not
  modelled).
\<close>

section \<open>Floats read from text\<close>

datatype pyfloat = Fin rat | PosInf | NegInf | NaN

fun float_less :: "pyfloat \<Rightarrow> pyfloat \<Rightarrow> bool" where
  "float_less (Fin a) (Fin b) = (a < b)"
| "float_less (Fin _) PosInf = True"
| "float_less NegInf (Fin _) = True"
| "float_less NegInf PosInf = True"
| "float_less _ _ = False"

text \<open>\<open>max(a, b)\<close>: the second argument only when it is greater.\<close>

definition float_max :: "pyfloat \<Rightarrow> pyfloat \<Rightarrow> pyfloat" where
  "float_max a b = (if float_less a b then b else a)"

text \<open>Digits with single underscores between them: their value and how many they are.\<close>

fun digit_part :: "nat \<Rightarrow> nat \<Rightarrow> pystr \<Rightarrow> (nat \<times> nat) option" where
  "digit_part acc n [] = None"
| "digit_part acc n [d] = (if is_digit d then Some (acc * 10 + (d - 48), Suc n) else None)"
| "digit_part acc n (d # c # cs) =
     (if \<not> is_digit d then None
      else if c = 95 then digit_part (acc * 10 + (d - 48)) (Suc n) cs
      else digit_part (acc * 10 + (d - 48)) (Suc n) (c # cs))"

definition split_sign :: "pystr \<Rightarrow> bool \<times> pystr" where
  "split_sign s = (case s of [] \<Rightarrow> (False, []) | c # cs \<Rightarrow>
     if c = 45 then (True, cs) else if c = 43 then (False, cs) else (False, s))"

definition parse_mantissa :: "pystr \<Rightarrow> rat option" where
  "parse_mantissa s = (case partition_on 46 s of
      (whole, dotted, decimals) \<Rightarrow>
        if whole = [] \<and> decimals = [] then None
        else case ((if whole = [] then Some (0, 0) else digit_part 0 0 whole),
                   (if decimals = [] then Some (0, 0) else digit_part 0 0 decimals)) of
          (Some (w, _), Some (f, n)) \<Rightarrow> Some (of_nat w + of_nat f / 10 ^ n)
        | _ \<Rightarrow> None)"

definition parse_number :: "pystr \<Rightarrow> rat option" where
  "parse_number s = (case partition_on 101 s of
      (m, False, _) \<Rightarrow> parse_mantissa m
    | (m, True, e) \<Rightarrow> (case split_sign e of (neg, ds) \<Rightarrow>
        (case (parse_mantissa m, digit_part 0 0 ds) of
           (Some v, Some (k, _)) \<Rightarrow> Some (if neg then v / 10 ^ k else v * 10 ^ k)
         | _ \<Rightarrow> None)))"

definition py_float :: "pystr \<Rightarrow> pyfloat option" where
  "py_float text = (case split_sign (lower_py (strip text)) of (neg, s) \<Rightarrow>
     if s = py ''inf'' \<or> s = py ''infinity'' then Some (if neg then NegInf else PosInf)
     else if s = py ''nan'' then Some NaN
     else map_option (\<lambda>v. Fin (if neg then - v else v)) (parse_number s))"

section \<open>Negotiation\<close>

definition media_type_of :: "pystr option \<Rightarrow> pystr" where
  "media_type_of value = lower_py (strip (fst (partition_on 59 (case value of None \<Rightarrow> [] | Some v \<Rightarrow> v))))"

definition quality_of_param :: "pyfloat \<Rightarrow> pystr \<Rightarrow> pyfloat" where
  "quality_of_param quality param = (case partition_on 61 (strip param) of (name, _, value) \<Rightarrow>
     if lower_py (strip name) = py ''q''
     then (case py_float (strip value) of None \<Rightarrow> Fin 1 | Some q \<Rightarrow> q)
     else quality)"

definition media_range_and_quality :: "pystr \<Rightarrow> pystr \<times> pyfloat" where
  "media_range_and_quality entry =
     (let params = tl (split_on 59 entry)
      in (media_type_of (Some entry), foldl quality_of_param (Fin 1) params))"

fun accepted_quality_from :: "pystr list \<Rightarrow> pystr \<Rightarrow> pyfloat \<Rightarrow> pyfloat" where
  "accepted_quality_from [] media_type wildcard = wildcard"
| "accepted_quality_from (raw_entry # entries) media_type wildcard =
     (let entry = strip raw_entry in
      if entry = [] then accepted_quality_from entries media_type wildcard
      else case media_range_and_quality entry of (type_part, quality) \<Rightarrow>
        if type_part = media_type then quality
        else if type_part = fst (partition_on 47 media_type) @ py ''/*'' \<or> type_part = py ''*/*''
        then accepted_quality_from entries media_type (float_max wildcard quality)
        else accepted_quality_from entries media_type wildcard)"

definition accepted_quality :: "pystr \<Rightarrow> pystr \<Rightarrow> pyfloat" where
  "accepted_quality accept_header media_type =
     accepted_quality_from (split_on 44 accept_header) media_type (Fin 0)"

definition prefers_html :: "'s scope \<Rightarrow> bool" where
  "prefers_html sc =
     (let accept = (case get_header sc (py ''accept'') of None \<Rightarrow> [] | Some v \<Rightarrow> v) in
      if accept = [] then False
      else float_less (accepted_quality accept (py ''application/json''))
             (accepted_quality accept (py ''text/html'')))"

section \<open>Facts\<close>

lemma prefers_html_no_accept: "getlist sc (py ''accept'') = [] \<Longrightarrow> \<not> prefers_html sc"
  by (simp add: prefers_html_def get_header_def)

lemma float_less_irrefl [simp]: "\<not> float_less a a"
  by (cases a) auto

lemma float_less_trans: "float_less a b \<Longrightarrow> float_less b c \<Longrightarrow> float_less a c"
  by (cases a; cases b; cases c) auto

lemma float_max_upper: "\<not> float_less (float_max a b) a"
  by (cases a; cases b) (auto simp: float_max_def)

end
