(* ===== verification/Origins.thy ===== *)
theory Origins
  imports Connection
begin

text \<open>
  \<open>webauth/_origins.py\<close>: whether an \<open>Origin\<close> names a host this application serves, over
  \<open>urllib.parse\<close> as Python 3.14 defines it: \<open>urlsplit\<close>, its check of bracketed hosts, and the
  \<open>hostname\<close>, \<open>port\<close> and user-information readers. \<open>urlparse\<close> differs from \<open>urlsplit\<close> in the path
  alone. Its normalisation check refuses a network location only for characters beyond
  Latin-1, which no header value has.
\<close>

section \<open>Splitting a URL\<close>

record url_parts =
  up_scheme :: pystr
  up_netloc :: pystr
  up_path :: pystr
  up_query :: pystr
  up_fragment :: pystr

definition is_alpha_ascii :: "nat \<Rightarrow> bool" where
  "is_alpha_ascii c \<longleftrightarrow> is_lower_ascii c \<or> is_upper_ascii c"

definition is_scheme_char :: "nat \<Rightarrow> bool" where
  "is_scheme_char c \<longleftrightarrow> is_alnum_ascii c \<or> c = 43 \<or> c = 45 \<or> c = 46"

text \<open>An address in brackets may name a zone, which \<open>ipaddress\<close> takes off first.\<close>

definition is_bracketed_ipv6 :: "pystr \<Rightarrow> bool" where
  "is_bracketed_ipv6 host = (case partition_on 37 host of
      (address, zoned, zone) \<Rightarrow>
        (zoned \<longrightarrow> zone \<noteq> [] \<and> 37 \<notin> set zone) \<and> parse_ipv6 address \<noteq> None)"

definition is_hex :: "nat \<Rightarrow> bool" where
  "is_hex c \<longleftrightarrow> hex_value c \<noteq> None"

definition is_ipv_future :: "pystr \<Rightarrow> bool" where
  "is_ipv_future host = (case partition_on 46 (tl host) of
      (version, dotted, rest) \<Rightarrow> dotted \<and> version \<noteq> [] \<and> list_all is_hex version \<and> rest \<noteq> [] \<and> 10 \<notin> set rest)"

definition bracketed_host_ok :: "pystr \<Rightarrow> bool" where
  "bracketed_host_ok host = (if startswith host [118] then is_ipv_future host else is_bracketed_ipv6 host)"

definition bracketed_netloc_ok :: "pystr \<Rightarrow> bool" where
  "bracketed_netloc_ok netloc =
     (let host_and_port = snd (snd (rpartition_on 64 netloc)) in
      case partition_on 91 host_and_port of
        (before_bracket, True, bracketed) \<Rightarrow>
          (case partition_on 93 bracketed of (host, _, port) \<Rightarrow>
            before_bracket = [] \<and> (port = [] \<or> startswith port [58]) \<and> bracketed_host_ok host)
      | (_, False, _) \<Rightarrow> bracketed_host_ok (fst (partition_on 58 host_and_port)))"

definition split_scheme :: "pystr \<Rightarrow> pystr \<times> pystr" where
  "split_scheme url = (case partition_on 58 url of
      (s, True, rest) \<Rightarrow>
        if s \<noteq> [] \<and> is_alpha_ascii (hd s) \<and> list_all is_scheme_char s then (lower_py s, rest) else ([], url)
    | _ \<Rightarrow> ([], url))"

definition is_netloc_end :: "nat \<Rightarrow> bool" where
  "is_netloc_end c \<longleftrightarrow> c = 47 \<or> c = 63 \<or> c = 35"

definition urlsplit :: "pystr \<Rightarrow> exn + url_parts" where
  "urlsplit text =
     (let url = filter (\<lambda>c. c \<noteq> 9 \<and> c \<noteq> 13 \<and> c \<noteq> 10) (dropWhile (\<lambda>c. c \<le> 32) text);
          (scheme, url) = split_scheme url;
          (netloc, url) = (if startswith url [47, 47]
             then (takeWhile (\<lambda>c. \<not> is_netloc_end c) (drop 2 url), dropWhile (\<lambda>c. \<not> is_netloc_end c) (drop 2 url))
             else ([], url));
          (url, _, fragment) = partition_on 35 url;
          (path, _, query) = partition_on 63 url
      in if (91 \<in> set netloc) \<noteq> (93 \<in> set netloc) then Inl ValueError
         else if 91 \<in> set netloc \<and> \<not> bracketed_netloc_ok netloc then Inl ValueError
         else Inr \<lparr>up_scheme = scheme, up_netloc = netloc, up_path = path, up_query = query,
                   up_fragment = fragment\<rparr>)"

definition has_userinfo :: "url_parts \<Rightarrow> bool" where
  "has_userinfo u \<longleftrightarrow> 64 \<in> set (up_netloc u)"

definition hostinfo :: "url_parts \<Rightarrow> pystr \<times> pystr option" where
  "hostinfo u =
     (let info = snd (snd (rpartition_on 64 (up_netloc u)));
          (host, port) = (case partition_on 91 info of
              (_, True, bracketed) \<Rightarrow> (case partition_on 93 bracketed of
                  (h, _, after) \<Rightarrow> (h, snd (snd (partition_on 58 after))))
            | (_, False, _) \<Rightarrow> (case partition_on 58 info of (h, _, p) \<Rightarrow> (h, p)))
      in (host, if port = [] then None else Some port))"

definition hostname :: "url_parts \<Rightarrow> pystr option" where
  "hostname u = (case fst (hostinfo u) of
      [] \<Rightarrow> None
    | h \<Rightarrow> (case partition_on 37 h of
        (name, zoned, zone) \<Rightarrow> Some (lower_py name @ (if zoned then 37 # zone else []))))"

definition url_port :: "url_parts \<Rightarrow> exn + nat option" where
  "url_port u = (case snd (hostinfo u) of
      None \<Rightarrow> Inr None
    | Some p \<Rightarrow>
        if \<not> list_all is_digit p then Inl ValueError
        else if 65535 < dec_value 0 p then Inl ValueError
        else Inr (Some (dec_value 0 p)))"

section \<open>The decision\<close>

definition origin_is_allowed :: "pystr \<Rightarrow> 's web_auth_config \<Rightarrow> bool" where
  "origin_is_allowed origin cfg = (case urlsplit origin of
      Inl _ \<Rightarrow> False
    | Inr parsed \<Rightarrow> (case url_port parsed of
        Inl _ \<Rightarrow> False
      | Inr port \<Rightarrow> (case hostname parsed of
          None \<Rightarrow> False
        | Some host \<Rightarrow>
            if host = [] \<or> has_userinfo parsed then False
            else if cf_cookie_secure cfg \<and> up_scheme parsed \<noteq> py ''https'' then False
            else
              let host = (if 58 \<in> set host then 91 # host @ [93] else host);
                  host_and_port = (case port of None \<Rightarrow> host | Some p \<Rightarrow> host @ 58 # nat_dec p)
              in host_and_port \<in> cf_allowed_hosts_exact cfg \<or> host \<in> cf_allowed_hosts_exact cfg)))"

datatype OriginVerdict = ABSENT | ALLOWED | FOREIGN

definition origin_verdict :: "'s scope \<Rightarrow> 's web_auth_config \<Rightarrow> OriginVerdict" where
  "origin_verdict sc cfg = (case getlist sc (py ''origin'') of
      [] \<Rightarrow> ABSENT
    | [o1] \<Rightarrow> if \<not> origin_is_allowed o1 cfg then FOREIGN else ALLOWED
    | _ \<Rightarrow> FOREIGN)"

section \<open>Origins as browsers write them\<close>

definition plain_host :: "pystr \<Rightarrow> bool" where
  "plain_host h \<longleftrightarrow> h \<noteq> [] \<and> list_all (\<lambda>c. is_lower_ascii c \<or> is_digit c \<or> c = 45 \<or> c = 46) h"

definition plain_scheme :: "pystr \<Rightarrow> bool" where
  "plain_scheme s \<longleftrightarrow> s \<noteq> [] \<and> list_all is_lower_ascii s"

lemma plain_host_chars:
  "plain_host h \<Longrightarrow> x \<in> set h \<Longrightarrow> 32 < x \<and> x \<noteq> 58 \<and> x \<noteq> 64 \<and> x \<noteq> 91 \<and> x \<noteq> 93 \<and> x \<noteq> 37 \<and> \<not> is_netloc_end x
     \<and> lower_char x = x"
  by (auto simp: plain_host_def list_all_iff is_netloc_end_def lower_char_def char_class_defs)

lemma plain_scheme_chars:
  "plain_scheme s \<Longrightarrow> x \<in> set s \<Longrightarrow> 32 < x \<and> x \<noteq> 58 \<and> is_scheme_char x \<and> lower_char x = x \<and> is_alpha_ascii x"
  by (auto simp: plain_scheme_def list_all_iff is_scheme_char_def is_alpha_ascii_def lower_char_def char_class_defs)

lemma lower_py_ident: "\<forall>x\<in>set s. lower_char x = x \<Longrightarrow> lower_py s = s"
  by (simp add: lower_py_def map_idI)

text \<open>The network location of a browser's origin: a host, and a port or none.\<close>

definition port_suffix :: "nat option \<Rightarrow> pystr" where
  "port_suffix p = (case p of None \<Rightarrow> [] | Some n \<Rightarrow> 58 # nat_dec n)"

lemma port_suffix_chars: "x \<in> set (port_suffix p) \<Longrightarrow> x = 58 \<or> is_digit x"
  by (auto simp: port_suffix_def dest: nat_dec_digits split: option.splits)

lemma urlsplit_plain:
  assumes "plain_scheme s" and n: "\<forall>x\<in>set n. 32 < x \<and> x \<noteq> 91 \<and> x \<noteq> 93 \<and> \<not> is_netloc_end x"
  shows "urlsplit (s @ [58, 47, 47] @ n) = Inr \<lparr>up_scheme = s,
    up_netloc = n, up_path = [], up_query = [], up_fragment = []\<rparr>"
proof -
  let ?u = "s @ 58 # [47, 47] @ n"
  have s: "32 < x \<and> x \<noteq> 58 \<and> is_scheme_char x \<and> lower_char x = x \<and> is_alpha_ascii x" if "x \<in> set s" for x
    using plain_scheme_chars[OF assms(1) that] .
  have "s \<noteq> []" using assms(1) by (simp add: plain_scheme_def)
  have all: "32 < x" if "x \<in> set ?u" for x using that n s by auto
  have "\<not> hd ?u \<le> 32" using all[of "hd ?u"] \<open>s \<noteq> []\<close> by (simp add: not_le)
  then have drop: "dropWhile (\<lambda>c. c \<le> 32) ?u = ?u" by (intro dropWhile_ident disjI2)
  have keep: "filter (\<lambda>c. c \<noteq> 9 \<and> c \<noteq> 13 \<and> c \<noteq> 10) ?u = ?u"
    using all by (intro filter_True) force
  have "partition_on 58 ?u = (s, True, [47, 47] @ n)" using s by (intro partition_on_first) auto
  then have scheme: "split_scheme ?u = (s, [47, 47] @ n)"
    using s \<open>s \<noteq> []\<close> lower_py_ident[of s]
    by (auto simp: split_scheme_def list_all_iff)
  have "takeWhile (\<lambda>c. \<not> is_netloc_end c) n = n" "dropWhile (\<lambda>c. \<not> is_netloc_end c) n = []"
    using n by (auto simp: takeWhile_eq_all_conv dropWhile_eq_Nil_conv)
  note cut = this
  have "91 \<notin> set n" "93 \<notin> set n" using n by blast+
  then have "urlsplit ?u = Inr \<lparr>up_scheme = s, up_netloc = n, up_path = [], up_query = [], up_fragment = []\<rparr>"
    unfolding urlsplit_def Let_def drop keep scheme by (simp add: startswith_simps cut)
  then show ?thesis by simp
qed

lemma urlsplit_origin:
  assumes "plain_scheme s" and "plain_host h"
  shows "urlsplit (s @ [58, 47, 47] @ h @ port_suffix p) = Inr \<lparr>up_scheme = s,
    up_netloc = h @ port_suffix p, up_path = [], up_query = [], up_fragment = []\<rparr>"
proof (rule urlsplit_plain[OF assms(1)], intro ballI)
  fix x assume "x \<in> set (h @ port_suffix p)"
  then show "32 < x \<and> x \<noteq> 91 \<and> x \<noteq> 93 \<and> \<not> is_netloc_end x"
    using plain_host_chars[OF assms(2)] port_suffix_chars by (fastforce simp: is_digit_def is_netloc_end_def)
qed

lemma hostinfo_origin:
  assumes "plain_host h" and "up_netloc u = h @ port_suffix p"
  shows "hostinfo u = (h, map_option nat_dec p)" and "\<not> has_userinfo u"
proof -
  note h = plain_host_chars[OF assms(1)]
  have port: "x \<noteq> 64 \<and> x \<noteq> 91" if "x \<in> set (port_suffix p)" for x
    using port_suffix_chars[OF that] by (auto simp: is_digit_def)
  have at: "64 \<notin> set (up_netloc u)" and bracket: "91 \<notin> set (up_netloc u)"
    using h port by (auto simp: assms(2))
  show "\<not> has_userinfo u" using at by (simp add: has_userinfo_def)
  have colon: "58 \<notin> set h" using h by blast
  have "partition_on 58 (h @ port_suffix p) = (h, p \<noteq> None, case p of None \<Rightarrow> [] | Some n \<Rightarrow> nat_dec n)"
    using colon by (cases p) (simp_all add: port_suffix_def partition_on_first partition_on_none)
  then show "hostinfo u = (h, map_option nat_dec p)"
    unfolding hostinfo_def Let_def rpartition_on_none[OF at] snd_conv
    using bracket by (cases p) (simp_all add: assms(2) partition_on_none)
qed

lemma hostname_origin:
  assumes "plain_host h" and "hostinfo u = (h, q)"
  shows "hostname u = Some h"
proof -
  note h = plain_host_chars[OF assms(1)]
  have "37 \<notin> set h" using h by blast
  moreover have "lower_py h = h" using h by (intro lower_py_ident) blast
  moreover obtain a as where "h = a # as" using assms(1) by (cases h) (auto simp: plain_host_def)
  ultimately show ?thesis by (simp add: hostname_def assms(2) partition_on_none)
qed

section \<open>Properties\<close>

text \<open>Which origins pass: for every origin as a browser writes it, a scheme, a lower-case host
  name and a port or none, the decision is that the scheme is https while cookies are secure, that
  the port is one, and that the host or the host with that very port is listed.\<close>

theorem origin_allowed_iff_listed:
  assumes "plain_scheme s" and "plain_host h"
  shows "origin_is_allowed (s @ py ''://'' @ h @ port_suffix p) cfg \<longleftrightarrow>
    (cf_cookie_secure cfg \<longrightarrow> s = py ''https'') \<and> (case p of None \<Rightarrow> True | Some n \<Rightarrow> n \<le> 65535)
    \<and> (h \<in> cf_allowed_hosts_exact cfg \<or> h @ port_suffix p \<in> cf_allowed_hosts_exact cfg)"
proof -
  obtain u where u: "urlsplit (s @ py ''://'' @ h @ port_suffix p) = Inr u" "up_scheme u = s"
    "up_netloc u = h @ port_suffix p"
    using urlsplit_origin[OF assms, of p] by (simp add: py_eval)
  note info = hostinfo_origin[OF assms(2) u(3)]
  have host: "hostname u = Some h" by (rule hostname_origin[OF assms(2) info(1)])
  have h: "58 \<notin> set h" "h \<noteq> []"
    using plain_host_chars[OF assms(2)] assms(2) by (auto simp: plain_host_def)
  have "list_all is_digit (nat_dec n)" for n
    by (simp add: list_all_iff nat_dec_digits)
  then have "url_port u = (case p of None \<Rightarrow> Inr None | Some n \<Rightarrow> if 65535 < n then Inl ValueError else Inr (Some n))"
    by (simp add: url_port_def info(1) split: option.split)
  then show ?thesis
    using info(2) h unfolding origin_is_allowed_def u(1)
    by (cases p) (auto simp: host u(2) Let_def port_suffix_def)
qed

lemma origin_allowed_iff_listed_witness:
  "origin_is_allowed (py ''https'' @ py ''://'' @ py ''app.example'' @ port_suffix (Some 8443))
     (sample_config :: unit web_auth_config)
   \<and> \<not> origin_is_allowed (py ''http'' @ py ''://'' @ py ''app.example'' @ port_suffix None)
     (sample_config :: unit web_auth_config)"
proof -
  have "plain_scheme (py ''https'')" "plain_scheme (py ''http'')" "plain_host (py ''app.example'')"
    by (simp_all add: plain_scheme_def plain_host_def text_eval)
  note iff = origin_allowed_iff_listed[OF this(1,3), of "Some 8443" "sample_config :: unit web_auth_config"]
    origin_allowed_iff_listed[OF this(2,3), of None "sample_config :: unit web_auth_config"]
  show ?thesis unfolding iff by (simp add: sample_config_def)
qed

end
