(* ===== verification/Paths.thy ===== *)
theory Paths
  imports Connection Encoding
begin

text \<open>
  \<open>webauth/_paths.py\<close>: which addresses a browser may be sent back to. \<open>quote\<close> and
  \<open>quote_from_bytes\<close> of \<open>urllib.parse\<close> are given by their safe set; \<open>bytes.decode\<close> with
  \<open>surrogateescape\<close> is the standard library's: a byte that belongs to no well-formed UTF-8
  sequence becomes the lone surrogate \<open>0xDC00 + byte\<close>.
\<close>

section \<open>Bytes and text\<close>

definition hex_digit_upper :: "nat \<Rightarrow> nat" where
  "hex_digit_upper n = (if n < 10 then 48 + n else 55 + n)"

definition quote_bytes :: "(nat \<Rightarrow> bool) \<Rightarrow> nat list \<Rightarrow> pystr" where
  "quote_bytes safe bs =
     concat (map (\<lambda>b. if safe b then [b] else [37, hex_digit_upper (b div 16), hex_digit_upper (b mod 16)]) bs)"

section \<open>The rules\<close>

definition MAX_RETURN_PATH_BYTES :: nat where "MAX_RETURN_PATH_BYTES = 512"

definition another_host_prefixes :: "pystr list" where
  "another_host_prefixes = [[47, 47], [47, 92], [92, 47], [92, 92]]"

definition reads_as_another_host :: "pystr \<Rightarrow> bool" where
  "reads_as_another_host path \<longleftrightarrow>
     startswith_any (filter (\<lambda>c. c \<noteq> 9 \<and> c \<noteq> 13 \<and> c \<noteq> 10) path) another_host_prefixes"

definition is_control :: "nat \<Rightarrow> bool" where
  "is_control c \<longleftrightarrow> c < 32 \<or> c = 127"

definition is_plain_root_char :: "nat \<Rightarrow> bool" where
  "is_plain_root_char c \<longleftrightarrow> is_alnum_ascii c \<or> c \<in> {45, 46, 95, 126, 47}"

definition ascii_form :: "pystr \<Rightarrow> exn + pystr" where
  "ascii_form path = bindR (utf8_encode path) (\<lambda>bs. Inr (quote_bytes (\<lambda>b. 33 \<le> b \<and> b \<le> 126) bs))"

definition carries_root :: "nat list \<Rightarrow> nat list \<Rightarrow> bool" where
  "carries_root raw_path root_bytes =
     (if root_bytes = [] \<or> \<not> startswith raw_path root_bytes then root_bytes = []
      else take 1 (drop (length root_bytes) raw_path) \<in> {[], [47]})"

text \<open>\<open>re.split\<close> on a slash or a backslash; \<open>is_dot_segment\<close> is one or two dots, each literal or
  percent-encoded in either case.\<close>

definition path_segments :: "pystr \<Rightarrow> pystr list" where
  "path_segments path = split_on 47 (map (\<lambda>c. if c = 92 then 47 else c) path)"

definition dot_forms :: "pystr list" where
  "dot_forms = [[46], [37, 50, 101]]"

definition is_dot_segment :: "pystr \<Rightarrow> bool" where
  "is_dot_segment s \<longleftrightarrow> (let l = map (\<lambda>c. if c = 69 then 101 else c) s in
     l \<in> set dot_forms \<or> (\<exists>a\<in>set dot_forms. \<exists>b\<in>set dot_forms. l = a @ b))"

definition has_dot_segment :: "pystr \<Rightarrow> bool" where
  "has_dot_segment path \<longleftrightarrow> list_ex is_dot_segment (path_segments path)"

definition is_under :: "pystr \<Rightarrow> pystr \<Rightarrow> bool" where
  "is_under root_path path \<longleftrightarrow>
     root_path = [] \<or> path = root_path \<or> startswith_any path [root_path @ [47], root_path @ [63]]"

definition same_app_path :: "'s scope \<Rightarrow> pystr option \<Rightarrow> pystr option" where
  "same_app_path sc candidate = (case candidate of
      None \<Rightarrow> None
    | Some c \<Rightarrow>
        if c = [] \<or> \<not> startswith c [47] \<or> list_ex is_control c then None
        else if 35 \<in> set c \<or> reads_as_another_host c then None
        else (case ascii_form c of
            Inl _ \<Rightarrow> None
          | Inr encoded \<Rightarrow>
              if \<not> list_all is_plain_root_char (sc_root_path sc) \<or> \<not> is_under (sc_root_path sc) encoded then None
              else if has_dot_segment (fst (partition_on 63 encoded)) then None
              else if length encoded \<le> MAX_RETURN_PATH_BYTES then Some encoded
              else None))"

definition requested_address :: "'s scope \<Rightarrow> exn + pystr" where
  "requested_address sc =
     bindR (if sc_raw_path sc \<noteq> [] then Inr (sc_raw_path sc)
            else bindR (utf8_encode (sc_path sc)) (\<lambda>bs.
              Inr (quote_bytes (\<lambda>b. is_alnum_ascii b \<or> b \<in> {95, 46, 45, 126, 47}) bs))) (\<lambda>raw_path.
     bindR (utf8_encode (sc_root_path sc)) (\<lambda>root_bytes.
       let raw_path = (if \<not> carries_root raw_path root_bytes then root_bytes @ raw_path else raw_path);
           address = utf8_decode_escape raw_path;
           query = utf8_decode_escape (sc_query_string sc)
       in Inr (if query \<noteq> [] then address @ 63 # query else address)))"

section \<open>What the encoded form keeps\<close>

lemma quote_bytes_append: "quote_bytes safe (a @ b) = quote_bytes safe a @ quote_bytes safe b"
  by (simp add: quote_bytes_def)

definition encoded_char :: "nat \<Rightarrow> pystr" where
  "encoded_char c = quote_bytes (\<lambda>b. 33 \<le> b \<and> b \<le> 126) (utf8_char c)"

lemma ascii_form_eq:
  "ascii_form path = (if list_all is_scalar path then Inr (concat (map encoded_char path)) else Inl ValueError)"
proof -
  have "quote_bytes safe (concat (map utf8_char path)) = concat (map (\<lambda>c. quote_bytes safe (utf8_char c)) path)" for safe
    by (induction path) (simp_all add: quote_bytes_append, simp add: quote_bytes_def)
  then show ?thesis by (simp add: ascii_form_def utf8_encode_def encoded_char_def[abs_def])
qed

lemma encoded_char_safe: "33 \<le> c \<Longrightarrow> c \<le> 126 \<Longrightarrow> encoded_char c = [c]"
  by (simp add: encoded_char_def utf8_char_def quote_bytes_def)

text \<open>Every other character starts with a percent sign and goes on with hexadecimal digits.\<close>

lemma hex_digit_upper_range: "n < 16 \<Longrightarrow> is_digit (hex_digit_upper n) \<or> is_upper_ascii (hex_digit_upper n)"
  by (auto simp: hex_digit_upper_def char_class_defs)

lemma encoded_char_percent:
  assumes "is_scalar c" and "\<not> (33 \<le> c \<and> c \<le> 126)"
  shows "\<exists>rest. encoded_char c = 37 # rest" "x \<in> set (encoded_char c) \<Longrightarrow> x = 37 \<or> is_digit x \<or> is_upper_ascii x"
proof -
  have bytes: "\<not> (33 \<le> b \<and> b \<le> 126) \<and> b < 256" if "b \<in> set (utf8_char c)" for b
  proof (cases "c < 128")
    case True
    with that assms(2) show ?thesis by (auto simp: utf8_char_ascii)
  next
    case False
    then have "128 \<le> b \<and> b < 256" by (intro utf8_char_bytes[OF assms(1) _ that]) simp
    then show ?thesis by auto
  qed
  then have q: "encoded_char c =
      concat (map (\<lambda>b. [37, hex_digit_upper (b div 16), hex_digit_upper (b mod 16)]) (utf8_char c))"
    unfolding encoded_char_def quote_bytes_def by (intro arg_cong[where f = concat] map_cong) auto
  moreover have "utf8_char c \<noteq> []" by (simp add: utf8_char_def)
  ultimately show "\<exists>rest. encoded_char c = 37 # rest" by (cases "utf8_char c") auto
  have "b div 16 < 16" if "b \<in> set (utf8_char c)" for b using bytes[OF that] by (simp add: less_mult_imp_div_less)
  then show "x = 37 \<or> is_digit x \<or> is_upper_ascii x" if "x \<in> set (encoded_char c)"
  proof -
    from that obtain b where "b \<in> set (utf8_char c)"
      "x \<in> set [37, hex_digit_upper (b div 16), hex_digit_upper (b mod 16)]"
      unfolding q set_concat set_map by blast
    then have "b \<in> set (utf8_char c)"
      "x \<in> {37, hex_digit_upper (b div 16), hex_digit_upper (b mod 16)}" by simp_all
    then show ?thesis using hex_digit_upper_range \<open>\<And>b. b \<in> set (utf8_char c) \<Longrightarrow> b div 16 < 16\<close>
      by (metis empty_iff insert_iff mod_less_divisor zero_less_numeral)
  qed
qed

lemma encoded_chars_printable:
  assumes "is_scalar c" and "x \<in> set (encoded_char c)"
  shows "33 \<le> x \<and> x \<le> 126 \<and> (x = c \<or> x = 37 \<or> is_digit x \<or> is_upper_ascii x)"
proof (cases "33 \<le> c \<and> c \<le> 126")
  case True
  with assms(2) show ?thesis by (simp add: encoded_char_safe)
next
  case False
  from encoded_char_percent(2)[OF assms(1) this assms(2)] show ?thesis by (auto simp: char_class_defs)
qed

section \<open>A return path stays on the site\<close>

lemma same_app_pathD:
  assumes "same_app_path sc cand = Some p"
  obtains c where "cand = Some c" "startswith c [47]" "\<not> list_ex is_control c" "35 \<notin> set c"
    "\<not> reads_as_another_host c" "list_all is_scalar c" "p = concat (map encoded_char c)"
    "list_all is_plain_root_char (sc_root_path sc)" "is_under (sc_root_path sc) p"
    "\<not> has_dot_segment (fst (partition_on 63 p))" "length p \<le> 512"
  using assms
  by (auto simp: same_app_path_def ascii_form_eq MAX_RETURN_PATH_BYTES_def split: option.splits if_splits)

lemma encoded_printable:
  assumes "list_all is_scalar c" and "x \<in> set (concat (map encoded_char c))"
  shows "33 \<le> x \<and> x \<le> 126 \<and> (x \<in> set c \<or> x = 37 \<or> is_digit x \<or> is_upper_ascii x)"
proof -
  obtain y where "y \<in> set c" "x \<in> set (encoded_char y)" using assms(2) by auto
  with encoded_chars_printable[of y x] assms(1) show ?thesis by (auto simp: list_all_iff)
qed

lemma encoded_concat_again:
  assumes "\<forall>x\<in>set p. 33 \<le> x \<and> x \<le> 126"
  shows "list_all is_scalar p" and "concat (map encoded_char p) = p"
  using assms by (induction p) (auto simp: is_scalar_def encoded_char_safe)

lemma not_another_host_encoded:
  assumes c: "startswith c [47]" and "\<not> list_ex is_control c" and "\<not> reads_as_another_host c"
    and "list_all is_scalar c"
  shows "startswith (concat (map encoded_char c)) [47] \<and> \<not> reads_as_another_host (concat (map encoded_char c))"
proof -
  let ?p = "concat (map encoded_char c)"
  have strip: "filter (\<lambda>c. c \<noteq> 9 \<and> c \<noteq> 13 \<and> c \<noteq> 10) s = s" if "\<forall>x\<in>set s. 13 < x" for s :: pystr
    using that by (intro filter_True) auto
  obtain d where d: "c = 47 # d" using c by (cases c) (auto simp: startswith_simps)
  have p: "?p = 47 # concat (map encoded_char d)"
    by (simp add: d encoded_char_safe)
  have "startswith ?p [47]" unfolding p by (simp add: startswith_simps)
  moreover have "\<forall>x\<in>set ?p. 13 < x" using encoded_printable[OF assms(4)] by fastforce
  moreover have "\<forall>x\<in>set c. 13 < x" using assms(2) by (force simp: list_ex_iff is_control_def)
  moreover have "concat (map encoded_char d) = [] \<or> hd (concat (map encoded_char d)) \<notin> {47, 92}"
  proof (cases d)
    case (Cons x xs)
    have x: "x \<noteq> 47" "x \<noteq> 92"
      using assms(3) \<open>\<forall>x\<in>set c. 13 < x\<close>
      by (auto simp: reads_as_another_host_def strip d Cons startswith_any_def another_host_prefixes_def startswith_simps)
    have "is_scalar x" using assms(4) by (simp add: d Cons)
    show ?thesis
    proof (cases "33 \<le> x \<and> x \<le> 126")
      case True
      with x show ?thesis by (simp add: Cons encoded_char_safe)
    next
      case False
      from encoded_char_percent(1)[OF \<open>is_scalar x\<close> False] show ?thesis by (auto simp: Cons)
    qed
  qed simp
  moreover have "\<not> startswith_any (47 # q) another_host_prefixes" if "q = [] \<or> hd q \<notin> {47, 92}" for q
    using that by (cases q) (auto simp: startswith_any_def another_host_prefixes_def startswith_simps)
  ultimately show ?thesis
    unfolding p reads_as_another_host_def by (simp only: strip simp_thms)
qed

section \<open>Properties\<close>

text \<open>C24. A return path never leads off the site. Whatever a client asked to come back to, the path
  the library keeps starts with one slash that no browser reads as the start of a host name, is
  printable ASCII without a fragment, lies under the application's own root path, has no dot
  segment before its query, is at most 512 characters long, and is kept unchanged when it is
  judged again on its way back from the cookie.\<close>

theorem return_path_stays_on_site:
  assumes "same_app_path sc candidate = Some p"
  shows "startswith p [47] \<and> \<not> reads_as_another_host p
    \<and> (\<forall>x\<in>set p. 33 \<le> x \<and> x \<le> 126 \<and> x \<noteq> 35)
    \<and> is_under (sc_root_path sc) p \<and> \<not> has_dot_segment (fst (partition_on 63 p))
    \<and> length p \<le> 512 \<and> same_app_path sc (Some p) = Some p"
proof -
  obtain c where c: "startswith c [47]" "\<not> list_ex is_control c" "35 \<notin> set c"
    "\<not> reads_as_another_host c" "list_all is_scalar c" and p: "p = concat (map encoded_char c)"
    and root: "list_all is_plain_root_char (sc_root_path sc)" and rest: "is_under (sc_root_path sc) p"
      "\<not> has_dot_segment (fst (partition_on 63 p))" "length p \<le> 512"
    by (rule same_app_pathD[OF assms])
  have site: "startswith p [47] \<and> \<not> reads_as_another_host p"
    unfolding p by (rule not_another_host_encoded[OF c(1,2,4,5)])
  have chars: "33 \<le> x \<and> x \<le> 126 \<and> x \<noteq> 35" if "x \<in> set p" for x
    using encoded_printable[OF c(5), of x] that c(3) unfolding p by (auto simp: char_class_defs)
  then have "ascii_form p = Inr p"
    using encoded_concat_again[of p] by (simp add: ascii_form_eq)
  moreover have "p \<noteq> []" using site by (auto simp: startswith_simps)
  moreover have "\<not> list_ex is_control p" using chars by (force simp: list_ex_iff is_control_def)
  ultimately have "same_app_path sc (Some p) = Some p"
    using site chars root rest by (auto simp: same_app_path_def MAX_RETURN_PATH_BYTES_def)
  with site chars rest show ?thesis by blast
qed

lemma return_path_stays_on_site_witness:
  "same_app_path (sample_scope [] :: unit scope) (Some (47 # 233 # py ''?x=1'')) = Some (py ''/%C3%A9?x=1'')
   \<and> \<not> reads_as_another_host (py ''/%C3%A9?x=1'')"
proof -
  have "same_app_path (sample_scope [] :: unit scope) (Some (47 # 233 # py ''?x=1'')) = Some (py ''/%C3%A9?x=1'')"
    by (simp add: same_app_path_def sample_scope_def is_control_def reads_as_another_host_def
        another_host_prefixes_def ascii_form_def utf8_encode_def is_scalar_def utf8_char_def quote_bytes_def
        hex_digit_upper_def is_under_def has_dot_segment_def path_segments_def is_dot_segment_def
        dot_forms_def MAX_RETURN_PATH_BYTES_def text_eval)
  with return_path_stays_on_site show ?thesis by blast
qed

end
