(* ===== verification/Urls.thy ===== *)
theory Urls
  imports Origins Paths
begin

text \<open>
  What the library uses of \<open>urllib.parse\<close> beside \<open>urlsplit\<close>, as Python 3.14 defines it: form and
  query encoding (\<open>urlencode\<close>, \<open>quote_plus\<close>) and their reading (\<open>parse_qsl\<close>, \<open>unquote_plus\<close>), with
  the two error modes the library asks for; and \<open>is_https_url\<close> of \<open>webauth/https_client.py\<close>.
\<close>

section \<open>Encoding\<close>

definition quote_plus :: "pystr \<Rightarrow> exn + pystr" where
  "quote_plus s = bindR (utf8_encode s) (\<lambda>bs.
     Inr (map (\<lambda>c. if c = 32 then 43 else c)
       (quote_bytes (\<lambda>b. is_alnum_ascii b \<or> b \<in> {95, 46, 45, 126, 32}) bs)))"

definition urlencode_pair :: "pystr \<Rightarrow> pystr \<Rightarrow> exn + pystr" where
  "urlencode_pair k v = bindR (quote_plus k) (\<lambda>a. bindR (quote_plus v) (\<lambda>b. Inr (a @ 61 # b)))"

definition urlencode :: "(pystr \<times> pystr) list \<Rightarrow> exn + pystr" where
  "urlencode form = bindR (mapR (\<lambda>(k, v). urlencode_pair k v) form) (\<lambda>pairs. Inr (join_with [38] pairs))"

section \<open>Decoding\<close>

definition hex_digit_value :: "nat \<Rightarrow> nat option" where
  "hex_digit_value c =
     (if is_digit c then Some (c - 48)
      else if 97 \<le> c \<and> c \<le> 102 then Some (c - 87)
      else if 65 \<le> c \<and> c \<le> 70 then Some (c - 55)
      else None)"

text \<open>\<open>unquote_to_bytes\<close> of ASCII text: a percent sign that two hex digits do not follow stays.\<close>

fun unquote_to_bytes :: "pystr \<Rightarrow> nat list" where
  "unquote_to_bytes [] = []"
| "unquote_to_bytes (c # cs) =
     (if c = 37 then (case cs of
         a # b # rest \<Rightarrow> (case (hex_digit_value a, hex_digit_value b) of
             (Some x, Some y) \<Rightarrow> (16 * x + y) # unquote_to_bytes rest
           | _ \<Rightarrow> c # unquote_to_bytes cs)
       | _ \<Rightarrow> c # unquote_to_bytes cs)
      else c # unquote_to_bytes cs)"

text \<open>How a run of bytes that is no UTF-8 is read: refused, or kept as lone surrogates.\<close>

datatype decode_errors = Strict_Errors | Surrogate_Escape

fun decode_run :: "decode_errors \<Rightarrow> nat list \<Rightarrow> exn + pystr" where
  "decode_run Strict_Errors bs = utf8_decode bs"
| "decode_run Surrogate_Escape bs = Inr (utf8_decode_escape bs)"

text \<open>\<open>unquote\<close>: every maximal run of ASCII is unquoted and decoded on its own.\<close>

function unquote_runs :: "decode_errors \<Rightarrow> pystr \<Rightarrow> exn + pystr" where
  "unquote_runs m s = (case s of
      [] \<Rightarrow> Inr []
    | c # cs \<Rightarrow>
        if 128 \<le> c then bindR (unquote_runs m cs) (\<lambda>rest. Inr (c # rest))
        else bindR (decode_run m (unquote_to_bytes (takeWhile (\<lambda>x. x < 128) s))) (\<lambda>run.
             bindR (unquote_runs m (dropWhile (\<lambda>x. x < 128) s)) (\<lambda>rest. Inr (run @ rest))))"
  by pat_completeness auto
termination
  by (relation "measure (\<lambda>(m, s). length s)") (auto intro: le_imp_less_Suc length_dropWhile_le)

declare unquote_runs.simps [simp del]

definition unquote_plus :: "decode_errors \<Rightarrow> pystr \<Rightarrow> exn + pystr" where
  "unquote_plus m s =
     (let spaced = map (\<lambda>c. if c = 43 then 32 else c) s
      in if 37 \<in> set spaced then unquote_runs m spaced else Inr spaced)"

text \<open>\<open>parse_qsl\<close> keeping blank values, as every caller asks; \<open>strict\<close> is \<open>strict_parsing\<close>.\<close>

definition parse_field :: "bool \<Rightarrow> decode_errors \<Rightarrow> pystr \<Rightarrow> exn + (pystr \<times> pystr) list" where
  "parse_field strict m name_value =
     (if name_value = [] \<and> \<not> strict then Inr []
      else case partition_on 61 name_value of
        (name, has_eq, v) \<Rightarrow>
          if \<not> has_eq \<and> strict then Inl ValueError
          else bindR (unquote_plus m name) (\<lambda>n. bindR (unquote_plus m v) (\<lambda>w. Inr [(n, w)])))"

definition parse_qsl :: "bool \<Rightarrow> decode_errors \<Rightarrow> pystr \<Rightarrow> exn + (pystr \<times> pystr) list" where
  "parse_qsl strict m qs =
     (if qs = [] then Inr []
      else bindR (mapR (parse_field strict m) (split_on 38 qs)) (\<lambda>fs. Inr (concat fs)))"

section \<open>Reading what was written\<close>

lemma hex_digit_value_upper: "n < 16 \<Longrightarrow> hex_digit_value (hex_digit_upper n) = Some n"
  by (auto simp: hex_digit_value_def hex_digit_upper_def is_digit_def)

lemma hex_digit_upper_plain: "n < 16 \<Longrightarrow> hex_digit_upper n \<notin> {37, 38, 43, 61} \<and> hex_digit_upper n < 128"
  by (auto simp: hex_digit_upper_def)

lemma unquote_to_bytes_quote:
  "\<forall>b\<in>set bs. b < 256 \<Longrightarrow> \<not> safe 37 \<Longrightarrow> unquote_to_bytes (quote_bytes safe bs) = bs"
proof (induction bs)
  case (Cons b bs)
  then have "unquote_to_bytes (quote_bytes safe bs) = bs" by simp
  moreover have "b div 16 < 16" "b mod 16 < 16" using Cons.prems(1) by auto
  ultimately show ?case
    using Cons.prems by (auto simp: quote_bytes_def hex_digit_value_upper)
qed (simp add: quote_bytes_def)

lemma quote_bytes_chars:
  assumes "c \<in> set (quote_bytes safe bs)" and "\<forall>b\<in>set bs. b < 256"
  shows "c = 37 \<or> safe c \<or> (is_digit c \<or> is_upper_ascii c)"
proof -
  obtain b where b: "b \<in> set bs" "c \<in> set (if safe b then [b] else [37, hex_digit_upper (b div 16), hex_digit_upper (b mod 16)])"
    using assms(1) unfolding quote_bytes_def set_concat set_map by blast
  then have "b div 16 < 16" "b mod 16 < 16" using assms(2) by auto
  with b(2) show ?thesis
    using hex_digit_upper_range[of "b div 16"] hex_digit_upper_range[of "b mod 16"] by (auto split: if_splits)
qed

definition is_form_char :: "nat \<Rightarrow> bool" where
  "is_form_char c \<longleftrightarrow> c < 128 \<and> c \<noteq> 38 \<and> c \<noteq> 61"

lemma quote_plus_chars: "quote_plus s = Inr q \<Longrightarrow> c \<in> set q \<Longrightarrow> is_form_char c"
proof -
  assume "quote_plus s = Inr q" "c \<in> set q"
  then obtain bs where bs: "utf8_encode s = Inr bs"
    and q: "q = map (\<lambda>c. if c = 32 then 43 else c) (quote_bytes (\<lambda>b. is_alnum_ascii b \<or> b \<in> {95, 46, 45, 126, 32}) bs)"
    by (auto simp: quote_plus_def)
  obtain d where c: "c = (if d = 32 then 43 else d)"
    and d: "d \<in> set (quote_bytes (\<lambda>b. is_alnum_ascii b \<or> b \<in> {95, 46, 45, 126, 32}) bs)"
    using \<open>c \<in> set q\<close> unfolding q set_map by blast
  have "\<forall>b\<in>set bs. b < 256" using utf8_encode_bytes[OF bs] by blast
  from quote_bytes_chars[OF d this] show "is_form_char c"
    by (auto simp: c is_form_char_def char_class_defs)
qed

lemma unquote_runs_ascii:
  assumes "isascii s"
  shows "unquote_runs m s = (if s = [] then Inr [] else decode_run m (unquote_to_bytes s))"
proof (cases s)
  case Nil
  then show ?thesis by (simp add: unquote_runs.simps)
next
  case (Cons c cs)
  have ascii: "\<forall>x\<in>set s. x < 128" using assms by (simp add: isascii_def list_all_iff)
  then have "takeWhile (\<lambda>x. x < 128) (c # cs) = s" "dropWhile (\<lambda>x. x < 128) (c # cs) = []" "\<not> 128 \<le> c"
    unfolding Cons[symmetric] using Cons by simp_all
  moreover have "unquote_runs m [] = Inr []" by (simp add: unquote_runs.simps)
  moreover have "bindR r Inr = r" for r :: "exn + pystr" by (cases r) simp_all
  ultimately have "unquote_runs m (c # cs) = decode_run m (unquote_to_bytes s)"
    by (subst unquote_runs.simps) (simp only: list.case if_False append_Nil2 bindR_simps)
  with Cons show ?thesis by simp
qed

lemma unquote_quote_plus:
  assumes "quote_plus s = Inr q"
  shows "unquote_plus Strict_Errors q = Inr s"
proof -
  let ?safe = "\<lambda>b. is_alnum_ascii b \<or> b \<in> {95, 46, 45, 126, 32}"
  obtain bs where bs: "utf8_encode s = Inr bs" and q: "q = map (\<lambda>c. if c = 32 then 43 else c) (quote_bytes ?safe bs)"
    using assms by (auto simp: quote_plus_def)
  have small: "\<forall>b\<in>set bs. b < 256" using utf8_encode_bytes[OF bs] by blast
  have chars: "c < 128 \<and> c \<noteq> 43" if "c \<in> set (quote_bytes ?safe bs)" for c
    using quote_bytes_chars[OF that small] by (auto simp: char_class_defs)
  then have plain: "map (\<lambda>c. if c = 43 then 32 else c) q = quote_bytes ?safe bs"
    unfolding q map_map by (intro map_idI) auto
  have "isascii (quote_bytes ?safe bs)" using chars by (simp add: isascii_def list_all_iff)
  note runs = unquote_runs_ascii[OF this, of Strict_Errors]
  have bytes: "unquote_to_bytes (quote_bytes ?safe bs) = bs"
    using small by (intro unquote_to_bytes_quote) (simp_all add: char_class_defs)
  show ?thesis
  proof (cases "37 \<in> set (quote_bytes ?safe bs)")
    case True
    then have "unquote_runs Strict_Errors (quote_bytes ?safe bs) = Inr s"
      using runs bytes utf8_decode_encode[OF bs] by auto
    with True show ?thesis unfolding unquote_plus_def plain by simp
  next
    case False
    then have "\<forall>b\<in>set bs. ?safe b" by (auto simp: quote_bytes_def split: if_splits)
    then have same: "quote_bytes ?safe bs = bs" and "isascii bs"
      by (induction bs) (auto simp: quote_bytes_def isascii_def char_class_defs)
    then have "s = bs" using utf8_encode_inj[OF bs utf8_encode_ascii] by simp
    with False same show ?thesis unfolding unquote_plus_def plain by simp
  qed
qed

lemma parse_field_urlencode_pair:
  assumes "urlencode_pair k v = Inr p"
  shows "parse_field True Strict_Errors p = Inr [(k, v)]" "38 \<notin> set p"
proof -
  obtain a b where a: "quote_plus k = Inr a" and b: "quote_plus v = Inr b" and p: "p = a @ 61 # b"
    using assms by (auto simp: urlencode_pair_def)
  have "61 \<notin> set a" using quote_plus_chars[OF a] by (auto simp: is_form_char_def)
  then show "parse_field True Strict_Errors p = Inr [(k, v)]"
    by (simp add: parse_field_def p partition_on_first unquote_quote_plus[OF a] unquote_quote_plus[OF b])
  show "38 \<notin> set p" using quote_plus_chars[OF a] quote_plus_chars[OF b] by (auto simp: p is_form_char_def)
qed

lemma split_on_join_1:
  assumes "\<forall>x\<in>set xs. c \<notin> set x" and "xs \<noteq> []"
  shows "split_on c (join_with [c] xs) = xs"
  using assms
proof (induction xs)
  case (Cons x xs)
  then show ?case by (cases "xs = []") (simp_all add: split_on_none join_with_Cons split_on_append)
qed simp

text \<open>What \<open>urlencode\<close> writes, \<open>parse_qsl\<close> reads back, in its strictest mode and pair by pair.\<close>

lemma parse_qsl_urlencode:
  assumes "urlencode form = Inr query"
  shows "parse_qsl True Strict_Errors query = Inr form"
proof -
  obtain ps where ps: "mapR (\<lambda>(k, v). urlencode_pair k v) form = Inr ps" and query: "query = join_with [38] ps"
    using assms by (auto simp: urlencode_def)
  then have all: "list_all2 (\<lambda>(k, v) p. urlencode_pair k v = Inr p) form ps"
    by (simp add: mapR_Inr case_prod_unfold)
  show ?thesis
  proof (cases "form = []")
    case True
    with all query show ?thesis by (simp add: parse_qsl_def)
  next
    case False
    have no_sep: "\<forall>p\<in>set ps. 38 \<notin> set p"
    proof
      fix p assume "p \<in> set ps"
      from mapR_InrD[OF ps this] obtain kv where "(case kv of (k, v) \<Rightarrow> urlencode_pair k v) = Inr p" ..
      then have "urlencode_pair (fst kv) (snd kv) = Inr p" by (simp add: case_prod_unfold)
      then show "38 \<notin> set p" by (rule parse_field_urlencode_pair(2))
    qed
    have "ps \<noteq> []" using all False by auto
    have fields_ok: "mapR (parse_field True Strict_Errors) ps = Inr (map (\<lambda>x. [x]) form)"
      using all unfolding mapR_Inr
      by (induction form ps rule: list_all2_induct) (auto simp: parse_field_urlencode_pair(1))
    have "query \<noteq> []"
    proof
      assume "query = []"
      then have "ps = [[]]" using split_on_join_1[OF no_sep \<open>ps \<noteq> []\<close>] query by simp
      with all show False by (auto simp: list_all2_Cons2 urlencode_pair_def)
    qed
    then show ?thesis
      using fields_ok split_on_join_1[OF no_sep \<open>ps \<noteq> []\<close>] by (simp add: parse_qsl_def query)
  qed
qed

section \<open>An https URL\<close>

definition is_url_control_or_space :: "nat \<Rightarrow> bool" where
  "is_url_control_or_space c \<longleftrightarrow> c \<le> 32 \<or> (127 \<le> c \<and> c \<le> 159)"

definition is_https_text :: "pystr \<Rightarrow> bool" where
  "is_https_text url =
     (if list_ex is_url_control_or_space url then False
      else case urlsplit url of
        Inl _ \<Rightarrow> False
      | Inr origin \<Rightarrow> (case url_port origin of
          Inl _ \<Rightarrow> False
        | Inr _ \<Rightarrow> up_scheme origin = py ''https''
            \<and> (case hostname origin of None \<Rightarrow> False | Some h \<Rightarrow> h \<noteq> [])
            \<and> \<not> has_userinfo origin))"

fun is_https_url :: "pyobj \<Rightarrow> bool" where
  "is_https_url (PyStr url) = is_https_text url"
| "is_https_url _ = False"

end
