(* ===== verification/Admission.thy ===== *)
theory Admission
  imports Validation
begin

text \<open>
  \<open>webauth/admission.py\<close>: who gets into an app and as which role. \<open>unicodedata.category\<close> is
  the Unicode database, a parameter \<open>category_forbidden\<close> of the group-path check: whether a
  character's category is \<open>Cc\<close>, \<open>Cf\<close>, \<open>Zl\<close> or \<open>Zp\<close>.
\<close>

datatype login_group = LoginGroup pystr | EverySubject
datatype admin_group = AdminGroup pystr | NoAdmins

record admission_config =
  bound_issuer :: pystr
  login_group :: login_group
  admin_group :: admin_group

definition require_group_path :: "(nat \<Rightarrow> bool) \<Rightarrow> pystr \<Rightarrow> exn + unit" where
  "require_group_path category_forbidden path =
     (let segments = split_on 47 path in
      if hd segments \<noteq> [] \<or> length segments < 2 \<or> \<not> list_all (\<lambda>s. s \<noteq> []) (tl segments)
      then Inl ValueError
      else if list_ex (\<lambda>s. s \<noteq> strip s) segments then Inl ValueError
      else if list_ex category_forbidden path then Inl ValueError
      else Inr ())"

definition is_below :: "pystr \<Rightarrow> pystr \<Rightarrow> bool" where
  "is_below group_path grp \<longleftrightarrow> startswith grp (group_path @ [47])"

definition is_member_of :: "pystr \<Rightarrow> pystr list \<Rightarrow> bool" where
  "is_member_of group_path groups \<longleftrightarrow>
     (\<exists>grp\<in>set groups. grp = group_path \<or> is_below group_path grp)"

text \<open>The \<open>__post_init__\<close> of \<open>AdmissionConfig\<close>; a group that is no \<open>str\<close> (and no member of the
  enumeration) is \<open>None\<close>.\<close>

definition AdmissionConfig ::
    "(nat \<Rightarrow> bool) \<Rightarrow> pystr \<Rightarrow> login_group option \<Rightarrow> admin_group option \<Rightarrow> exn + admission_config"
  where
  "AdmissionConfig category_forbidden issuer login admin =
     bindR (case login of
         None \<Rightarrow> Inl ValueError
       | Some EverySubject \<Rightarrow> Inr ()
       | Some (LoginGroup g) \<Rightarrow> require_group_path category_forbidden g) (\<lambda>_.
     bindR (case admin of
         None \<Rightarrow> Inl ValueError
       | Some NoAdmins \<Rightarrow> Inr ()
       | Some (AdminGroup a) \<Rightarrow>
           bindR (require_group_path category_forbidden a) (\<lambda>_.
             (case login of
                Some (LoginGroup g) \<Rightarrow> check (is_below g a) ValueError
              | _ \<Rightarrow> Inr ()))) (\<lambda>_.
       Inr \<lparr>bound_issuer = issuer, login_group = the login, admin_group = the admin\<rparr>))"

datatype app_role = ADMIN | USER

fun role_value :: "app_role \<Rightarrow> pystr" where
  "role_value ADMIN = py ''admin''"
| "role_value USER = py ''user''"

definition app_role :: "pystr list \<Rightarrow> admission_config \<Rightarrow> app_role option" where
  "app_role groups admission =
     (if (case login_group admission of
            LoginGroup g \<Rightarrow> \<not> is_member_of g groups | EverySubject \<Rightarrow> False)
      then None
      else if (case admin_group admission of
            AdminGroup a \<Rightarrow> is_member_of a groups | NoAdmins \<Rightarrow> False)
      then Some ADMIN
      else Some USER)"

datatype admission_refusal = FOREIGN_ISSUER | NOT_A_MEMBER | USERNAME_TAKEN

section \<open>Membership\<close>

lemma is_below_refl [simp]: "\<not> is_below g g"
  by (auto simp: is_below_def startswith_def dest: prefix_length_le)

lemma is_below_trans: "is_below a b \<Longrightarrow> is_below b c \<Longrightarrow> is_below a c"
  by (auto simp: is_below_def startswith_def prefix_def)

lemma is_member_of_below:
  "is_below g a \<Longrightarrow> is_member_of a groups \<Longrightarrow> is_member_of g groups"
  by (auto simp: is_member_of_def dest: is_below_trans)

lemma is_member_of_mono: "set gs \<subseteq> set hs \<Longrightarrow> is_member_of g gs \<Longrightarrow> is_member_of g hs"
  by (auto simp: is_member_of_def)

lemma is_member_of_Nil [simp]: "\<not> is_member_of g []"
  by (simp add: is_member_of_def)

lemma is_member_of_set: "set gs = set hs \<Longrightarrow> is_member_of g gs = is_member_of g hs"
  by (simp add: is_member_of_def)

lemma app_role_set: "set gs = set hs \<Longrightarrow> app_role gs cfg = app_role hs cfg"
  by (simp add: app_role_def is_member_of_set[of gs hs] split: login_group.split admin_group.split)

lemma AdmissionConfig_below:
  assumes "AdmissionConfig cf issuer login admin = Inr cfg"
    and "login_group cfg = LoginGroup g" and "admin_group cfg = AdminGroup a"
  shows "is_below g a"
  using assms by (auto simp: AdmissionConfig_def split: option.splits login_group.splits admin_group.splits)

text \<open>The segments of a path are what the rule compares: a group is below another exactly when
  its segments extend the other's.\<close>

lemma is_below_segments:
  "is_below g h \<longleftrightarrow> (\<exists>rest. rest \<noteq> [] \<and> split_on 47 h = split_on 47 g @ rest)"
proof
  assume "is_below g h"
  then obtain r where "h = g @ 47 # r" by (auto simp: is_below_def elim: startswithE)
  then have "split_on 47 h = split_on 47 g @ split_on 47 r" by (simp add: split_on_append_sep)
  then show "\<exists>rest. rest \<noteq> [] \<and> split_on 47 h = split_on 47 g @ rest"
    by (intro exI[of _ "split_on 47 r"]) simp
next
  assume "\<exists>rest. rest \<noteq> [] \<and> split_on 47 h = split_on 47 g @ rest"
  then obtain rest where rest: "rest \<noteq> []" and "split_on 47 h = split_on 47 g @ rest" by blast
  then have "join_with [47] (split_on 47 h) = join_with [47] (split_on 47 g) @ [47] @ join_with [47] rest"
    by (simp only: join_with_append[OF split_on_not_Nil rest])
  then have "h = g @ [47] @ join_with [47] rest" by (simp only: join_split)
  then show "is_below g h" by (simp add: is_below_def startswith_def)
qed

lemma is_member_of_segments:
  "is_member_of h groups \<longleftrightarrow>
     (\<exists>grp\<in>set groups. \<exists>rest. split_on 47 grp = split_on 47 h @ rest)"
proof -
  have "grp = h \<or> is_below h grp \<longleftrightarrow> (\<exists>rest. split_on 47 grp = split_on 47 h @ rest)" for grp
    unfolding is_below_segments by (metis append_Nil2 join_split)
  then show ?thesis by (simp add: is_member_of_def)
qed

section \<open>Properties\<close>

text \<open>C28. The role of a sign-in, from the group paths alone: under a configuration that was accepted,
  an account is an admin exactly when one of its groups is the admin group or has its segments as a
  proper prefix, and every admin is also a member of the login group, so binding an admin group
  never admits anybody the login group would not.\<close>

theorem admins_are_members_below:
  assumes "AdmissionConfig category_forbidden issuer (Some (LoginGroup g)) (Some (AdminGroup a)) = Inr cfg"
  shows "(app_role groups cfg = Some ADMIN \<longleftrightarrow>
      (\<exists>grp\<in>set groups. \<exists>rest. split_on 47 grp = split_on 47 a @ rest))
    \<and> (app_role groups cfg = None \<longleftrightarrow>
      \<not> (\<exists>grp\<in>set groups. \<exists>rest. split_on 47 grp = split_on 47 g @ rest))"
proof -
  have cfg: "login_group cfg = LoginGroup g" "admin_group cfg = AdminGroup a"
    using assms by (auto simp: AdmissionConfig_def)
  have "is_below g a" by (rule AdmissionConfig_below[OF assms cfg])
  then have "is_member_of a groups \<Longrightarrow> is_member_of g groups" by (rule is_member_of_below)
  then show ?thesis by (auto simp: app_role_def cfg is_member_of_segments)
qed

lemma admins_are_members_below_witness:
  "\<exists>cfg. AdmissionConfig (\<lambda>_. False) [] (Some (LoginGroup (py ''/app''))) (Some (AdminGroup (py ''/app/ops'')))
      = Inr cfg
    \<and> (app_role [py ''/app/ops/lead''] cfg = Some ADMIN \<longleftrightarrow>
        (\<exists>grp\<in>set [py ''/app/ops/lead'']. \<exists>rest. split_on 47 grp = split_on 47 (py ''/app/ops'') @ rest))"
proof -
  have "\<exists>cfg. AdmissionConfig (\<lambda>_. False) [] (Some (LoginGroup (py ''/app'')))
      (Some (AdminGroup (py ''/app/ops''))) = Inr cfg"
    by (simp add: AdmissionConfig_def require_group_path_def is_below_def text_eval)
  then show ?thesis using admins_are_members_below[THEN conjunct1] by blast
qed

end
