(* ===== verification/HostStores.thy ===== *)
theory HostStores
  imports Ports
begin

text \<open>
  What the library relies on of a host's session store, as the locale \<open>session_contract\<close>, and the
  store the repository itself supplies for its tests, \<open>SessionRecordsInMemory\<close> and
  \<open>UsersInMemory\<close> of \<open>tests/support/webauth_arrangement.py\<close>, as its provider. The accounts are
  mutable objects the sessions share: \<open>mem_heap\<close> holds them, and a session names its account by
  position. \<open>mem_lock\<close> is the write lock: absent, or held or not.
\<close>

section \<open>The in-memory store\<close>

record memory_session =
  ms_user :: nat
  ms_created_at :: int
  ms_expires_at :: int
  ms_refresh_token :: "pystr option"
  ms_id_token :: "pystr option"

record memory =
  mem_lock :: "bool option"
  mem_heap :: "user_record list"
  mem_users :: "pystr \<rightharpoonup> nat"
  mem_usernames :: "pystr set"
  mem_records :: "(pystr \<times> memory_session) list"
  mem_next_id :: nat

definition UnknownAccount :: exn where "UnknownAccount = HostError 1"
definition LockNotHeld :: exn where "LockNotHeld = HostError 2"

definition require_held_lock :: "(memory, unit) act" where
  "require_held_lock = (\<lambda>m. if mem_lock m = Some False then (Inl LockNotHeld, m) else (Inr (), m))"

definition view_session :: "memory \<Rightarrow> pystr \<Rightarrow> memory_session \<Rightarrow> session_record" where
  "view_session m sid r =
     \<lparr>sr_id = sid, sr_user = mem_heap m ! ms_user r, sr_created_at = utc_datetime (ms_created_at r),
      sr_expires_at = utc_datetime (ms_expires_at r), sr_refresh_token = ms_refresh_token r,
      sr_id_token = ms_id_token r\<rparr>"

definition mem_load :: "pystr \<Rightarrow> (memory, session_record option) act" where
  "mem_load sid = (\<lambda>m. (Inr (map_option (view_session m sid) (map_of (mem_records m) sid)), m))"

text \<open>Writing a field of a stored record, in place.\<close>

definition write_record :: "pystr \<Rightarrow> (memory_session \<Rightarrow> memory_session) \<Rightarrow> memory \<Rightarrow> memory" where
  "write_record sid f m = m\<lparr>mem_records := map (\<lambda>(k, r). (k, if k = sid then f r else r)) (mem_records m)\<rparr>"

definition mem_touch :: "pystr \<Rightarrow> int \<Rightarrow> (memory, host_answer) act" where
  "mem_touch sid expires_at = (\<lambda>m. case map_of (mem_records m) sid of
      None \<Rightarrow> (Inr (BoolAnswer False), m)
    | Some _ \<Rightarrow> (Inr (BoolAnswer True), write_record sid (\<lambda>r. r\<lparr>ms_expires_at := expires_at\<rparr>) m))"

definition mem_replace_refresh_token :: "pystr \<Rightarrow> pystr \<Rightarrow> (memory, host_answer) act" where
  "mem_replace_refresh_token sid token = (\<lambda>m. case map_of (mem_records m) sid of
      None \<Rightarrow> (Inr (BoolAnswer False), m)
    | Some _ \<Rightarrow> (Inr (BoolAnswer True), write_record sid (\<lambda>r. r\<lparr>ms_refresh_token := Some token\<rparr>) m))"

definition remove_record :: "pystr \<Rightarrow> memory \<Rightarrow> memory" where
  "remove_record sid m = m\<lparr>mem_records := filter (\<lambda>(k, r). k \<noteq> sid) (mem_records m)\<rparr>"

definition mem_delete :: "pystr \<Rightarrow> (memory, unit) act" where
  "mem_delete sid = bindA require_held_lock (\<lambda>_. \<lambda>m. (Inr (), remove_record sid m))"

definition sessions_of :: "memory \<Rightarrow> pystr \<Rightarrow> (pystr \<times> memory_session) list" where
  "sessions_of m user_id = filter (\<lambda>(k, r). ur_id (mem_heap m ! ms_user r) = user_id) (mem_records m)"

definition mem_delete_for_user :: "pystr \<Rightarrow> (memory, int) act" where
  "mem_delete_for_user user_id = (\<lambda>m. let ss = sessions_of m user_id in
     (Inr (int (length ss)), foldl (\<lambda>m (k, r). remove_record k m) m ss))"

text \<open>\<open>sorted(..., reverse=True)\<close> is stable: equal keys keep their order.\<close>

definition sorted_newest_first :: "(pystr \<times> memory_session) list \<Rightarrow> (pystr \<times> memory_session) list" where
  "sorted_newest_first rs = rev (sort_key (\<lambda>(k, r). ms_created_at r) (rev rs))"

definition slice_from :: "int \<Rightarrow> 'a list \<Rightarrow> 'a list" where
  "slice_from n xs = (if 0 \<le> n then drop (nat n) xs else drop (length xs - nat (- n)) xs)"

definition mem_prune_overflow :: "pystr \<Rightarrow> int \<Rightarrow> (memory, unit) act" where
  "mem_prune_overflow user_id keep_newest = bindA require_held_lock (\<lambda>_. \<lambda>m.
     (Inr (), foldl (\<lambda>m (k, r). remove_record k m) m
        (slice_from keep_newest (sorted_newest_first (sessions_of m user_id)))))"

definition session_name :: "nat \<Rightarrow> pystr" where
  "session_name n = py ''session-'' @ nat_dec n"

text \<open>The counter skips names that are taken; one of the next \<open>length + 1\<close> names is free.\<close>

definition next_free :: "memory \<Rightarrow> nat" where
  "next_free m = (case find (\<lambda>n. session_name n \<notin> fst ` set (mem_records m))
       [mem_next_id m ..< mem_next_id m + length (mem_records m) + 1] of
     Some n \<Rightarrow> n | None \<Rightarrow> mem_next_id m)"

definition mem_create ::
    "pystr \<Rightarrow> int \<Rightarrow> int \<Rightarrow> pystr option \<Rightarrow> pystr option \<Rightarrow> (memory, session_record) act" where
  "mem_create user_id now expires_at refresh_token id_token = bindA require_held_lock (\<lambda>_. \<lambda>m.
     case mem_users m user_id of
       None \<Rightarrow> (Inl UnknownAccount, m)
     | Some u \<Rightarrow>
         let n = next_free m;
             r = \<lparr>ms_user = u, ms_created_at = now, ms_expires_at = expires_at,
                  ms_refresh_token = refresh_token, ms_id_token = id_token\<rparr>
         in (Inr (view_session m (session_name n) r),
             m\<lparr>mem_records := mem_records m @ [(session_name n, r)], mem_next_id := Suc n\<rparr>))"

definition memory_session_store :: "memory session_store" where
  "memory_session_store = \<lparr>ss_create = mem_create, ss_load = mem_load, ss_touch = mem_touch,
     ss_replace_refresh_token = mem_replace_refresh_token, ss_delete = mem_delete,
     ss_delete_for_user = mem_delete_for_user, ss_prune_overflow = mem_prune_overflow\<rparr>"

section \<open>The in-memory accounts\<close>

definition mem_get :: "pystr \<Rightarrow> (memory, user_record option) act" where
  "mem_get user_id = (\<lambda>m. (Inr (map_option (\<lambda>u. mem_heap m ! u) (mem_users m user_id)), m))"

definition mem_create_for_subject :: "pystr \<Rightarrow> pystr \<Rightarrow> pystr \<Rightarrow> (memory, user_record) act" where
  "mem_create_for_subject subject username r = bindA require_held_lock (\<lambda>_. \<lambda>m.
     if username \<in> mem_usernames m then (Inl UsernameTaken, m)
     else let user = \<lparr>ur_id = subject, ur_username = username, ur_role = r\<rparr> in
       (Inr user, m\<lparr>mem_heap := mem_heap m @ [user],
          mem_users := (mem_users m)(subject \<mapsto> length (mem_heap m)),
          mem_usernames := insert username (mem_usernames m)\<rparr>))"

definition mem_set_role :: "pystr \<Rightarrow> pystr \<Rightarrow> (memory, user_record) act" where
  "mem_set_role user_id r = bindA require_held_lock (\<lambda>_. \<lambda>m.
     case mem_users m user_id of
       None \<Rightarrow> (Inl KeyError, m)
     | Some u \<Rightarrow> let user = (mem_heap m ! u)\<lparr>ur_role := r\<rparr> in
         (Inr user, m\<lparr>mem_heap := (mem_heap m)[u := user]\<rparr>))"

definition memory_user_store :: "memory subject_user_store" where
  "memory_user_store = \<lparr>us_get = mem_get, us_create_for_subject = mem_create_for_subject,
     us_set_role = mem_set_role\<rparr>"

section \<open>The contract of a session store\<close>

text \<open>
  \<open>lookup\<close> is the store's content as the library reads it. \<open>ok\<close> is the host's own condition on its
  state (a held lock, say). \<open>load\<close> reads it; \<open>touch\<close> renews an existing row in place and never
  creates one; \<open>delete\<close> ends one session; \<open>create\<close> adds one under a new id.
\<close>

locale session_contract =
  fixes store :: "'s session_store"
    and lookup :: "'s \<Rightarrow> pystr \<Rightarrow> session_record option"
    and ok :: "'s \<Rightarrow> bool"
  assumes load: "ss_load store sid s = (Inr (lookup s sid), s)"
    and touch_missing: "lookup s sid = None \<Longrightarrow> ss_touch store sid e s = (Inr (BoolAnswer False), s)"
    and touch_present: "lookup s sid = Some r \<Longrightarrow> \<exists>s'. ss_touch store sid e s = (Inr (BoolAnswer True), s')
      \<and> lookup s' = (lookup s)(sid \<mapsto> r\<lparr>sr_expires_at := utc_datetime e\<rparr>)"
    and touch_ok: "ok s \<Longrightarrow> ok (snd (ss_touch store sid e s))"
    and delete: "ok s \<Longrightarrow> \<exists>s'. ss_delete store sid s = (Inr (), s') \<and> ok s' \<and> lookup s' = (lookup s)(sid := None)"
    and create_fresh: "ok s \<Longrightarrow> ss_create store user now e rt it s = (Inr r, s') \<Longrightarrow>
      ok s' \<and> lookup s (sr_id r) = None \<and> lookup s' = (lookup s)(sr_id r \<mapsto> r)
      \<and> sr_created_at r = utc_datetime now \<and> sr_expires_at r = utc_datetime e \<and> ur_id (sr_user r) = user"

section \<open>The in-memory store meets it\<close>

definition mem_lookup :: "memory \<Rightarrow> pystr \<Rightarrow> session_record option" where
  "mem_lookup m sid = map_option (view_session m sid) (map_of (mem_records m) sid)"

definition mem_ok :: "memory \<Rightarrow> bool" where
  "mem_ok m \<longleftrightarrow> mem_lock m \<noteq> Some False \<and> distinct (map fst (mem_records m))
     \<and> (\<forall>r\<in>set (mem_records m). ms_user (snd r) < length (mem_heap m))
     \<and> (\<forall>uid u. mem_users m uid = Some u \<longrightarrow> u < length (mem_heap m) \<and> ur_id (mem_heap m ! u) = uid)"

lemma map_of_write:
  "map_of (map (\<lambda>(k, r). (k, if k = sid then f r else r)) rs) k =
     (if k = sid then map_option f (map_of rs k) else map_of rs k)"
  by (induction rs) auto

lemma view_records [simp]: "view_session (m\<lparr>mem_records := rs\<rparr>) = view_session m"
  by (rule ext)+ (simp add: view_session_def)

lemma view_write [simp]: "view_session (write_record sid f m) = view_session m"
  by (rule ext)+ (simp add: view_session_def write_record_def)

lemma mem_lookup_write:
  "mem_lookup (write_record sid f m) k =
     (if k = sid then map_option (\<lambda>r. view_session m k (f r)) (map_of (mem_records m) k) else mem_lookup m k)"
  unfolding mem_lookup_def view_write
  by (simp add: write_record_def map_of_write option.map_comp comp_def)

lemma mem_lookup_remove: "mem_lookup (remove_record sid m) = (mem_lookup m)(sid := None)"
proof
  fix k
  have "map_of (filter (\<lambda>(k, r). k \<noteq> sid) rs) k = (if k = sid then None else map_of rs k)" for rs :: "(pystr \<times> memory_session) list"
    by (induction rs) auto
  then show "mem_lookup (remove_record sid m) k = ((mem_lookup m)(sid := None)) k"
    by (auto simp: mem_lookup_def remove_record_def view_session_def)
qed

lemma session_name_inj: "session_name a = session_name b \<longleftrightarrow> a = b"
  by (simp add: session_name_def nat_dec_inj)

lemma next_free_fresh: "session_name (next_free m) \<notin> fst ` set (mem_records m)"
proof -
  let ?taken = "fst ` set (mem_records m)"
  let ?is = "[mem_next_id m ..< mem_next_id m + length (mem_records m) + 1]"
  have "\<exists>n\<in>set ?is. session_name n \<notin> ?taken"
  proof (rule ccontr)
    assume "\<not> ?thesis"
    then have "session_name ` set ?is \<subseteq> ?taken" by auto
    then have "card (session_name ` set ?is) \<le> card ?taken" by (intro card_mono) auto
    also have "\<dots> \<le> length (mem_records m)" by (metis card_length length_map set_map)
    also have "card (session_name ` set ?is) = card (set ?is)"
      by (rule card_image) (simp add: inj_on_def session_name_inj)
    also have "\<dots> = length (mem_records m) + 1" by (simp only: distinct_upt distinct_card length_upt)
    finally show False by simp
  qed
  then have "find (\<lambda>n. session_name n \<notin> ?taken) ?is \<noteq> None" by (simp only: find_None_iff) blast
  then obtain n where n: "find (\<lambda>n. session_name n \<notin> ?taken) ?is = Some n" by blast
  then have "session_name n \<notin> ?taken" by (auto simp: find_Some_iff)
  with n show ?thesis by (simp add: next_free_def del: upt_Suc Un_iff image_iff)
qed

lemma mem_ok_write: "(\<And>r. ms_user (f r) = ms_user r) \<Longrightarrow> mem_ok (write_record sid f m) = mem_ok m"
proof -
  assume "\<And>r. ms_user (f r) = ms_user r"
  then have "ms_user (snd (case r of (k, r) \<Rightarrow> (k, if k = sid then f r else r))) = ms_user (snd r)" for r
    by (simp split: prod.split)
  moreover
  have "fst \<circ> (\<lambda>(k, r). (k, if k = sid then f r else r)) = fst" by (rule ext) auto
  ultimately show "mem_ok (write_record sid f m) = mem_ok m" by (simp add: mem_ok_def write_record_def)
qed

interpretation memory: session_contract memory_session_store mem_lookup mem_ok
proof
  fix s sid e r
  show "ss_load memory_session_store sid s = (Inr (mem_lookup s sid), s)"
    by (simp add: memory_session_store_def mem_load_def mem_lookup_def)
  show "ss_touch memory_session_store sid e s = (Inr (BoolAnswer False), s)" if "mem_lookup s sid = None"
    using that by (simp add: memory_session_store_def mem_touch_def mem_lookup_def)
  show "\<exists>s'. ss_touch memory_session_store sid e s = (Inr (BoolAnswer True), s')
      \<and> mem_lookup s' = (mem_lookup s)(sid \<mapsto> r\<lparr>sr_expires_at := utc_datetime e\<rparr>)" if present: "mem_lookup s sid = Some r"
  proof -
    obtain q where q: "map_of (mem_records s) sid = Some q" "r = view_session s sid q"
      using present by (auto simp: mem_lookup_def)
    then show ?thesis
      by (auto simp: memory_session_store_def mem_touch_def mem_lookup_write fun_eq_iff view_session_def)
  qed
  show "mem_ok (snd (ss_touch memory_session_store sid e s))" if "mem_ok s"
    using that by (auto simp: memory_session_store_def mem_touch_def mem_ok_write split: option.split)
  show "\<exists>s'. ss_delete memory_session_store sid s = (Inr (), s') \<and> mem_ok s' \<and> mem_lookup s' = (mem_lookup s)(sid := None)"
    if "mem_ok s"
  proof -
    have "mem_ok (remove_record sid s)"
      using that by (auto simp: mem_ok_def remove_record_def distinct_map_filter)
    moreover have "ss_delete memory_session_store sid s = (Inr (), remove_record sid s)"
      using that by (simp add: memory_session_store_def mem_delete_def require_held_lock_def bindA_def mem_ok_def)
    ultimately show ?thesis by (simp add: mem_lookup_remove)
  qed
next
  fix s s' user now e rt it r
  assume ok: "mem_ok s" and c: "ss_create memory_session_store user now e rt it s = (Inr r, s')"
  let ?n = "session_name (next_free s)"
  obtain u where u: "mem_users s user = Some u"
    using c by (auto simp: memory_session_store_def mem_create_def require_held_lock_def bindA_def split: if_splits option.splits)
  let ?q = "\<lparr>ms_user = u, ms_created_at = now, ms_expires_at = e, ms_refresh_token = rt, ms_id_token = it\<rparr>"
  have r: "r = view_session s ?n ?q" and s': "s' = s\<lparr>mem_records := mem_records s @ [(?n, ?q)], mem_next_id := Suc (next_free s)\<rparr>"
    using c u ok by (auto simp: memory_session_store_def mem_create_def require_held_lock_def bindA_def Let_def mem_ok_def)
  have fresh: "map_of (mem_records s) ?n = None" using next_free_fresh by (simp add: map_of_eq_None_iff)
  have "mem_ok s'" using ok next_free_fresh u by (auto simp: s' mem_ok_def)
  moreover have "mem_lookup s' = (mem_lookup s)(?n \<mapsto> r)"
    using fresh by (auto simp: s' mem_lookup_def map_add_def r view_session_def fun_eq_iff split: option.split)
  moreover have "ur_id (sr_user r) = user" using ok u by (simp add: r view_session_def mem_ok_def)
  moreover have "sr_id r = ?n" by (simp add: r view_session_def)
  ultimately show "mem_ok s' \<and> mem_lookup s (sr_id r) = None \<and> mem_lookup s' = (mem_lookup s)(sr_id r \<mapsto> r)
      \<and> sr_created_at r = utc_datetime now \<and> sr_expires_at r = utc_datetime e \<and> ur_id (sr_user r) = user"
    using fresh by (simp add: mem_lookup_def r) (simp add: view_session_def)
qed

end
