(* ===== verification/Sessions.thy ===== *)
theory Sessions
  imports Cookies MediaTypes Urls Admission HostStores
begin

text \<open>
  \<open>webauth/dependencies.py\<close>: from a signed session cookie to the account that made the request.
  What the gates leave in the scope, and who may read it, is here too. A FastAPI dependency
  answers an \<open>http_exception\<close> (the \<open>HTTPException\<close> it raises) or its value; every other
  exception is one of the action.
\<close>

section \<open>Refusals as HTTP answers\<close>

record http_exception =
  he_status :: int
  he_detail :: pystr
  he_headers :: "(pystr \<times> pystr) list"

record login_redirect =
  lr_path :: pystr
  lr_redirect_query_param :: pystr

definition LoginRedirect :: "pystr \<Rightarrow> pystr \<Rightarrow> exn + login_redirect" where
  "LoginRedirect path param =
     (if \<not> startswith path [47] \<or> reads_as_another_host path then Inl ValueError
      else Inr \<lparr>lr_path = path, lr_redirect_query_param = param\<rparr>)"

definition AUTHENTICATION_REQUIRED_DETAIL :: pystr where
  "AUTHENTICATION_REQUIRED_DETAIL = py ''Authentication required''"

definition ADMIN_REQUIRED_DETAIL :: pystr where
  "ADMIN_REQUIRED_DETAIL = py ''Admin access required''"

definition PERSON_PATH_CHALLENGE :: pystr where
  "PERSON_PATH_CHALLENGE = py ''Bearer realm='' @ [34] @ py ''api'' @ [34]"

definition PERSON_PATH_INSUFFICIENT_SCOPE :: pystr where
  "PERSON_PATH_INSUFFICIENT_SCOPE = py ''Bearer error='' @ [34] @ py ''insufficient_scope'' @ [34]"

definition challenge_headers :: "pystr option \<Rightarrow> (pystr \<times> pystr) list" where
  "challenge_headers challenge = (case challenge of
      None \<Rightarrow> []
    | Some c \<Rightarrow> [(py ''www-authenticate'', c)])"

fun detail_of_session_refusal :: "connection_refusal \<Rightarrow> exn + pystr" where
  "detail_of_session_refusal NO_SESSION = Inr AUTHENTICATION_REQUIRED_DETAIL"
| "detail_of_session_refusal INVALID_SESSION = Inr (py ''Invalid session'')"
| "detail_of_session_refusal SESSION_ENDED_OR_EXPIRED = Inr (py ''Session expired'')"
| "detail_of_session_refusal _ = Inl KeyError"

definition asked_for_address :: "'s scope \<Rightarrow> exn + pystr" where
  "asked_for_address sc = bindR (requested_address sc) (\<lambda>address.
     Inr (case same_app_path sc (Some address) of None \<Rightarrow> [47] | Some p \<Rightarrow> p))"

definition unauthenticated_without_redirect :: "'s scope \<Rightarrow> pystr \<Rightarrow> http_exception" where
  "unauthenticated_without_redirect sc detail =
     \<lparr>he_status = 401, he_detail = detail,
      he_headers = challenge_headers (if sc_person_path sc then Some PERSON_PATH_CHALLENGE else None)\<rparr>"

definition unauthenticated :: "'s scope \<Rightarrow> pystr \<Rightarrow> login_redirect option \<Rightarrow> exn + http_exception" where
  "unauthenticated sc detail login_redirect = (case login_redirect of
      Some lr \<Rightarrow>
        if prefers_html sc
        then bindR (asked_for_address sc) (\<lambda>address.
             bindR (urlencode_pair (lr_redirect_query_param lr) address) (\<lambda>query.
               Inr \<lparr>he_status = 302, he_detail = py ''Found'',
                    he_headers = [(py ''location'', lr_path lr @ 63 # query)]\<rparr>))
        else Inr (unauthenticated_without_redirect sc detail)
    | None \<Rightarrow> Inr (unauthenticated_without_redirect sc detail))"

definition http_refusal :: "'s scope \<Rightarrow> connection_refusal \<Rightarrow> login_redirect option \<Rightarrow> exn + http_exception" where
  "http_refusal sc refusal login_redirect =
     bindR (detail_of_session_refusal refusal) (\<lambda>detail. unauthenticated sc detail login_redirect)"

definition refusal_response :: "'s scope \<Rightarrow> connection_refusal \<Rightarrow> login_redirect option \<Rightarrow> exn + response" where
  "refusal_response sc refusal login_redirect =
     bindR (http_refusal sc refusal login_redirect) (\<lambda>exc.
       Inr (json_detail (he_status exc) (he_detail exc) (he_headers exc)))"

section \<open>Reading the cookie\<close>

definition read_session_cookie :: "cookie_parser \<Rightarrow> 's scope \<Rightarrow> 's web_auth_config \<Rightarrow> exn + cookie_reading" where
  "read_session_cookie parse_cookie sc cfg =
     (case cookie_values parse_cookie sc (session_cookie_name cfg) of
        [] \<Rightarrow> Inr (Inl NO_SESSION)
      | [value] \<Rightarrow>
          if value = [] \<or> MAX_SESSION_COOKIE_CHARS < length value then Inr (Inl NO_SESSION)
          else bindR (signing_key cfg) (\<lambda>key.
            bindR (verify_session_cookie value key) (\<lambda>v.
              Inr (case v of None \<Rightarrow> Inl INVALID_SESSION | Some sid \<Rightarrow> Inr sid)))
      | _ \<Rightarrow> Inr (Inl INVALID_SESSION))"

definition is_bearer_admitted :: "'s scope \<Rightarrow> bool" where
  "is_bearer_admitted sc \<longleftrightarrow> sc_bearer_admission sc \<noteq> None"

definition session_id_from_request ::
    "cookie_parser \<Rightarrow> 's scope \<Rightarrow> 's web_auth_config \<Rightarrow> exn + pystr option" where
  "session_id_from_request parse_cookie sc cfg =
     (if is_bearer_admitted sc then Inr None
      else bindR (read_session_cookie parse_cookie sc cfg) (\<lambda>reading.
        Inr (case reading of Inl _ \<Rightarrow> None | Inr sid \<Rightarrow> Some sid)))"

section \<open>Deciding a session\<close>

definition EXPIRY_TOLERANCE :: int where "EXPIRY_TOLERANCE = 60 * SECOND"

definition as_instant :: "stored_datetime \<Rightarrow> int" where
  "as_instant stored = (case dt_utcoffset stored of
      None \<Rightarrow> dt_wall stored
    | Some offset \<Rightarrow> dt_wall stored - offset)"

text \<open>\<open>int(wall_clock())\<close> cuts towards zero; \<open>fromtimestamp\<close> refuses what is outside the calendar.\<close>

definition truncate_rat :: "rat \<Rightarrow> int" where
  "truncate_rat t = (if 0 \<le> t then \<lfloor>t\<rfloor> else \<lceil>t\<rceil>)"

definition whole_second_now :: "'s web_auth_config \<Rightarrow> ('s, int) act" where
  "whole_second_now cfg =
     bindA (cf_wall_clock cfg) (\<lambda>t.
       let now = truncate_rat t * SECOND
       in if in_calendar now then ret now else raise ValueError)"

definition renewed_expiry :: "session_lifetime \<Rightarrow> int \<Rightarrow> int \<Rightarrow> exn + int" where
  "renewed_expiry lifetime now created_at =
     (let idle = idle_seconds lifetime * SECOND;
          remaining_cap = absolute_max_age_seconds lifetime * SECOND - (now - created_at)
      in datetime_add now (min idle remaining_cap))"

definition is_admitted :: "session_lifetime \<Rightarrow> session_record \<Rightarrow> int \<Rightarrow> exn + bool" where
  "is_admitted lifetime stored now =
     (let created_at = as_instant (sr_created_at stored);
          expires_at = as_instant (sr_expires_at stored)
      in bindR (datetime_add now EXPIRY_TOLERANCE) (\<lambda>tolerated.
           Inr (created_at \<le> tolerated
             \<and> now \<le> expires_at
             \<and> expires_at - now \<le> idle_seconds lifetime * SECOND + EXPIRY_TOLERANCE
             \<and> expires_at - created_at \<le> absolute_max_age_seconds lifetime * SECOND)))"

definition authenticated :: "user_record \<Rightarrow> authenticated_user" where
  "authenticated u = \<lparr>au_id = ur_id u, au_username = ur_username u, au_role = ur_role u\<rparr>"

definition admit_session :: "pystr \<Rightarrow> 's session_store \<Rightarrow> 's web_auth_config \<Rightarrow> ('s, admission) act" where
  "admit_session session_id store cfg =
     bindA (ss_load store session_id) (\<lambda>found.
     bindA (whole_second_now cfg) (\<lambda>now.
       case found of
         None \<Rightarrow> ret (Inl SESSION_ENDED_OR_EXPIRED)
       | Some r \<Rightarrow>
           bindA (liftR (is_admitted (cf_session_lifetime cfg) r now)) (\<lambda>admitted.
             if \<not> admitted then ret (Inl SESSION_ENDED_OR_EXPIRED)
             else
               bindA (liftR (renewed_expiry (cf_session_lifetime cfg) now (as_instant (sr_created_at r)))) (\<lambda>expiry.
               bindA (ss_touch store session_id expiry) (\<lambda>renewed.
                 case renewed of
                   OtherAnswer \<Rightarrow> raise TypeError
                 | BoolAnswer False \<Rightarrow> ret (Inl SESSION_ENDED_OR_EXPIRED)
                 | BoolAnswer True \<Rightarrow> ret (Inr (authenticated (sr_user r))))))))"

definition resolve_session :: "cookie_parser \<Rightarrow> 's scope \<Rightarrow> 's session_store \<Rightarrow> ('s, admission) act" where
  "resolve_session parse_cookie sc store =
     bindA (liftR (web_auth_config sc)) (\<lambda>cfg.
     bindA (liftR (read_session_cookie parse_cookie sc cfg)) (\<lambda>reading.
       case reading of
         Inl refusal \<Rightarrow> ret (Inl refusal)
       | Inr session_id \<Rightarrow> admit_session session_id store cfg))"

definition origin_refusal :: "'s scope \<Rightarrow> exn + connection_refusal option" where
  "origin_refusal sc =
     bindR (web_auth_config sc) (\<lambda>cfg.
       Inr (case origin_verdict sc cfg of
          ABSENT \<Rightarrow> Some MISSING_ORIGIN
        | FOREIGN \<Rightarrow> Some FOREIGN_ORIGIN
        | ALLOWED \<Rightarrow> None))"

definition authenticate_websocket :: "cookie_parser \<Rightarrow> 's scope \<Rightarrow> 's session_store \<Rightarrow> ('s, admission) act" where
  "authenticate_websocket parse_cookie sc store =
     bindA (liftR (origin_refusal sc)) (\<lambda>refused.
       case refused of
         Some refusal \<Rightarrow> ret (Inl refusal)
       | None \<Rightarrow> resolve_session parse_cookie sc store)"

section \<open>What the gates recorded\<close>

definition record_gate_admission :: "'s scope \<Rightarrow> 's gate_admission \<Rightarrow> 's scope" where
  "record_gate_admission sc g = sc\<lparr>sc_gate_admission := Some g\<rparr>"

definition gate_admission :: "cookie_parser \<Rightarrow> 's scope \<Rightarrow> exn + 's gate_admission option" where
  "gate_admission parse_cookie sc = (case sc_gate_admission sc of
      None \<Rightarrow> Inr None
    | Some g \<Rightarrow>
        bindR (web_auth_config sc) (\<lambda>cfg.
          if cf_instance (ga_config g) \<noteq> cf_instance cfg then Inr None
          else bindR (read_session_cookie parse_cookie sc (ga_config g)) (\<lambda>reading.
            if ga_cookie_reading g \<noteq> reading then Inr None else Inr (Some g))))"

definition authorization_digest :: "pystr \<Rightarrow> nat list" where
  "authorization_digest authorization = sha256_digest authorization"

definition record_bearer_admission :: "'s scope \<Rightarrow> principal \<Rightarrow> pystr option \<Rightarrow> exn + 's scope" where
  "record_bearer_admission sc caller resource_method =
     (case getlist sc (py ''authorization'') of
        [authorization] \<Rightarrow> Inr (sc\<lparr>sc_bearer_admission := Some
          \<lparr>ba_app = app_id (sc_app sc), ba_path = sc_path sc,
           ba_authorization_digest = authorization_digest authorization, ba_principal = caller,
           ba_resource_method = resource_method\<rparr>\<rparr>)
      | _ \<Rightarrow> Inl ValueError)"

definition is_resource_admission :: "bearer_admission \<Rightarrow> bool" where
  "is_resource_admission b \<longleftrightarrow> ba_resource_method b \<noteq> None"

definition bearer_admission :: "'s scope \<Rightarrow> bearer_admission option" where
  "bearer_admission sc = (case sc_bearer_admission sc of
      None \<Rightarrow> None
    | Some b \<Rightarrow> (case getlist sc (py ''authorization'') of
        [authorization] \<Rightarrow>
          if ba_app b \<noteq> app_id (sc_app sc) \<or> ba_path b \<noteq> sc_path sc
             \<or> (is_resource_admission b \<and> ba_resource_method b \<noteq> Some (sc_method sc))
             \<or> ba_authorization_digest b \<noteq> authorization_digest authorization
          then None else Some b
      | _ \<Rightarrow> None))"

fun is_account :: "principal \<Rightarrow> bool" where
  "is_account (Account _) = True"
| "is_account (BearerCaller _) = False"

definition is_person_admitted :: "'s scope \<Rightarrow> bool" where
  "is_person_admitted sc = (case sc_bearer_admission sc of None \<Rightarrow> False | Some b \<Rightarrow> is_account (ba_principal b))"

definition admitted_token_person :: "'s scope \<Rightarrow> authenticated_user option" where
  "admitted_token_person sc = (case bearer_admission sc of
      None \<Rightarrow> None
    | Some b \<Rightarrow> (case ba_principal b of Account u \<Rightarrow> Some u | BearerCaller _ \<Rightarrow> None))"

definition raise_for_bearer_admission :: "'s scope \<Rightarrow> exn + unit" where
  "raise_for_bearer_admission sc = check (\<not> is_bearer_admitted sc) RuntimeError"

definition mark_person_path :: "'s scope \<Rightarrow> 's scope" where
  "mark_person_path sc = sc\<lparr>sc_person_path := True\<rparr>"

definition require_admin :: "'s scope \<Rightarrow> authenticated_user \<Rightarrow> http_exception + authenticated_user" where
  "require_admin sc user =
     (if au_role user \<noteq> role_value ADMIN
      then let is_person_path_token = (case bearer_admission sc of
                 None \<Rightarrow> False
               | Some b \<Rightarrow> \<not> is_resource_admission b \<and> is_account (ba_principal b))
           in Inl \<lparr>he_status = 403, he_detail = ADMIN_REQUIRED_DETAIL,
                he_headers = challenge_headers
                  (if is_person_path_token then Some PERSON_PATH_INSUFFICIENT_SCOPE else None)\<rparr>
      else Inr user)"

definition gate_or_own_admission :: "cookie_parser \<Rightarrow> 's scope \<Rightarrow> 's session_store \<Rightarrow> ('s, admission) act" where
  "gate_or_own_admission parse_cookie sc store =
     (case admitted_token_person sc of
        Some person \<Rightarrow> ret (Inr person)
      | None \<Rightarrow>
          bindA (liftR (raise_for_bearer_admission sc)) (\<lambda>_.
          bindA (liftR (gate_admission parse_cookie sc)) (\<lambda>decided.
            case decided of
              None \<Rightarrow> resolve_session parse_cookie sc store
            | Some g \<Rightarrow> (case ga_admission g of
                None \<Rightarrow> resolve_session parse_cookie sc store
              | Some admission \<Rightarrow> ret admission))))"

definition current_user ::
    "cookie_parser \<Rightarrow> (authenticated_user \<Rightarrow> ('s, unit) act) \<Rightarrow> login_redirect option \<Rightarrow> 's scope
     \<Rightarrow> 's session_store \<Rightarrow> ('s, http_exception + authenticated_user) act" where
  "current_user parse_cookie on_authenticated login_redirect sc store =
     bindA (gate_or_own_admission parse_cookie sc store) (\<lambda>user.
       case user of
         Inl refusal \<Rightarrow> bindA (liftR (http_refusal sc refusal login_redirect)) (\<lambda>exc. ret (Inl exc))
       | Inr u \<Rightarrow> bindA (on_authenticated u) (\<lambda>_. ret (Inr u)))"

definition admin_user ::
    "cookie_parser \<Rightarrow> (authenticated_user \<Rightarrow> ('s, unit) act) \<Rightarrow> login_redirect option \<Rightarrow> 's scope
     \<Rightarrow> 's session_store \<Rightarrow> ('s, http_exception + authenticated_user) act" where
  "admin_user parse_cookie on_authenticated login_redirect sc store =
     bindA (current_user parse_cookie on_authenticated login_redirect sc store) (\<lambda>user.
       case user of Inl exc \<Rightarrow> ret (Inl exc) | Inr u \<Rightarrow> ret (require_admin sc u))"

section \<open>What a session store's contract gives\<close>

text \<open>The window of an admission, in instants: what the documentation of \<open>admit_session\<close> promises.\<close>

definition session_window :: "session_lifetime \<Rightarrow> int \<Rightarrow> session_record \<Rightarrow> bool" where
  "session_window lifetime now r \<longleftrightarrow>
     as_instant (sr_created_at r) \<le> now + 60 * SECOND \<and> now \<le> as_instant (sr_expires_at r)
     \<and> as_instant (sr_expires_at r) \<le> min (now + (idle_seconds lifetime + 60) * SECOND)
          (as_instant (sr_created_at r) + absolute_max_age_seconds lifetime * SECOND)"

definition next_expiry :: "session_lifetime \<Rightarrow> int \<Rightarrow> session_record \<Rightarrow> int" where
  "next_expiry lifetime now r = min (now + idle_seconds lifetime * SECOND)
     (as_instant (sr_created_at r) + absolute_max_age_seconds lifetime * SECOND)"

text \<open>A clock reading the library can decide at: the calendar holds it and 400 days and a minute more.\<close>

definition usable_now :: "int \<Rightarrow> bool" where
  "usable_now now \<longleftrightarrow> in_calendar now \<and> in_calendar (now + (MAX_SESSION_LIFETIME_SECONDS + 60) * SECOND)"

definition lifetime_ok :: "session_lifetime \<Rightarrow> bool" where
  "lifetime_ok l \<longleftrightarrow> 0 < idle_seconds l \<and> idle_seconds l \<le> absolute_max_age_seconds l
     \<and> absolute_max_age_seconds l \<le> MAX_SESSION_LIFETIME_SECONDS"

lemma SessionLifetime_ok: "SessionLifetime i c = Inr l \<Longrightarrow> lifetime_ok l"
  by (simp add: SessionLifetime_Inr lifetime_ok_def)

lemma as_instant_utc [simp]: "as_instant (utc_datetime i) = i"
  by (simp add: as_instant_def utc_datetime_def)

lemma datetime_add_between:
  "in_calendar a \<Longrightarrow> in_calendar b \<Longrightarrow> a \<le> i + d \<Longrightarrow> i + d \<le> b \<Longrightarrow> datetime_add i d = Inr (i + d)"
  by (simp add: datetime_add_def in_calendar_def)

lemma is_admitted_window:
  assumes "usable_now now"
  shows "is_admitted l r now = Inr (session_window l now r)"
proof -
  have "datetime_add now EXPIRY_TOLERANCE = Inr (now + EXPIRY_TOLERANCE)"
    using assms by (intro datetime_add_between[where a = now and b = "now + (MAX_SESSION_LIFETIME_SECONDS + 60) * SECOND"])
      (auto simp: usable_now_def EXPIRY_TOLERANCE_def SECOND_def MAX_SESSION_LIFETIME_SECONDS_def)
  then show ?thesis
    by (simp add: is_admitted_def Let_def session_window_def EXPIRY_TOLERANCE_def algebra_simps)
qed

lemma renewed_expiry_next:
  assumes "usable_now now" and "lifetime_ok l" and "session_window l now r"
  shows "renewed_expiry l now (as_instant (sr_created_at r)) = Inr (next_expiry l now r)"
proof -
  let ?cap = "absolute_max_age_seconds l * SECOND - (now - as_instant (sr_created_at r))"
  have expiry: "now + min (idle_seconds l * SECOND) ?cap = next_expiry l now r"
    by (simp add: next_expiry_def min_def)
  have "now \<le> next_expiry l now r" "next_expiry l now r \<le> now + (MAX_SESSION_LIFETIME_SECONDS + 60) * SECOND"
    using assms(2,3) by (auto simp: lifetime_ok_def session_window_def next_expiry_def SECOND_def)
  then show ?thesis
    using assms(1) unfolding renewed_expiry_def Let_def
    by (subst datetime_add_between[where a = now and b = "now + (MAX_SESSION_LIFETIME_SECONDS + 60) * SECOND"])
      (simp_all add: usable_now_def expiry)
qed

context session_contract
begin

definition admits_at :: "session_lifetime \<Rightarrow> int \<Rightarrow> 's \<Rightarrow> pystr \<Rightarrow> bool" where
  "admits_at l now s sid \<longleftrightarrow> (\<exists>r. lookup s sid = Some r \<and> session_window l now r)"

lemma now_read:
  "cf_wall_clock cfg s = (Inr t, s) \<Longrightarrow> usable_now (truncate_rat t * SECOND) \<Longrightarrow>
     whole_second_now cfg s = (Inr (truncate_rat t * SECOND), s)"
  by (simp add: whole_second_now_def bindA_def usable_now_def)

lemma admit_refused:
  assumes "cf_wall_clock cfg s = (Inr t, s)" and "usable_now (truncate_rat t * SECOND)"
    and "\<not> admits_at (cf_session_lifetime cfg) (truncate_rat t * SECOND) s sid"
  shows "admit_session sid store cfg s = (Inr (Inl SESSION_ENDED_OR_EXPIRED), s)"
proof (cases "lookup s sid")
  case None
  then show ?thesis
    by (simp add: admit_session_def bindA_def load now_read[OF assms(1,2)])
next
  case (Some r)
  with assms(3) have "\<not> session_window (cf_session_lifetime cfg) (truncate_rat t * SECOND) r"
    by (simp add: admits_at_def)
  with Some show ?thesis
    by (simp add: admit_session_def bindA_def load now_read[OF assms(1,2)] is_admitted_window[OF assms(2)])
qed

lemma admit_admitted:
  assumes "cf_wall_clock cfg s = (Inr t, s)" and "usable_now (truncate_rat t * SECOND)"
    and "lifetime_ok (cf_session_lifetime cfg)" and "lookup s sid = Some r"
    and "session_window (cf_session_lifetime cfg) (truncate_rat t * SECOND) r"
  shows "\<exists>s'. admit_session sid store cfg s = (Inr (Inr (authenticated (sr_user r))), s')
    \<and> lookup s' = (lookup s)(sid \<mapsto> r\<lparr>sr_expires_at :=
        utc_datetime (next_expiry (cf_session_lifetime cfg) (truncate_rat t * SECOND) r)\<rparr>)"
proof -
  let ?e = "next_expiry (cf_session_lifetime cfg) (truncate_rat t * SECOND) r"
  obtain s' where "ss_touch store sid ?e s = (Inr (BoolAnswer True), s')"
    "lookup s' = (lookup s)(sid \<mapsto> r\<lparr>sr_expires_at := utc_datetime ?e\<rparr>)"
    using touch_present[OF assms(4), of ?e] by blast
  then show ?thesis
    by (simp add: admit_session_def bindA_def load now_read[OF assms(1,2)] assms(4)
        is_admitted_window[OF assms(2)] assms(5) renewed_expiry_next[OF assms(2,3,5)])
qed

end

section \<open>Properties\<close>

text \<open>C9. The decision on a stored session, over any store that keeps its contract: at a clock reading
  the calendar holds, an id is admitted exactly when the store knows it and
  \<open>created_at <= now + 60 s\<close>, \<open>now <= expires_at\<close> and
  \<open>expires_at <= min(now + idle + 60 s, created_at + cap)\<close>. Admission answers the stored account and
  renews that session alone, to \<open>min(now + idle, created_at + cap)\<close>; a refusal changes nothing.\<close>

theorem session_decision:
  assumes "session_contract store lookup ok"
    and "cf_wall_clock cfg s = (Inr t, s)" and "usable_now (truncate_rat t * SECOND)"
    and "lifetime_ok (cf_session_lifetime cfg)"
  shows "case lookup s sid of
      None \<Rightarrow> admit_session sid store cfg s = (Inr (Inl SESSION_ENDED_OR_EXPIRED), s)
    | Some r \<Rightarrow>
        if session_window (cf_session_lifetime cfg) (truncate_rat t * SECOND) r
        then \<exists>s'. admit_session sid store cfg s = (Inr (Inr (authenticated (sr_user r))), s')
          \<and> lookup s' = (lookup s)(sid \<mapsto> r\<lparr>sr_expires_at :=
              utc_datetime (next_expiry (cf_session_lifetime cfg) (truncate_rat t * SECOND) r)\<rparr>)
        else admit_session sid store cfg s = (Inr (Inl SESSION_ENDED_OR_EXPIRED), s)"
  using session_contract.admit_refused[OF assms(1-3), of sid] session_contract.admit_admitted[OF assms, of sid]
  by (auto simp: session_contract.admits_at_def[OF assms(1)] split: option.split)

definition sample_memory :: memory where
  "sample_memory = \<lparr>mem_lock = None,
     mem_heap = [\<lparr>ur_id = py ''u1'', ur_username = py ''alice'', ur_role = py ''user''\<rparr>],
     mem_users = [py ''u1'' \<mapsto> 0], mem_usernames = {py ''alice''},
     mem_records = [(py ''s1'', \<lparr>ms_user = 0, ms_created_at = 1000 * SECOND, ms_expires_at = 4600 * SECOND,
       ms_refresh_token = None, ms_id_token = None\<rparr>)], mem_next_id = 1\<rparr>"

lemma sample_memory_session:
  "mem_lookup sample_memory (py ''s1'') = Some \<lparr>sr_id = py ''s1'',
     sr_user = \<lparr>ur_id = py ''u1'', ur_username = py ''alice'', ur_role = py ''user''\<rparr>,
     sr_created_at = utc_datetime (1000 * SECOND), sr_expires_at = utc_datetime (4600 * SECOND),
     sr_refresh_token = None, sr_id_token = None\<rparr>"
  by (simp add: mem_lookup_def sample_memory_def view_session_def)

lemma sample_clock:
  "cf_wall_clock (sample_config\<lparr>cf_wall_clock := ret (of_int n)\<rparr>) s = (Inr (of_int n), s)"
  "truncate_rat (of_int n) = n"
  "cf_session_lifetime (sample_config\<lparr>cf_wall_clock := ret (of_int n)\<rparr>)
     = \<lparr>idle_seconds = 3600, absolute_max_age_seconds = 86400\<rparr>"
  by (simp_all add: truncate_rat_def sample_config_def)

lemma sample_lifetime_ok: "lifetime_ok \<lparr>idle_seconds = 3600, absolute_max_age_seconds = 86400\<rparr>"
  by (simp add: lifetime_ok_def MAX_SESSION_LIFETIME_SECONDS_def)

lemma sample_now: "0 \<le> n \<Longrightarrow> n \<le> 1000000 \<Longrightarrow> usable_now (truncate_rat (of_int n) * SECOND)"
  unfolding sample_clock by (simp add: usable_now_def in_calendar_def SECOND_def MAX_SESSION_LIFETIME_SECONDS_def)

lemma session_decision_witness:
  "\<exists>m'. admit_session (py ''s1'') memory_session_store (sample_config\<lparr>cf_wall_clock := ret (of_int 2000)\<rparr>) sample_memory
      = (Inr (Inr \<lparr>au_id = py ''u1'', au_username = py ''alice'', au_role = py ''user''\<rparr>), m')"
proof -
  let ?cfg = "sample_config\<lparr>cf_wall_clock := ret (of_int 2000)\<rparr>"
  have life: "lifetime_ok (cf_session_lifetime ?cfg)" by (simp only: sample_clock sample_lifetime_ok)
  have "session_window \<lparr>idle_seconds = 3600, absolute_max_age_seconds = 86400\<rparr> (2000 * SECOND)
      (the (mem_lookup sample_memory (py ''s1'')))"
    by (simp add: sample_memory_session session_window_def SECOND_def)
  then show ?thesis
    using session_decision[OF memory.session_contract_axioms sample_clock(1)[of _ sample_memory]
        sample_now[of 2000] life, of "py ''s1''"]
    unfolding sample_memory_session sample_clock option.case option.sel
    by (auto simp: authenticated_def)
qed

text \<open>The idle window and the cap are exact: after a session was admitted, and with its stored row
  left alone, the next request is admitted if and only if it comes no later than the idle time
  after the first and no later than the cap after the session's creation.\<close>

theorem idle_window_exact:
  assumes contract: "session_contract store lookup ok" and life: "lifetime_ok (cf_session_lifetime cfg)"
    and first: "cf_wall_clock cfg s = (Inr t, s)" "usable_now (truncate_rat t * SECOND)"
      "admit_session sid store cfg s = (Inr (Inr u), s1)"
    and untouched: "lookup s2 sid = lookup s1 sid" and later: "cf_wall_clock cfg s2 = (Inr t2, s2)"
      "usable_now (truncate_rat t2 * SECOND)" "truncate_rat t \<le> truncate_rat t2"
    and stored: "lookup s sid = Some r"
  shows "(\<exists>s3. admit_session sid store cfg s2 = (Inr (Inr u), s3)) \<longleftrightarrow>
    truncate_rat t2 * SECOND \<le> min (truncate_rat t * SECOND + idle_seconds (cf_session_lifetime cfg) * SECOND)
      (as_instant (sr_created_at r) + absolute_max_age_seconds (cf_session_lifetime cfg) * SECOND)"
proof -
  let ?l = "cf_session_lifetime cfg"
  let ?now = "truncate_rat t * SECOND" and ?later = "truncate_rat t2 * SECOND"
  note refuses = session_contract.admit_refused[OF contract, where sid = sid, unfolded session_contract.admits_at_def[OF contract]]
  have window: "session_window ?l ?now r" using refuses[OF first(1,2)] first(3) stored by fastforce
  then obtain s1' where "admit_session sid store cfg s = (Inr (Inr (authenticated (sr_user r))), s1')"
    "lookup s1' = (lookup s)(sid \<mapsto> r\<lparr>sr_expires_at := utc_datetime (next_expiry ?l ?now r)\<rparr>)"
    using session_contract.admit_admitted[OF contract first(1,2) life stored] by blast
  with first(3) have u: "u = authenticated (sr_user r)"
    and s2: "lookup s2 sid = Some (r\<lparr>sr_expires_at := utc_datetime (next_expiry ?l ?now r)\<rparr>)"
    using untouched by auto
  let ?r = "r\<lparr>sr_expires_at := utc_datetime (next_expiry ?l ?now r)\<rparr>"
  have "?now \<le> ?later" using later(3) by (simp add: SECOND_def)
  then have "session_window ?l ?later ?r \<longleftrightarrow> ?later \<le> next_expiry ?l ?now r"
    using window by (auto simp: session_window_def next_expiry_def SECOND_def)
  moreover have "(\<exists>s3. admit_session sid store cfg s2 = (Inr (Inr u), s3)) \<longleftrightarrow> session_window ?l ?later ?r"
  proof (cases "session_window ?l ?later ?r")
    case True
    from session_contract.admit_admitted[OF contract later(1,2) life s2 True] True show ?thesis
      by (auto simp: u authenticated_def)
  next
    case False
    with refuses[OF later(1,2)] s2 show ?thesis by simp
  qed
  ultimately show ?thesis by (simp add: next_expiry_def)
qed

lemma idle_window_exact_witness:
  "\<exists>m1. (\<exists>m3. admit_session (py ''s1'') memory_session_store (sample_config\<lparr>cf_wall_clock := ret (of_int 2000)\<rparr>) m1
      = (Inr (Inr \<lparr>au_id = py ''u1'', au_username = py ''alice'', au_role = py ''user''\<rparr>), m3))"
proof -
  let ?cfg = "sample_config\<lparr>cf_wall_clock := ret (of_int 2000)\<rparr>"
  let ?u = "\<lparr>au_id = py ''u1'', au_username = py ''alice'', au_role = py ''user''\<rparr>"
  have life: "lifetime_ok (cf_session_lifetime ?cfg)" by (simp only: sample_clock sample_lifetime_ok)
  have window: "session_window (cf_session_lifetime ?cfg) (truncate_rat (of_int 2000) * SECOND)
      (the (mem_lookup sample_memory (py ''s1'')))"
    unfolding sample_clock by (simp add: sample_memory_session session_window_def SECOND_def)
  obtain m1 where m1: "admit_session (py ''s1'') memory_session_store ?cfg sample_memory = (Inr (Inr ?u), m1)"
    using memory.admit_admitted[OF sample_clock(1)[of _ sample_memory] sample_now[of 2000] life sample_memory_session]
      window[unfolded sample_memory_session option.sel] by (auto simp: authenticated_def)
  have "truncate_rat (of_int 2000) * SECOND \<le>
      min (truncate_rat (of_int 2000) * SECOND + idle_seconds (cf_session_lifetime ?cfg) * SECOND)
        (as_instant (sr_created_at (the (mem_lookup sample_memory (py ''s1''))))
          + absolute_max_age_seconds (cf_session_lifetime ?cfg) * SECOND)"
    unfolding sample_clock by (simp add: sample_memory_session SECOND_def)
  then show ?thesis
    using idle_window_exact[OF memory.session_contract_axioms life sample_clock(1)[of _ sample_memory]
        sample_now[of 2000] m1 refl sample_clock(1)[of _ m1] sample_now[of 2000] order_refl sample_memory_session]
    unfolding sample_memory_session option.sel by auto
qed

text \<open>A session the host ended is refused on its next request: after \<open>delete\<close>, and as long as
  no session is stored under that id, its admission is refused at every usable clock reading, and
  the refused admission writes nothing, so a renewal never brings a deleted session back.\<close>

theorem deleted_session_stays_refused:
  assumes "session_contract store lookup ok" and "ok s"
    and "cf_wall_clock cfg s2 = (Inr t, s2)" and "usable_now (truncate_rat t * SECOND)"
    and "ss_delete store sid s = (Inr (), s1)" and "lookup s2 sid = lookup s1 sid"
  shows "admit_session sid store cfg s2 = (Inr (Inl SESSION_ENDED_OR_EXPIRED), s2)"
proof -
  have "lookup s1 = (lookup s)(sid := None)"
    using session_contract.delete[OF assms(1,2), of sid] assms(5) by auto
  then have "lookup s2 sid = None" using assms(6) by simp
  then show ?thesis
    using session_contract.admit_refused[OF assms(1,3,4), of sid]
    by (simp add: session_contract.admits_at_def[OF assms(1)])
qed

lemma deleted_session_stays_refused_witness:
  "admit_session (py ''s1'') memory_session_store (sample_config\<lparr>cf_wall_clock := ret (of_int 2000)\<rparr>)
      (snd (mem_delete (py ''s1'') sample_memory))
    = (Inr (Inl SESSION_ENDED_OR_EXPIRED), snd (mem_delete (py ''s1'') sample_memory))"
proof (rule deleted_session_stays_refused[OF memory.session_contract_axioms _ sample_clock(1) sample_now])
  show "mem_ok sample_memory" by (simp add: mem_ok_def sample_memory_def)
  show "ss_delete memory_session_store (py ''s1'') sample_memory = (Inr (), snd (mem_delete (py ''s1'') sample_memory))"
    by (simp add: memory_session_store_def mem_delete_def require_held_lock_def bindA_def sample_memory_def)
qed simp_all

text \<open>A handshake's Origin is decided before its session: a WebSocket whose Origin is missing,
  repeated or not allowed is refused for that reason and the session store is never called,
  whatever cookie the browser sent; only with one allowed Origin is the session resolved.\<close>

theorem websocket_origin_first:
  assumes "web_auth_config sc = Inr cfg"
  shows "authenticate_websocket parse_cookie sc store s =
    (case origin_verdict sc cfg of
       ABSENT \<Rightarrow> (Inr (Inl MISSING_ORIGIN), s)
     | FOREIGN \<Rightarrow> (Inr (Inl FOREIGN_ORIGIN), s)
     | ALLOWED \<Rightarrow> resolve_session parse_cookie sc store s)"
  using assms by (simp add: authenticate_websocket_def origin_refusal_def split: OriginVerdict.split)

lemma websocket_origin_first_witness:
  "authenticate_websocket (\<lambda>_. []) (sample_scope [(py ''origin'', py ''https://evil.example'')]) memory_session_store sample_memory
    = (Inr (Inl FOREIGN_ORIGIN), sample_memory)"
proof -
  let ?sc = "sample_scope [(py ''origin'', py ''https://evil.example'')] :: memory scope"
  have "plain_scheme (py ''https'')" "plain_host (py ''evil.example'')"
    by (simp_all add: plain_scheme_def plain_host_def text_eval)
  then obtain u where u: "urlsplit (py ''https://evil.example'') = Inr u" "up_netloc u = py ''evil.example'' @ port_suffix None"
    using urlsplit_origin[of "py ''https''" "py ''evil.example''" None] by (auto simp: port_suffix_def py_eval)
  have info: "hostinfo u = (py ''evil.example'', None)"
    using hostinfo_origin(1)[OF \<open>plain_host _\<close> u(2)] by simp
  have "hostname u = Some (py ''evil.example'')" by (rule hostname_origin[OF \<open>plain_host _\<close> info])
  then have "\<not> origin_is_allowed (py ''https://evil.example'') (sample_config :: memory web_auth_config)"
    by (simp add: origin_is_allowed_def u(1) url_port_def info Let_def) (simp add: sample_config_def text_eval)
  then have "origin_verdict ?sc sample_config = FOREIGN"
    by (simp add: origin_verdict_def getlist_def sample_scope_def) (simp add: text_eval)
  then show ?thesis unfolding websocket_origin_first[OF sample_config_installed] by simp
qed

text \<open>Where an account a route sees comes from: either the bearer gate admitted this very request
  (the same application, path and one \<open>Authorization\<close> value by its digest, and at a resource the
  same method), or the session gate admitted it under this configuration for the very cookie the
  request carries and no bearer admission is there, or the session was resolved now. A record that
  is stale or made for another request is never an identity.\<close>

theorem account_provenance:
  assumes "gate_or_own_admission parse_cookie sc store s = (Inr (Inr u), s')"
  shows "(\<exists>b authorization. sc_bearer_admission sc = Some b \<and> ba_principal b = Account u
        \<and> getlist sc (py ''authorization'') = [authorization]
        \<and> ba_authorization_digest b = authorization_digest authorization
        \<and> ba_app b = app_id (sc_app sc) \<and> ba_path b = sc_path sc
        \<and> (ba_resource_method b = None \<or> ba_resource_method b = Some (sc_method sc)) \<and> s' = s)
    \<or> (sc_bearer_admission sc = None \<and> (\<exists>g cfg. sc_gate_admission sc = Some g \<and> ga_admission g = Some (Inr u)
        \<and> web_auth_config sc = Inr cfg \<and> cf_instance (ga_config g) = cf_instance cfg
        \<and> read_session_cookie parse_cookie sc (ga_config g) = Inr (ga_cookie_reading g) \<and> s' = s))
    \<or> (sc_bearer_admission sc = None \<and> resolve_session parse_cookie sc store s = (Inr (Inr u), s'))"
proof (cases "admitted_token_person sc")
  case (Some p)
  then have "u = p" "s' = s" using assms by (simp_all add: gate_or_own_admission_def)
  moreover obtain b where b: "bearer_admission sc = Some b" "ba_principal b = Account p"
    using Some by (auto simp: admitted_token_person_def split: option.splits principal.splits)
  ultimately show ?thesis
    by (auto simp: bearer_admission_def is_resource_admission_def split: option.splits list.splits if_splits)
next
  case None
  then obtain decided where none: "sc_bearer_admission sc = None"
    and decided: "gate_admission parse_cookie sc = Inr decided"
    and rest: "(case decided of None \<Rightarrow> resolve_session parse_cookie sc store
        | Some g \<Rightarrow> (case ga_admission g of None \<Rightarrow> resolve_session parse_cookie sc store
          | Some admission \<Rightarrow> ret admission)) s = (Inr (Inr u), s')"
    using assms
    by (auto simp: gate_or_own_admission_def bindA_def raise_for_bearer_admission_def is_bearer_admitted_def
        check_def split: sum.splits if_splits)
  show ?thesis
  proof (cases "decided = None \<or> (\<exists>g. decided = Some g \<and> ga_admission g = None)")
    case True
    with none rest show ?thesis by auto
  next
    case False
    then obtain g where g: "decided = Some g" "ga_admission g = Some (Inr u)" "s' = s"
      using rest by (cases decided) (auto split: option.splits)
    with decided none show ?thesis
      by (auto simp: gate_admission_def split: option.splits if_splits)
  qed
qed

lemma account_provenance_witness:
  "\<exists>sc :: memory scope. gate_or_own_admission (\<lambda>_. []) sc memory_session_store sample_memory = (Inr (Inr \<lparr>au_id = py ''u1'', au_username = py ''alice'', au_role = py ''user''\<rparr>), sample_memory)
    \<and> sc_bearer_admission sc = None"
proof -
  let ?g = "\<lparr>ga_config = sample_config, ga_cookie_reading = Inl NO_SESSION, ga_admission = Some (Inr \<lparr>au_id = py ''u1'', au_username = py ''alice'', au_role = py ''user''\<rparr>)\<rparr> :: memory gate_admission"
  let ?sc = "(sample_scope [] :: memory scope)\<lparr>sc_gate_admission := Some ?g\<rparr>"
  have none: "sc_bearer_admission ?sc = None" by (simp add: sample_scope_def)
  have "concat (map (\<lambda>_. []) xs) = []" for xs by (induction xs) auto
  then have no_cookie: "cookie_values (\<lambda>_. []) ?sc n = []" for n
    by (simp add: cookie_values_def cookie_pairs_def)
  have "gate_or_own_admission (\<lambda>_. []) ?sc memory_session_store sample_memory = (Inr (Inr \<lparr>au_id = py ''u1'', au_username = py ''alice'', au_role = py ''user''\<rparr>), sample_memory)"
    using no_cookie
    by (simp add: gate_or_own_admission_def admitted_token_person_def bearer_admission_def none
        raise_for_bearer_admission_def is_bearer_admitted_def gate_admission_def sample_config_installed
        read_session_cookie_def)
  with account_provenance[OF this] none show ?thesis by blast
qed

end
