(* ===== verification/CsrfGate.thy ===== *)
theory CsrfGate
  imports Sessions Asgi Policies
begin

text \<open>
  \<open>middleware/csrf.py\<close>: a state-changing request that a foreign page originated is refused.
\<close>

definition MUTATING_METHODS :: "pystr set" where
  "MUTATING_METHODS = {py ''POST'', py ''PUT'', py ''PATCH'', py ''DELETE''}"

definition sec_fetch_site_allows :: "pystr \<Rightarrow> bool option" where
  "sec_fetch_site_allows fetch_site =
     (if fetch_site = py ''same-origin'' then Some True
      else if fetch_site = py ''same-site'' then None
      else Some False)"

definition cross_origin_rejection :: response where
  "cross_origin_rejection = json_detail 403 (py ''Cross-origin request rejected'') []"

definition missing_origin_rejection :: response where
  "missing_origin_rejection = json_detail 403 (py ''Missing Origin header'') []"

definition origin_allowlist_refusal :: "'s scope \<Rightarrow> exn + response option" where
  "origin_allowlist_refusal sc = bindR (web_auth_config sc) (\<lambda>cfg.
     Inr (case origin_verdict sc cfg of
        ABSENT \<Rightarrow> Some missing_origin_rejection
      | FOREIGN \<Rightarrow> Some cross_origin_rejection
      | ALLOWED \<Rightarrow> None))"

definition origin_check_refusal :: "'s scope \<Rightarrow> exn + response option" where
  "origin_check_refusal sc = (case get_header sc (py ''sec-fetch-site'') of
      None \<Rightarrow> origin_allowlist_refusal sc
    | Some fetch_site \<Rightarrow> (case sec_fetch_site_allows fetch_site of
          Some True \<Rightarrow> Inr None
        | Some False \<Rightarrow> Inr (Some cross_origin_rejection)
        | None \<Rightarrow> origin_allowlist_refusal sc))"

definition csrf_gate :: "csrf_policy \<Rightarrow> 's gate" where
  "csrf_gate policy sc =
     (if sc_method sc \<in> MUTATING_METHODS \<and> requires_same_origin policy (route_path sc)
         \<and> bearer_admission sc = None
      then bindA (liftR (origin_check_refusal sc)) (\<lambda>refusal. ret (refusal, sc))
      else ret (None, sc))"

lemma csrf_gate_state: "snd (csrf_gate policy sc s) = s"
  by (simp add: csrf_gate_def bindA_def split: sum.split)

section \<open>Properties\<close>

definition one_allowed_origin :: "'s scope \<Rightarrow> 's web_auth_config \<Rightarrow> bool" where
  "one_allowed_origin sc cfg \<longleftrightarrow> (\<exists>o1. getlist sc (py ''origin'') = [o1] \<and> origin_is_allowed o1 cfg)"

lemma origin_verdict_allowed: "origin_verdict sc cfg = ALLOWED \<longleftrightarrow> one_allowed_origin sc cfg"
  by (auto simp: origin_verdict_def one_allowed_origin_def split: list.splits)

text \<open>C23. A state-changing request passes the origin check exactly when it is the site's own: on every
  path that is not exempt, without a bearer admission of this very request, \<open>POST\<close>, \<open>PUT\<close>,
  \<open>PATCH\<close> and \<open>DELETE\<close> are admitted if the browser says same-origin, or if it says same-site or
  nothing and the request carries one Origin, an allowed one. Every other one is answered 403, and
  neither answer touches the host's state or the scope.\<close>

theorem csrf_admits_own_site_only:
  assumes "web_auth_config sc = Inr cfg" and "sc_method sc \<in> MUTATING_METHODS"
    and "requires_same_origin policy (route_path sc)" and "bearer_admission sc = None"
  shows "csrf_gate policy sc s =
    (if (case get_header sc (py ''sec-fetch-site'') of
           Some site \<Rightarrow> site = py ''same-origin'' \<or> (site = py ''same-site'' \<and> one_allowed_origin sc cfg)
         | None \<Rightarrow> one_allowed_origin sc cfg)
     then (Inr (None, sc), s)
     else (Inr (Some (json_detail 403
        (if origin_verdict sc cfg = ABSENT \<and> get_header sc (py ''sec-fetch-site'') \<in> {None, Some (py ''same-site'')}
         then py ''Missing Origin header'' else py ''Cross-origin request rejected'') []), sc), s))"
proof -
  have gate: "csrf_gate policy sc s = (case origin_check_refusal sc of Inl e \<Rightarrow> (Inl e, s) | Inr r \<Rightarrow> (Inr (r, sc), s))"
    using assms(2-4) by (simp add: csrf_gate_def bindA_def split: sum.split)
  have listed: "origin_allowlist_refusal sc = Inr (if one_allowed_origin sc cfg then None
      else Some (json_detail 403 (if origin_verdict sc cfg = ABSENT then py ''Missing Origin header''
        else py ''Cross-origin request rejected'') []))"
    using assms(1) origin_verdict_allowed[of sc cfg]
    by (cases "origin_verdict sc cfg")
      (auto simp: origin_allowlist_refusal_def missing_origin_rejection_def cross_origin_rejection_def)
  show ?thesis
  proof (cases "get_header sc (py ''sec-fetch-site'')")
    case None
    then show ?thesis by (simp add: gate origin_check_refusal_def listed)
  next
    case (Some site)
    then show ?thesis
      by (simp add: gate origin_check_refusal_def sec_fetch_site_allows_def listed cross_origin_rejection_def)
  qed
qed

lemma csrf_admits_own_site_only_witness:
  "csrf_gate \<lparr>cp_exempt = no_paths\<rparr> ((sample_scope [(py ''sec-fetch-site'', py ''cross-site'')] :: unit scope)\<lparr>sc_method := py ''POST''\<rparr>) ()
    = (Inr (Some (json_detail 403 (py ''Cross-origin request rejected'') []),
        (sample_scope [(py ''sec-fetch-site'', py ''cross-site'')] :: unit scope)\<lparr>sc_method := py ''POST''\<rparr>), ())"
proof -
  let ?sc = "(sample_scope [(py ''sec-fetch-site'', py ''cross-site'')] :: unit scope)\<lparr>sc_method := py ''POST''\<rparr>"
  have "web_auth_config ?sc = Inr sample_config"
    by (simp add: web_auth_config_def installed_web_auth_config_def sample_scope_def)
  moreover have "get_header ?sc (py ''sec-fetch-site'') = Some (py ''cross-site'')"
  proof -
    have "lower_py (py ''sec-fetch-site'') = py ''sec-fetch-site''" by (simp add: text_eval)
    then show ?thesis by (simp add: get_header_def getlist_def sample_scope_def)
  qed
  moreover have "bearer_admission ?sc = None" "sc_method ?sc \<in> MUTATING_METHODS"
    "requires_same_origin \<lparr>cp_exempt = no_paths\<rparr> (route_path ?sc)"
    by (simp_all add: bearer_admission_def sample_scope_def MUTATING_METHODS_def requires_same_origin_def)
  ultimately show ?thesis
    using csrf_admits_own_site_only[of ?sc sample_config "\<lparr>cp_exempt = no_paths\<rparr>" "()"] by simp
qed

end
