(* ===== verification/SecurityHeaders.thy ===== *)
theory SecurityHeaders
  imports Asgi Policies
begin

text \<open>
  \<open>middleware/security_headers.py\<close>: every response start leaves with the deployment's policy
  headers, and an exception before the first start is answered with a plain 500 that carries
  them too. \<open>with_policy\<close> is the application run with \<open>send_with_policy\<close> in place of the server's
  send, \<open>started\<close> the local \<open>response_started\<close>, and its \<open>Fail\<close> the \<open>except Exception\<close>. Header lists
  change as Starlette's \<open>MutableHeaders\<close> change them.
\<close>

section \<open>Header lists\<close>

type_synonym headers = "(pystr \<times> pystr) list"

definition has_header :: "pystr \<Rightarrow> headers \<Rightarrow> bool" where
  "has_header name hs \<longleftrightarrow> name \<in> set (map fst hs)"

definition del_header :: "pystr \<Rightarrow> headers \<Rightarrow> headers" where
  "del_header name hs = filter (\<lambda>(n, v). n \<noteq> name) hs"

text \<open>Assignment replaces the first line of the name and drops the others, or appends one.\<close>

fun set_header :: "pystr \<Rightarrow> pystr \<Rightarrow> headers \<Rightarrow> headers" where
  "set_header name v [] = [(name, v)]"
| "set_header name v ((n, w) # hs) =
     (if n = name then (name, v) # del_header name hs else (n, w) # set_header name v hs)"

definition header_values :: "pystr \<Rightarrow> headers \<Rightarrow> pystr list" where
  "header_values name hs = map snd (filter (\<lambda>(n, v). n = name) hs)"

section \<open>The policy on a response\<close>

definition OWN_POLICY_HEADER :: pystr where "OWN_POLICY_HEADER = py ''webauth-own-policy''"
definition STRICT_TRANSPORT_SECURITY :: pystr where
  "STRICT_TRANSPORT_SECURITY = py ''max-age=31536000; includeSubDomains''"

definition apply_policy :: "security_headers_policy \<Rightarrow> pystr \<Rightarrow> bool \<Rightarrow> headers \<Rightarrow> headers" where
  "apply_policy policy path cookie_secure hs =
     (let hs = (if has_header OWN_POLICY_HEADER hs then del_header OWN_POLICY_HEADER hs
                else let hs = (case cache_control policy path of
                         None \<Rightarrow> hs | Some v \<Rightarrow> set_header (py ''cache-control'') v hs)
                     in set_header (py ''content-security-policy'') (sh_content_security_policy policy) hs);
          hs = set_header (py ''x-content-type-options'') (py ''nosniff'') hs;
          hs = set_header (py ''x-frame-options'') (py ''DENY'') hs;
          hs = set_header (py ''referrer-policy'') (py ''strict-origin-when-cross-origin'') hs;
          hs = set_header (py ''permissions-policy'') (sh_permissions_policy policy) hs
      in if cookie_secure then set_header (py ''strict-transport-security'') STRICT_TRANSPORT_SECURITY hs
         else if has_header (py ''strict-transport-security'') hs then del_header (py ''strict-transport-security'') hs
         else hs)"

fun policied :: "security_headers_policy \<Rightarrow> pystr \<Rightarrow> bool \<Rightarrow> message \<Rightarrow> message" where
  "policied policy path cookie_secure (ResponseStart status hs cookies) =
     ResponseStart status (apply_policy policy path cookie_secure hs) cookies"
| "policied policy path cookie_secure m = m"

definition internal_server_error :: response where
  "internal_server_error = \<lparr>rs_status = 500, rs_body = PlainText (py ''Internal Server Error''),
     rs_headers = [], rs_cookies = []\<rparr>"

primcorec with_policy :: "security_headers_policy \<Rightarrow> pystr \<Rightarrow> bool \<Rightarrow> bool \<Rightarrow> 's proc \<Rightarrow> 's proc" where
  "with_policy policy path secure started p = (case p of
      Done \<Rightarrow> Done
    | Fail e \<Rightarrow> if started then Fail e
        else Send (policied policy path secure (start_of internal_server_error)) (\<lambda>r. case r of
          Inl _ \<Rightarrow> Fail e
        | Inr _ \<Rightarrow> Send (ResponseBody (rs_body internal_server_error)) (\<lambda>_. Fail e))
    | Receive k \<Rightarrow> Receive (\<lambda>m. with_policy policy path secure started (k m))
    | Send m k \<Rightarrow> Send (policied policy path secure m) (\<lambda>r. with_policy policy path secure (started \<or> is_start m) (k r))
    | Do u k \<Rightarrow> Do u (\<lambda>s. with_policy policy path secure started (k s)))"

definition security_headers :: "security_headers_policy \<Rightarrow> 's asgi \<Rightarrow> 's asgi" where
  "security_headers policy app sc =
     (if sc_type sc \<noteq> Http then app sc
      else case installed_web_auth_config (sc_app sc) of
          Inl e \<Rightarrow> with_policy policy (route_path sc) False False (Fail e)
        | Inr cfg \<Rightarrow> with_policy policy (route_path sc) (cf_cookie_secure cfg) False (app sc))"

section \<open>Facts on header lists\<close>

lemma header_values_set [simp]:
  "header_values n (set_header m v hs) = (if n = m then [v] else header_values n hs)"
proof (induction hs)
  case (Cons h hs)
  have "filter (\<lambda>(n, v). n = m) (del_header m hs) = []" by (auto simp: del_header_def filter_empty_conv)
  moreover have "filter (\<lambda>(k, v). k = n) (del_header m hs) = filter (\<lambda>(k, v). k = n) hs" if "n \<noteq> m"
    unfolding del_header_def filter_filter using that by (intro filter_cong) auto
  ultimately show ?case using Cons by (cases h) (auto simp: header_values_def)
qed (simp add: header_values_def)

lemma header_values_del [simp]:
  "header_values n (del_header m hs) = (if n = m then [] else header_values n hs)"
  unfolding header_values_def del_header_def filter_filter
  by (auto simp: filter_empty_conv intro!: filter_cong arg_cong[where f = "map snd"])

lemma has_header_iff: "has_header n hs \<longleftrightarrow> header_values n hs \<noteq> []"
  by (force simp: has_header_def header_values_def filter_empty_conv)

text \<open>What a response start must carry.\<close>

definition carries_policy :: "security_headers_policy \<Rightarrow> pystr \<Rightarrow> bool \<Rightarrow> headers \<Rightarrow> headers \<Rightarrow> bool" where
  "carries_policy policy path secure app_headers hs \<longleftrightarrow>
     header_values (py ''x-content-type-options'') hs = [py ''nosniff'']
     \<and> header_values (py ''x-frame-options'') hs = [py ''DENY'']
     \<and> header_values (py ''referrer-policy'') hs = [py ''strict-origin-when-cross-origin'']
     \<and> header_values (py ''permissions-policy'') hs = [sh_permissions_policy policy]
     \<and> header_values (py ''strict-transport-security'') hs = (if secure then [STRICT_TRANSPORT_SECURITY] else [])
     \<and> header_values OWN_POLICY_HEADER hs = []
     \<and> (if has_header OWN_POLICY_HEADER app_headers
        then header_values (py ''content-security-policy'') hs = header_values (py ''content-security-policy'') app_headers
          \<and> header_values (py ''cache-control'') hs = header_values (py ''cache-control'') app_headers
        else header_values (py ''content-security-policy'') hs = [sh_content_security_policy policy]
          \<and> header_values (py ''cache-control'') hs = (case cache_control policy path of
              None \<Rightarrow> header_values (py ''cache-control'') app_headers | Some v \<Rightarrow> [v]))"

lemma apply_policy_carries: "carries_policy policy path secure hs (apply_policy policy path secure hs)"
proof (cases "has_header OWN_POLICY_HEADER hs")
  case True
  then show ?thesis
    unfolding carries_policy_def apply_policy_def Let_def has_header_iff OWN_POLICY_HEADER_def
    by (simp split del: if_split) simp
next
  case False
  then show ?thesis
    unfolding carries_policy_def apply_policy_def Let_def has_header_iff OWN_POLICY_HEADER_def
    by (cases "cache_control policy path") simp_all
qed

section \<open>Running behind the policy\<close>

lemma with_policy_simps [simp]:
  "with_policy policy path secure started Done = Done"
  "with_policy policy path secure True (Fail e) = Fail e"
  "with_policy policy path secure False (Fail e) =
     Send (policied policy path secure (start_of internal_server_error)) (\<lambda>r. case r of
          Inl _ \<Rightarrow> Fail e
        | Inr _ \<Rightarrow> Send (ResponseBody (rs_body internal_server_error)) (\<lambda>_. Fail e))"
  "with_policy policy path secure started (Receive k) = Receive (\<lambda>m. with_policy policy path secure started (k m))"
  "with_policy policy path secure started (Send out after) = Send (policied policy path secure out)
     (\<lambda>r. with_policy policy path secure (started \<or> is_start out) (after r))"
  "with_policy policy path secure started (Do u cont) = Do u (\<lambda>s. with_policy policy path secure started (cont s))"
  by (subst with_policy.code, simp)+

definition the_500 :: "security_headers_policy \<Rightarrow> pystr \<Rightarrow> bool \<Rightarrow> message list" where
  "the_500 policy path secure = [policied policy path secure (start_of internal_server_error),
     ResponseBody (rs_body internal_server_error)]"

lemma failed_run:
  "sent (run n (Fail e) s ins outs) = []"
  "ended (run n (Fail e) s ins outs) = None \<or> ended (run n (Fail e) s ins outs) = Some (Inl e)"
  by (cases n; simp)+

lemma send_then_fail_run:
  "prefix (sent (run n (Send b (\<lambda>_. Fail e)) s ins outs)) [b]"
  "ended (run n (Send b (\<lambda>_. Fail e)) s ins outs) = None \<or> ended (run n (Send b (\<lambda>_. Fail e)) s ins outs) = Some (Inl e)"
proof -
  show "prefix (sent (run n (Send b (\<lambda>_. Fail e)) s ins outs)) [b]"
    by (cases n) (simp_all add: failed_run(1))
  show "ended (run n (Send b (\<lambda>_. Fail e)) s ins outs) = None \<or> ended (run n (Send b (\<lambda>_. Fail e)) s ins outs) = Some (Inl e)"
  proof (cases n)
    case (Suc m)
    then show ?thesis using failed_run(2)[of m e s ins "tl outs"] by simp
  qed simp
qed

lemma after_500_run:
  fixes r :: "exn + unit"
  shows "prefix (sent (run n (case r of Inl _ \<Rightarrow> Fail e | Inr _ \<Rightarrow> Send b (\<lambda>_. Fail e)) s ins outs)) [b]"
    and "ended (run n (case r of Inl _ \<Rightarrow> Fail e | Inr _ \<Rightarrow> Send b (\<lambda>_. Fail e)) s ins outs) = None
      \<or> ended (run n (case r of Inl _ \<Rightarrow> Fail e | Inr _ \<Rightarrow> Send b (\<lambda>_. Fail e)) s ins outs) = Some (Inl e)"
  using failed_run(2)[of n e s ins outs] send_then_fail_run[where n = n and e = e and b = b and s = s and ins = ins and outs = outs]
  by (cases r; simp add: failed_run(1))+

lemma with_policy_run:
  "\<exists>added. sent (run n (with_policy policy path secure started p) s ins outs)
      = map (policied policy path secure) (sent (run n p s ins outs)) @ added
    \<and> (added = [] \<or> (\<not> started \<and> starts (sent (run n p s ins outs)) = [] \<and> prefix added (the_500 policy path secure)
        \<and> (\<exists>e. ended (run n p s ins outs) = Some (Inl e))))
    \<and> ended (run n (with_policy policy path secure started p) s ins outs) \<in> {None, ended (run n p s ins outs)}"
proof (induction n arbitrary: p started s ins outs)
  case (Suc n)
  show ?case
  proof (cases p)
    case Done
    then show ?thesis by simp
  next
    case (Fail e)
    show ?thesis
    proof (cases started)
      case False
      note after = after_500_run[where n = n and e = e and s = s and ins = ins and outs = "tl outs"
          and r = "case outs of [] \<Rightarrow> Inr () | r # _ \<Rightarrow> r" and b = "ResponseBody (rs_body internal_server_error)"]
      from Fail False after(1) show ?thesis using after(2) by (simp add: the_500_def)
    qed (simp add: Fail)
  next
    case (Receive k)
    with Suc.IH show ?thesis by simp
  next
    case (Send m after)
    let ?r = "case outs of [] \<Rightarrow> Inr () | r # _ \<Rightarrow> r"
    obtain added where "sent (run n (with_policy policy path secure (started \<or> is_start m) (after ?r)) s ins (tl outs))
        = map (policied policy path secure) (sent (run n (after ?r) s ins (tl outs))) @ added"
      "added = [] \<or> (\<not> (started \<or> is_start m) \<and> starts (sent (run n (after ?r) s ins (tl outs))) = []
        \<and> prefix added (the_500 policy path secure)
        \<and> (\<exists>e. ended (run n (after ?r) s ins (tl outs)) = Some (Inl e)))"
      "ended (run n (with_policy policy path secure (started \<or> is_start m) (after ?r)) s ins (tl outs))
        \<in> {None, ended (run n (after ?r) s ins (tl outs))}"
      using Suc.IH by blast
    then show ?thesis unfolding Send by (intro exI[of _ added]) auto
  next
    case (Do u cont)
    with Suc.IH show ?thesis by simp
  qed
qed simp

text \<open>Before a server that accepts what it is sent, the answer is exact.\<close>

lemma with_policy_ended:
  assumes "ended (run n p s ins []) = Some r"
  shows "ended (run (n + 2) (with_policy policy path secure started p) s ins []) = Some r
    \<and> state_of (run (n + 2) (with_policy policy path secure started p) s ins []) = state_of (run n p s ins [])
    \<and> sent (run (n + 2) (with_policy policy path secure started p) s ins [])
      = map (policied policy path secure) (sent (run n p s ins []))
        @ (if isl r \<and> \<not> started \<and> starts (sent (run n p s ins [])) = [] then the_500 policy path secure else [])"
  using assms
proof (induction n arbitrary: p started s ins)
  case (Suc n)
  then show ?case
    by (cases p; cases started) (auto simp: the_500_def)
qed simp

section \<open>Properties\<close>

text \<open>C20. Every response that leaves an http request carries the deployment's policy, whatever the
  application does and whatever the server makes of its sends: each response start sent in any run
  has the five policy headers exactly once, HSTS exactly when cookies are secure (never one of the
  route's own when they are not), no marker header, and its cacheability and content security policy
  are the deployment's, or the answer's own when it carried the marker.\<close>

theorem every_start_carries_policy:
  assumes "sc_type sc = Http" and "installed_web_auth_config (sc_app sc) = Inr cfg"
    and "ResponseStart status hs cookies \<in> set (sent (run n (security_headers policy app sc) s ins outs))"
  shows "\<exists>app_headers. carries_policy policy (route_path sc) (cf_cookie_secure cfg) app_headers hs
    \<and> (ResponseStart status app_headers cookies \<in> set (sent (run n (app sc) s ins outs))
        \<or> (status = 500 \<and> app_headers = []))"
proof -
  let ?pol = "policied policy (route_path sc) (cf_cookie_secure cfg)"
  obtain added where "sent (run n (security_headers policy app sc) s ins outs)
      = map ?pol (sent (run n (app sc) s ins outs)) @ added"
    and added: "added = [] \<or> prefix added (the_500 policy (route_path sc) (cf_cookie_secure cfg))"
    using with_policy_run[of n policy "route_path sc" "cf_cookie_secure cfg" False "app sc" s ins outs] assms(1,2)
    by (auto simp: security_headers_def)
  then consider m where "m \<in> set (sent (run n (app sc) s ins outs))" "?pol m = ResponseStart status hs cookies"
    | "ResponseStart status hs cookies \<in> set (the_500 policy (route_path sc) (cf_cookie_secure cfg))"
    using assms(3) by (auto dest: set_mono_prefix)
  then show ?thesis
  proof cases
    case 1
    from 1(2) obtain app_headers where "m = ResponseStart status app_headers cookies"
      "hs = apply_policy policy (route_path sc) (cf_cookie_secure cfg) app_headers"
      by (cases m) simp_all
    with 1 apply_policy_carries show ?thesis by blast
  next
    case 2
    then have "status = 500" "hs = apply_policy policy (route_path sc) (cf_cookie_secure cfg) []"
      by (simp_all add: the_500_def start_of_def internal_server_error_def)
    with apply_policy_carries show ?thesis by blast
  qed
qed

lemma sample_policy_app:
  "sent (run 3 (security_headers policy (\<lambda>_. send_response r) (sample_scope [])) (s :: unit) [] [])
    = [policied policy (py ''/'') True (start_of r), ResponseBody (rs_body r)]"
  by (simp add: security_headers_def sample_scope_def installed_web_auth_config_def sample_config_def
      send_response_def numeral_3_eq_3 start_of_def route_path_def)

definition sample_headers_policy :: security_headers_policy where
  "sample_headers_policy = \<lparr>sh_content_security_policy = py ''default-src'', sh_cache_control_rules = [],
     sh_permissions_policy = py ''camera=()''\<rparr>"

lemma every_start_carries_policy_witness:
  "\<exists>hs app_headers. ResponseStart 200 hs [] \<in> set (sent (run 3 (security_headers sample_headers_policy
      (\<lambda>_. send_response \<lparr>rs_status = 200, rs_body = NoBody, rs_headers = [], rs_cookies = []\<rparr>) (sample_scope [])) () [] []))
    \<and> carries_policy sample_headers_policy (py ''/'') True app_headers hs"
proof -
  let ?r = "\<lparr>rs_status = 200, rs_body = NoBody, rs_headers = [], rs_cookies = []\<rparr> :: response"
  let ?hs = "apply_policy sample_headers_policy (py ''/'') True []"
  have sent: "ResponseStart 200 ?hs [] \<in> set (sent (run 3 (security_headers sample_headers_policy (\<lambda>_. send_response ?r) (sample_scope [])) () [] []))"
    unfolding sample_policy_app by (simp add: start_of_def)
  have "sc_type (sample_scope [] :: unit scope) = Http" "route_path (sample_scope [] :: unit scope) = py ''/''"
    by (simp_all add: sample_scope_def route_path_def)
  moreover have "installed_web_auth_config (sc_app (sample_scope [])) = Inr (sample_config :: unit web_auth_config)"
    using sample_config_installed by (simp add: web_auth_config_def)
  moreover have "cf_cookie_secure (sample_config :: unit web_auth_config)" by (simp add: sample_config_def)
  ultimately show ?thesis
    using every_start_carries_policy[OF _ _ sent] sent by auto
qed

text \<open>C21. A failing application is answered once and its exception is not swallowed: before a server
  that accepts what it is sent, an application that ends in any number of steps, with or without an
  exception, ends behind the policy with the same outcome and the same host state; what leaves is
  what it sent under the policy, followed by one complete 500 exactly when it raised and had
  started no response.\<close>

theorem failure_is_answered_once:
  assumes "sc_type sc = Http" and "installed_web_auth_config (sc_app sc) = Inr cfg"
    and "ended (run n (app sc) s ins []) = Some r"
  shows "ended (run (n + 2) (security_headers policy app sc) s ins []) = Some r
    \<and> state_of (run (n + 2) (security_headers policy app sc) s ins []) = state_of (run n (app sc) s ins [])
    \<and> sent (run (n + 2) (security_headers policy app sc) s ins [])
      = map (policied policy (route_path sc) (cf_cookie_secure cfg)) (sent (run n (app sc) s ins []))
        @ (if isl r \<and> starts (sent (run n (app sc) s ins [])) = []
           then the_500 policy (route_path sc) (cf_cookie_secure cfg) else [])"
  using with_policy_ended[OF assms(3), of policy "route_path sc" "cf_cookie_secure cfg" False] assms(1,2)
  by (simp add: security_headers_def)

lemma failure_is_answered_once_witness:
  "sent (run (1 + 2) (security_headers sample_headers_policy (\<lambda>_. Fail KeyError) (sample_scope [])) () [] [])
    = the_500 sample_headers_policy (py ''/'') True"
proof -
  have "sc_type (sample_scope [] :: unit scope) = Http" "route_path (sample_scope [] :: unit scope) = py ''/''"
    by (simp_all add: sample_scope_def route_path_def)
  moreover have "installed_web_auth_config (sc_app (sample_scope [])) = Inr (sample_config :: unit web_auth_config)"
    using sample_config_installed by (simp add: web_auth_config_def)
  moreover have "cf_cookie_secure (sample_config :: unit web_auth_config)" by (simp add: sample_config_def)
  moreover have "ended (run 1 (Fail KeyError) () [] []) = Some (Inl KeyError)" "sent (run 1 (Fail KeyError) () [] []) = []"
    by (simp_all add: ended_def sent_def run.simps)
  ultimately show ?thesis
    using failure_is_answered_once[of "sample_scope []" sample_config 1 "\<lambda>_. Fail KeyError" "()" "[]" "Inl KeyError"
        sample_headers_policy] by simp
qed

end
