(* ===== verification/BodySize.thy ===== *)
theory BodySize
  imports Asgi Policies MediaTypes
begin

text \<open>
  \<open>middleware/body_size.py\<close>: an oversized body is refused at the door by its Content-Length, and
  again while it streams in. \<open>guarded\<close> is the application run with \<open>guarded_receive\<close> and
  \<open>send_start_whole\<close> in place of the server's: \<open>received\<close> and \<open>start_handed_over\<close> are its two
  local variables, and the \<open>except RequestBodyTooLarge\<close> around the call is its \<open>Fail\<close>. Sends have
  no duration here: a start that is not out within the policy's \<open>start_send_seconds\<close> is a send that
  fails with \<open>TimeoutError\<close>, which the server's answers may do at any send, so the theorems hold for
  every deadline and say nothing of when it strikes.
\<close>

section \<open>The declared length\<close>

text \<open>Python's \<open>int\<close> of a text: surrounding space, a sign, digits with single underscores, at most
  4300 digits.\<close>

definition py_int :: "pystr \<Rightarrow> int option" where
  "py_int text = (case split_sign (strip text) of (neg, s) \<Rightarrow>
     (case digit_part 0 0 s of
        None \<Rightarrow> None
      | Some (v, n) \<Rightarrow> if 4300 < n then None else Some (if neg then - int v else int v)))"

definition declared_length :: "pystr \<Rightarrow> int" where
  "declared_length v = (case py_int v of None \<Rightarrow> 0 | Some i \<Rightarrow> i)"

definition declares_over :: "'s scope \<Rightarrow> int \<Rightarrow> bool" where
  "declares_over sc limit \<longleftrightarrow>
     list_ex (\<lambda>(name, v). lower_py name = py ''content-length'' \<and> limit < declared_length v) (sc_headers sc)"

definition too_large :: response where
  "too_large = json_detail 413 (py ''Request body too large'') []"

section \<open>The streamed body\<close>

fun body_bytes :: "exn + in_message \<Rightarrow> int" where
  "body_bytes (Inr (HttpRequest body _)) = int (length body)"
| "body_bytes _ = 0"

text \<open>What \<open>guarded_receive\<close> hands the application for a message of the server.\<close>

definition handed_over :: "int \<Rightarrow> int \<Rightarrow> exn + in_message \<Rightarrow> exn + in_message" where
  "handed_over limit received m =
     (case m of
        Inr (HttpRequest _ _) \<Rightarrow> if limit < received + body_bytes m then Inl BodyTooLarge else m
      | _ \<Rightarrow> m)"

primcorec guarded :: "'s proc \<Rightarrow> int \<Rightarrow> int \<Rightarrow> bool \<Rightarrow> 's proc" where
  "guarded p limit received started = (case p of
      Done \<Rightarrow> Done
    | Fail e \<Rightarrow> if e = BodyTooLarge \<and> \<not> started
        then Send (start_of too_large) (then_or_fail (Send (ResponseBody (rs_body too_large)) (then_or_fail Done)))
        else Fail e
    | Receive k \<Rightarrow> Receive (\<lambda>m. guarded (k (handed_over limit received m)) limit (received + body_bytes m) started)
    | Send m k \<Rightarrow> Send m (\<lambda>r. guarded (k r) limit received (started \<or> is_start m))
    | Do u k \<Rightarrow> Do u (\<lambda>s. guarded (k s) limit received started))"

definition body_size_limit :: "body_size_policy \<Rightarrow> 's asgi \<Rightarrow> 's asgi" where
  "body_size_limit policy app sc =
     (if sc_type sc \<noteq> Http then app sc
      else let limit = max_bytes policy (route_path sc) (sc_method sc) in
        if declares_over sc limit then send_response too_large
        else guarded (app sc) limit 0 False)"

section \<open>Facts\<close>

lemma guarded_simps [simp]:
  "guarded Done limit received started = Done"
  "guarded (Fail e) limit received started = (if e = BodyTooLarge \<and> \<not> started then send_response too_large else Fail e)"
  "guarded (Receive k) limit received started =
     Receive (\<lambda>m. guarded (k (handed_over limit received m)) limit (received + body_bytes m) started)"
  "guarded (Send out after) limit received started =
     Send out (\<lambda>r. guarded (after r) limit received (started \<or> is_start out))"
  "guarded (Do u cont) limit received started = Do u (\<lambda>s. guarded (cont s) limit received started)"
  by (subst guarded.code, simp add: send_response_def)+

text \<open>The messages the application is handed while the server delivers \<open>ins\<close>.\<close>

fun handed :: "int \<Rightarrow> int \<Rightarrow> (exn + in_message) list \<Rightarrow> (exn + in_message) list" where
  "handed limit received [] = []"
| "handed limit received (m # ms) = handed_over limit received m # handed limit (received + body_bytes m) ms"

lemma handed_tl [simp]: "handed limit received ms \<noteq> [] \<Longrightarrow> ms \<noteq> []"
  by (cases ms) auto

text \<open>A run behind the limit is a run of the application on what it was handed, up to the 413 that
  answers its \<open>RequestBodyTooLarge\<close> when nothing had started.\<close>

lemma guarded_run:
  "\<exists>limited. sent (run n (guarded p limit received started) s ins outs)
      = sent (run n p s (handed limit received ins) outs) @ limited
    \<and> (limited = [] \<or> (\<not> started \<and> starts (sent (run n p s (handed limit received ins) outs)) = []
        \<and> ended (run n p s (handed limit received ins) outs) = Some (Inl BodyTooLarge)
        \<and> limited \<in> {[start_of too_large], [start_of too_large, ResponseBody (rs_body too_large)]}))"
proof (induction n arbitrary: p received started s ins outs)
  case (Suc n)
  show ?case
  proof (cases p)
    case Done
    then show ?thesis by simp
  next
    case (Fail e)
    then show ?thesis
      using sent_send_response[of "Suc n" too_large s ins outs] by auto
  next
    case (Receive k)
    show ?thesis
    proof (cases ins)
      case Nil
      with Receive Suc.IH[of "k (Inr HttpDisconnect)" received started s "[]" outs]
      show ?thesis by (simp add: handed_over_def)
    next
      case (Cons m ms)
      with Receive Suc.IH[of "k (handed_over limit received m)" "received + body_bytes m" started s ms outs]
      show ?thesis by simp
    qed
  next
    case (Send m after)
    let ?r = "case outs of [] \<Rightarrow> Inr () | r # _ \<Rightarrow> r"
    obtain limited where "sent (run n (guarded (after ?r) limit received (started \<or> is_start m)) s ins (tl outs))
        = sent (run n (after ?r) s (handed limit received ins) (tl outs)) @ limited"
      "limited = [] \<or> (\<not> (started \<or> is_start m) \<and> starts (sent (run n (after ?r) s (handed limit received ins) (tl outs))) = []
        \<and> ended (run n (after ?r) s (handed limit received ins) (tl outs)) = Some (Inl BodyTooLarge)
        \<and> limited \<in> {[start_of too_large], [start_of too_large, ResponseBody (rs_body too_large)]})"
      using Suc.IH by blast
    then show ?thesis unfolding Send by (intro exI[of _ limited]) auto
  next
    case (Do u cont)
    with Suc.IH[of "cont s" received started "u s" ins outs] show ?thesis by simp
  qed
qed simp

text \<open>The bytes of the bodies an application is handed never exceed the limit.\<close>

lemma handed_within:
  "0 \<le> received \<Longrightarrow> received \<le> limit \<Longrightarrow> received + sum_list (map body_bytes (handed limit received ins)) \<le> limit"
proof (induction ins arbitrary: received)
  case (Cons m ms)
  have nonneg: "0 \<le> body_bytes m" by (cases m rule: body_bytes.cases) auto
  show ?case
  proof (cases "limit < received + body_bytes m")
    case False
    then have "handed_over limit received m = m" by (auto simp: handed_over_def split: sum.split in_message.split)
    with Cons.IH[of "received + body_bytes m"] Cons.prems False nonneg show ?thesis by simp
  next
    case True
    have over: "body_bytes (handed_over limit r x) \<le> max 0 (limit - r)" for r x
      by (cases x rule: body_bytes.cases) (auto simp: handed_over_def)
    have "sum_list (map body_bytes (handed limit r xs)) = 0" if "limit < r" for r xs
      using that
    proof (induction xs arbitrary: r)
      case (Cons x xs)
      have "0 \<le> body_bytes x" "0 \<le> body_bytes (handed_over limit r x)"
        by (cases x rule: body_bytes.cases; simp add: handed_over_def)+
      with over[of r x] Cons.IH[of "r + body_bytes x"] Cons.prems show ?case by simp
    qed simp
    moreover have "body_bytes (handed_over limit received m) = 0"
      using True Cons.prems by (cases m rule: body_bytes.cases) (auto simp: handed_over_def)
    ultimately show ?thesis using Cons.prems True by simp
  qed
qed simp

section \<open>Properties\<close>

text \<open>C22. No application behind the limit is handed more body than its budget. In every run, of any
  length and against any server: a request that declares too much is answered 413 without the
  application; any other is run on messages whose bodies together are within the budget, everything
  it sends goes out, and the only thing the middleware adds is a 413 at the very end, when the
  application stopped on the size error and had started no response, so a second start never leaves.\<close>

theorem body_budget_holds:
  assumes "sc_type sc = Http" and "0 \<le> max_bytes policy (route_path sc) (sc_method sc)"
  shows "(declares_over sc (max_bytes policy (route_path sc) (sc_method sc)) \<longrightarrow>
      body_size_limit policy app sc = send_response too_large)
    \<and> (\<not> declares_over sc (max_bytes policy (route_path sc) (sc_method sc)) \<longrightarrow>
      (\<exists>received limited.
        sum_list (map body_bytes received) \<le> max_bytes policy (route_path sc) (sc_method sc)
        \<and> sent (run n (body_size_limit policy app sc) s ins outs) = sent (run n (app sc) s received outs) @ limited
        \<and> (limited = [] \<or> starts (sent (run n (app sc) s received outs)) = []
            \<and> ended (run n (app sc) s received outs) = Some (Inl BodyTooLarge)
            \<and> limited \<in> {[start_of too_large], [start_of too_large, ResponseBody (rs_body too_large)]})))"
proof -
  let ?limit = "max_bytes policy (route_path sc) (sc_method sc)"
  obtain limited where "sent (run n (guarded (app sc) ?limit 0 False) s ins outs)
      = sent (run n (app sc) s (handed ?limit 0 ins) outs) @ limited"
    "limited = [] \<or> (starts (sent (run n (app sc) s (handed ?limit 0 ins) outs)) = []
        \<and> ended (run n (app sc) s (handed ?limit 0 ins) outs) = Some (Inl BodyTooLarge)
        \<and> limited \<in> {[start_of too_large], [start_of too_large, ResponseBody (rs_body too_large)]})"
    using guarded_run[of n "app sc" ?limit 0 False s ins outs] by blast
  moreover have "sum_list (map body_bytes (handed ?limit 0 ins)) \<le> ?limit"
    using handed_within[of 0 ?limit ins] assms(2) by simp
  ultimately show ?thesis
    using assms(1) by (auto simp: body_size_limit_def Let_def)
qed

lemma body_budget_holds_witness:
  "\<exists>received limited. sum_list (map body_bytes received) \<le> 3
    \<and> sent (run 9 (body_size_limit \<lparr>bp_default_max_bytes = 3, bp_rules = [], bp_start_send_seconds = 10\<rparr>
        (\<lambda>_. Receive (\<lambda>m. case m of Inl e \<Rightarrow> Fail e | Inr _ \<Rightarrow> Done)) (sample_scope [])) () [Inr (HttpRequest (py ''four'') False)] [])
      = sent (run 9 (Receive (\<lambda>m. case m of Inl e \<Rightarrow> Fail e | Inr _ \<Rightarrow> Done)) () received []) @ limited"
proof -
  let ?policy = "\<lparr>bp_default_max_bytes = 3, bp_rules = [], bp_start_send_seconds = 10\<rparr>"
  have "max_bytes ?policy p m = 3" for p m by (simp add: max_bytes_def)
  moreover have "\<not> declares_over (sample_scope [] :: unit scope) 3"
    by (simp add: declares_over_def sample_scope_def)
  moreover have "sc_type (sample_scope [] :: unit scope) = Http" by (simp add: sample_scope_def)
  ultimately show ?thesis
    using body_budget_holds[of "sample_scope []" ?policy
        "\<lambda>_. Receive (\<lambda>m. case m of Inl e \<Rightarrow> Fail e | Inr _ \<Rightarrow> Done)" 9 "()" "[Inr (HttpRequest (py ''four'') False)]" "[]"]
    by auto
qed

end
