(* ===== verification/Csp.thy ===== *)
theory Csp
  imports Policies
begin

text \<open>
  \<open>default_content_security_policy\<close> of \<open>webauth/policies.py\<close>: the directives a host may extend,
  the validation of its additions, and the text of the policy.
\<close>

datatype csp_directive =
    SCRIPT_SRC | STYLE_SRC | CONNECT_SRC | IMG_SRC | MEDIA_SRC | FONT_SRC | MANIFEST_SRC
  | WORKER_SRC | FRAME_ANCESTORS | FORM_ACTION

fun directive_name :: "csp_directive \<Rightarrow> pystr" where
  "directive_name SCRIPT_SRC = py ''script-src''"
| "directive_name STYLE_SRC = py ''style-src''"
| "directive_name CONNECT_SRC = py ''connect-src''"
| "directive_name IMG_SRC = py ''img-src''"
| "directive_name MEDIA_SRC = py ''media-src''"
| "directive_name FONT_SRC = py ''font-src''"
| "directive_name MANIFEST_SRC = py ''manifest-src''"
| "directive_name WORKER_SRC = py ''worker-src''"
| "directive_name FRAME_ANCESTORS = py ''frame-ancestors''"
| "directive_name FORM_ACTION = py ''form-action''"

definition csp_directives :: "csp_directive list" where
  "csp_directives = [SCRIPT_SRC, STYLE_SRC, CONNECT_SRC, IMG_SRC, MEDIA_SRC, FONT_SRC,
     MANIFEST_SRC, WORKER_SRC, FRAME_ANCESTORS, FORM_ACTION]"

definition quoted :: "pystr \<Rightarrow> pystr" where
  "quoted s = 39 # s @ [39]"

definition self_keyword :: pystr where "self_keyword = quoted (py ''self'')"
definition none_source :: pystr where "none_source = quoted (py ''none'')"

fun default_sources :: "csp_directive \<Rightarrow> pystr list" where
  "default_sources IMG_SRC = [self_keyword, py ''data:'', py ''blob:'']"
| "default_sources MEDIA_SRC = [self_keyword, py ''blob:'']"
| "default_sources FRAME_ANCESTORS = [none_source]"
| "default_sources _ = [self_keyword]"

definition fixed_directives :: "pystr list" where
  "fixed_directives = [py ''default-src '' @ none_source, py ''base-uri '' @ self_keyword]"

definition is_base64_char :: "nat \<Rightarrow> bool" where
  "is_base64_char c \<longleftrightarrow> is_alnum_ascii c \<or> c = 43 \<or> c = 47 \<or> c = 45 \<or> c = 95"

text \<open>The pattern \<open>sha(?:256|384|512)-[A-Za-z0-9+/\\-_]+={0,2}\<close>, case-insensitive.\<close>

definition is_bare_hash :: "pystr \<Rightarrow> bool" where
  "is_bare_hash s \<longleftrightarrow>
     lower_py (take 7 s) \<in> {py ''sha256-'', py ''sha384-'', py ''sha512-''} \<and> isascii (take 7 s)
     \<and> (let value = drop 7 s; body = takeWhile is_base64_char value;
            padding = dropWhile is_base64_char value
        in body \<noteq> [] \<and> length padding \<le> 2 \<and> list_all (\<lambda>c. c = 61) padding)"

definition is_source_token_char :: "nat \<Rightarrow> bool" where
  "is_source_token_char c \<longleftrightarrow> (33 \<le> c \<and> c \<le> 43) \<or> (45 \<le> c \<and> c \<le> 58) \<or> (60 \<le> c \<and> c \<le> 126)"

definition is_source_token :: "pystr \<Rightarrow> bool" where
  "is_source_token s \<longleftrightarrow> s \<noteq> [] \<and> list_all is_source_token_char s"

fun source_str :: "pyobj \<Rightarrow> exn + pystr" where
  "source_str (PyStr s) = Inr s"
| "source_str _ = Inl TypeError"

fun sequence_items :: "pyobj \<Rightarrow> exn + pyobj list" where
  "sequence_items (PyList xs) = Inr xs"
| "sequence_items (PyTuple xs) = Inr xs"
| "sequence_items _ = Inl TypeError"

definition require_source_list :: "pyobj \<Rightarrow> exn + pystr list" where
  "require_source_list sources =
     bindR (require_collection_not_one_string sources) (\<lambda>_.
     bindR (sequence_items sources) (mapR source_str))"

definition validated_hash :: "pystr \<Rightarrow> exn + pystr" where
  "validated_hash h = (if is_bare_hash h then Inr (quoted h) else Inl ValueError)"

definition validated_source :: "pystr \<Rightarrow> exn + pystr" where
  "validated_source s = (if is_source_token s then Inr s else Inl ValueError)"

text \<open>
  The \<open>added_sources\<close> argument: absent, an object that is no \<open>Mapping\<close>, or a mapping whose keys
  may be no \<open>CspDirective\<close> (\<open>None\<close>) and whose values may be no sequence of strings.
\<close>

datatype added_sources =
    NoAdditions
  | NotAMapping
  | Additions "(csp_directive option \<times> pyobj) list"

definition validated_addition ::
    "csp_directive option \<times> pyobj \<Rightarrow> exn + (csp_directive \<times> pystr list)" where
  "validated_addition entry = (case entry of
      (None, _) \<Rightarrow> Inl TypeError
    | (Some d, sources) \<Rightarrow>
        bindR (require_source_list sources) (\<lambda>ss.
        bindR (mapR validated_source ss) (\<lambda>vs. Inr (d, vs))))"

fun validated_additions :: "added_sources \<Rightarrow> exn + (csp_directive \<times> pystr list) list" where
  "validated_additions NoAdditions = Inr []"
| "validated_additions NotAMapping = Inl TypeError"
| "validated_additions (Additions entries) = mapR validated_addition entries"

text \<open>\<open>dict.fromkeys\<close> keeps the first of equal items, in order.\<close>

fun fromkeys :: "'a list \<Rightarrow> 'a list" where
  "fromkeys [] = []"
| "fromkeys (x # xs) = x # fromkeys (filter (\<lambda>y. y \<noteq> x) xs)"

definition source_list :: "csp_directive \<Rightarrow> pystr list \<Rightarrow> pystr list \<Rightarrow> pystr" where
  "source_list d quoted_hashes additions =
     (let defaults = default_sources d;
          defaults = (if additions \<noteq> [] \<and> defaults = [none_source] then [] else defaults);
          hashes = (if d = SCRIPT_SRC then quoted_hashes else [])
      in join_with (py '' '') (fromkeys (defaults @ hashes @ additions)))"

definition default_content_security_policy :: "pyobj \<Rightarrow> added_sources \<Rightarrow> exn + pystr" where
  "default_content_security_policy script_hashes added =
     bindR (bindR (require_source_list script_hashes) (mapR validated_hash)) (\<lambda>quoted_hashes.
     bindR (validated_additions added) (\<lambda>additions.
       let sources_of = (\<lambda>d. case map_of additions d of None \<Rightarrow> [] | Some ss \<Rightarrow> ss);
           directives = map (\<lambda>d. directive_name d @ py '' '' @
              source_list d quoted_hashes (sources_of d)) csp_directives
       in Inr (join_with (py ''; '') (fixed_directives @ directives))))"

section \<open>No source can end a directive\<close>

lemma set_fromkeys [simp]: "set (fromkeys xs) = set xs"
  by (induction xs rule: fromkeys.induct) auto

lemma distinct_fromkeys: "distinct (fromkeys xs)"
  by (induction xs rule: fromkeys.induct) auto

lemma source_token_chars: "is_source_token s \<Longrightarrow> x \<in> set s \<Longrightarrow> x \<noteq> 59 \<and> x \<noteq> 44 \<and> x \<noteq> 32"
  by (auto simp: is_source_token_def is_source_token_char_def list_all_iff)

lemma bare_hash_chars:
  assumes "is_bare_hash h" and "x \<in> set h"
  shows "x \<noteq> 59 \<and> x \<noteq> 44 \<and> x \<noteq> 32"
proof -
  have lower: "lower_char x \<in> set (py ''sha256-'' @ py ''sha384-'' @ py ''sha512-'')"
    if "x \<in> set (take 7 h)"
  proof -
    from that have "lower_char x \<in> set (lower_py (take 7 h))" by (auto simp: lower_py_def)
    with assms(1) show ?thesis by (auto simp: is_bare_hash_def)
  qed
  have "x \<in> set (take 7 h) \<or> x \<in> set (drop 7 h)"
    using assms(2) by (metis Un_iff append_take_drop_id set_append)
  then show ?thesis
  proof
    assume "x \<in> set (take 7 h)"
    with lower show ?thesis by (auto simp: py_eval lower_char_def char_class_defs)
  next
    assume "x \<in> set (drop 7 h)"
    then have "x \<in> set (takeWhile is_base64_char (drop 7 h))
        \<or> x \<in> set (dropWhile is_base64_char (drop 7 h))"
      by (metis Un_iff set_append takeWhile_dropWhile_id)
    then have "is_base64_char x \<or> x = 61"
      using assms(1) by (auto simp: is_bare_hash_def Let_def list_all_iff dest: set_takeWhileD)
    then show ?thesis by (auto simp: is_base64_char_def char_class_defs)
  qed
qed

lemma default_sources_chars: "s \<in> set (default_sources d) \<Longrightarrow> x \<in> set s \<Longrightarrow> x \<noteq> 59 \<and> x \<noteq> 44"
  by (cases d) (auto simp: self_keyword_def none_source_def quoted_def py_eval)

lemma source_list_items:
  assumes "x \<in> set (source_list d hs as)"
  shows "x = 32 \<or> (\<exists>s\<in>set (default_sources d) \<union> set hs \<union> set as. x \<in> set s)"
proof -
  let ?defaults = "if as \<noteq> [] \<and> default_sources d = [none_source] then [] else default_sources d"
  let ?hashes = "if d = SCRIPT_SRC then hs else []"
  have "x \<in> set (join_with (py '' '') (fromkeys (?defaults @ ?hashes @ as)))"
    using assms by (simp add: source_list_def Let_def)
  then have "x \<in> set (py '' '') \<union> \<Union> (set ` set (fromkeys (?defaults @ ?hashes @ as)))"
    using set_join_with by (rule subsetD [rotated])
  then have "x = 32 \<or> (\<exists>s\<in>set ?defaults \<union> set ?hashes \<union> set as. x \<in> set s)"
    by (auto simp: py_eval)
  moreover have "set ?defaults \<subseteq> set (default_sources d)" "set ?hashes \<subseteq> set hs"
    by auto
  ultimately show ?thesis by blast
qed

lemma source_list_chars:
  assumes "\<forall>s\<in>set hs \<union> set as. \<forall>x\<in>set s. x \<noteq> 59 \<and> x \<noteq> 44"
    and "x \<in> set (source_list d hs as)"
  shows "x \<noteq> 59 \<and> x \<noteq> 44"
  using source_list_items[OF assms(2)] assms(1) default_sources_chars by auto

lemma validated_hashes_chars:
  assumes "mapR validated_hash hs = Inr qs" and "q \<in> set qs" and "x \<in> set q"
  shows "x \<noteq> 59 \<and> x \<noteq> 44"
proof -
  obtain h where "validated_hash h = Inr q"
    using mapR_InrD[OF assms(1,2)] by blast
  then have "is_bare_hash h" "q = quoted h"
    by (auto simp: validated_hash_def split: if_splits)
  with assms(3) bare_hash_chars show ?thesis by (auto simp: quoted_def)
qed

lemma validated_addition_chars:
  assumes "validated_additions added = Inr adds" and "(d, vs) \<in> set adds"
    and "v \<in> set vs" and "x \<in> set v"
  shows "x \<noteq> 59 \<and> x \<noteq> 44 \<and> x \<noteq> 32"
proof -
  obtain entries where entries: "mapR validated_addition entries = Inr adds"
    using assms(1,2) by (cases added) auto
  then obtain e where "validated_addition e = Inr (d, vs)"
    using mapR_InrD[OF entries assms(2)] by blast
  then obtain ss where ss: "mapR validated_source ss = Inr vs"
    by (auto simp: validated_addition_def split: prod.splits option.splits)
  obtain t where "validated_source t = Inr v"
    using mapR_InrD[OF ss assms(3)] by blast
  then have "is_source_token v" by (auto simp: validated_source_def split: if_splits)
  then show ?thesis using assms(4) source_token_chars by blast
qed

lemma directive_name_chars: "x \<in> set (directive_name d) \<Longrightarrow> x \<noteq> 59 \<and> x \<noteq> 32"
  by (cases d) (auto simp: py_eval)

text \<open>The name a directive of a serialised policy carries: what precedes its first space.\<close>

definition serialised_names :: "pystr \<Rightarrow> pystr list" where
  "serialised_names csp =
     map (\<lambda>part. fst (partition_on 32 (dropWhile (\<lambda>c. c = 32) part))) (split_on 59 csp)"

lemma serialised_name:
  assumes "32 \<notin> set n" and "n \<noteq> []"
  shows "fst (partition_on 32 (dropWhile (\<lambda>c. c = 32) (n @ 32 # rest))) = n"
proof -
  obtain a as where n: "n = a # as" and "a \<noteq> 32" using assms by (cases n) auto
  then have "dropWhile (\<lambda>c. c = 32) (n @ 32 # rest) = n @ 32 # rest" by simp
  with assms(1) show ?thesis by (simp add: partition_on_first)
qed

text \<open>No directive's own text holds the separator.\<close>

lemma directive_no_semicolon:
  assumes hs: "mapR validated_hash hs = Inr qs" and adds: "validated_additions added = Inr adds"
  shows "59 \<notin> set (directive_name d @ 32 # source_list d qs (case map_of adds d of None \<Rightarrow> [] | Some ss \<Rightarrow> ss))"
proof -
  have "x \<noteq> 59" if "x \<in> set (source_list d qs (case map_of adds d of None \<Rightarrow> [] | Some ss \<Rightarrow> ss))" for x
  proof (rule source_list_chars[THEN conjunct1, OF _ that], intro ballI)
    fix t y
    assume t: "t \<in> set qs \<union> set (case map_of adds d of None \<Rightarrow> [] | Some ss \<Rightarrow> ss)" and y: "y \<in> set t"
    show "y \<noteq> 59 \<and> y \<noteq> 44"
    proof (cases "t \<in> set qs")
      case True
      then show ?thesis using validated_hashes_chars[OF hs _ y] by simp
    next
      case False
      with t obtain ss where "map_of adds d = Some ss" "t \<in> set ss"
        by (cases "map_of adds d") auto
      then show ?thesis using validated_addition_chars[OF adds map_of_SomeD _ y] by simp
    qed
  qed
  then show ?thesis using directive_name_chars[of 59 d] by auto
qed

text \<open>C27. No host configuration can add, drop or split a directive of the content security policy:
  whatever hashes and sources a host passes, when the function accepts them, the policy it answers
  parses (cut at semicolons, named by the first word) as \<open>default-src\<close>, \<open>base-uri\<close> and the ten
  extensible directives, each once and in order.\<close>

theorem csp_directives_exact:
  assumes "default_content_security_policy script_hashes added = Inr csp"
  shows "serialised_names csp =
    py ''default-src'' # py ''base-uri'' # map directive_name csp_directives"
proof -
  obtain hs qs adds where hs: "mapR validated_hash hs = Inr qs"
    and adds: "validated_additions added = Inr adds"
    and csp: "csp = join_with (py ''; '') (fixed_directives @ map (\<lambda>d. directive_name d @ py '' '' @
      source_list d qs (case map_of adds d of None \<Rightarrow> [] | Some ss \<Rightarrow> ss)) csp_directives)"
    using assms by (auto simp: default_content_security_policy_def Let_def)
  let ?src = "\<lambda>d. source_list d qs (case map_of adds d of None \<Rightarrow> [] | Some ss \<Rightarrow> ss)"
  let ?part = "\<lambda>d. directive_name d @ 32 # ?src d"
  have no_semicolon: "59 \<notin> set (?part d)" for d by (rule directive_no_semicolon[OF hs adds])
  have fixed: "\<forall>f\<in>set fixed_directives. 59 \<notin> set f"
    by (simp add: fixed_directives_def none_source_def self_keyword_def quoted_def py_eval)
  have csp': "csp = join_with [59, 32] (fixed_directives @ map ?part csp_directives)"
    by (simp add: csp py_eval)
  have "split_on 59 csp = hd (fixed_directives @ map ?part csp_directives)
      # map (Cons 32) (tl (fixed_directives @ map ?part csp_directives))"
    unfolding csp'
  proof (rule split_on_join)
    show "\<forall>x\<in>set (fixed_directives @ map ?part csp_directives). 59 \<notin> set x"
      using no_semicolon fixed by auto
  qed (simp_all add: fixed_directives_def)
  then have split: "split_on 59 csp = (py ''default-src'' @ 32 # none_source)
      # (32 # py ''base-uri'' @ 32 # self_keyword) # map (\<lambda>d. 32 # ?part d) csp_directives"
    by (simp add: fixed_directives_def py_eval)
  have "fst (partition_on 32 (dropWhile (\<lambda>c. c = 32) (32 # ?part d))) = directive_name d" for d
    using directive_name_chars[of 32 d] serialised_name[of "directive_name d"]
    by (cases d) (auto simp: py_eval)
  then show ?thesis
    using serialised_name[of "py ''default-src''" none_source]
      serialised_name[of "py ''base-uri''" self_keyword]
    unfolding serialised_names_def split by (simp add: py_eval)
qed

lemma csp_directives_exact_witness:
  "\<exists>csp. default_content_security_policy (PyTuple [PyStr (py ''sha256-AA='')])
      (Additions [(Some IMG_SRC, PyList [PyStr (py ''https://cdn.example'')])]) = Inr csp
    \<and> serialised_names csp = py ''default-src'' # py ''base-uri'' # map directive_name csp_directives"
proof -
  have "\<exists>csp. default_content_security_policy (PyTuple [PyStr (py ''sha256-AA='')])
      (Additions [(Some IMG_SRC, PyList [PyStr (py ''https://cdn.example'')])]) = Inr csp"
    by (simp add: default_content_security_policy_def require_source_list_def validated_addition_def
        validated_hash_def validated_source_def is_bare_hash_def is_source_token_def
        is_source_token_char_def is_base64_char_def text_eval)
  then show ?thesis using csp_directives_exact by blast
qed

end
