(* ===== verification/SessionGate.thy ===== *)
theory SessionGate
  imports Sessions Asgi Policies
begin

text \<open>
  \<open>middleware/session_gate.py\<close>: a request without a live session is refused, unless its path is
  public or optional, and the decision on every other one is recorded in its scope, where
  \<open>current_user\<close>, \<open>admitted_user\<close> and \<open>admitted_admin\<close> find it. The admission runs inside the
  host's transaction, on a worker that is the call it makes.
\<close>

record 's session_gate =
  sg_session_transaction :: "'s session_transaction"
  sg_login_redirect :: "login_redirect option"
  sg_public :: "public_rule list"
  sg_optional :: path_rules

definition is_public :: "'s session_gate \<Rightarrow> pystr \<Rightarrow> pystr \<Rightarrow> bool" where
  "is_public policy routed_path method \<longleftrightarrow>
     \<not> has_dot_segment routed_path \<and> list_ex (\<lambda>rule. public_rule_applies rule routed_path method) (sg_public policy)"

definition is_optional :: "'s session_gate \<Rightarrow> pystr \<Rightarrow> bool" where
  "is_optional policy routed_path \<longleftrightarrow> \<not> has_dot_segment routed_path \<and> rules_match (sg_optional policy) routed_path"

definition gate_admit :: "'s session_gate \<Rightarrow> pystr \<Rightarrow> 's web_auth_config \<Rightarrow> ('s, admission) act" where
  "gate_admit policy session_id cfg =
     in_tx (st_context (sg_session_transaction policy))
       (admit_session session_id (st_store (sg_session_transaction policy)) cfg)"

definition refused_or_passed ::
    "'s session_gate \<Rightarrow> 's scope \<Rightarrow> 's web_auth_config \<Rightarrow> cookie_reading \<Rightarrow> admission \<Rightarrow> bool
     \<Rightarrow> exn + response option \<times> 's scope" where
  "refused_or_passed policy sc cfg reading admission optional = (case admission of
      Inl refusal \<Rightarrow>
        if \<not> optional
        then bindR (refusal_response sc refusal (sg_login_redirect policy)) (\<lambda>r. Inr (Some r, sc))
        else Inr (None, record_gate_admission sc \<lparr>ga_config = cfg, ga_cookie_reading = reading, ga_admission = Some admission\<rparr>)
    | Inr _ \<Rightarrow> Inr (None, record_gate_admission sc \<lparr>ga_config = cfg, ga_cookie_reading = reading, ga_admission = Some admission\<rparr>))"

definition session_gate :: "cookie_parser \<Rightarrow> 's session_gate \<Rightarrow> 's gate" where
  "session_gate parse_cookie policy sc =
     (if bearer_admission sc \<noteq> None then ret (None, sc)
      else bindA (liftR (web_auth_config sc)) (\<lambda>cfg.
        bindA (liftR (read_session_cookie parse_cookie sc cfg)) (\<lambda>reading.
          let routed_path = route_path sc in
          if is_public policy routed_path (sc_method sc)
          then ret (None, record_gate_admission sc \<lparr>ga_config = cfg, ga_cookie_reading = reading, ga_admission = None\<rparr>)
          else let optional = is_optional policy routed_path in
            case reading of
              Inl refusal \<Rightarrow> liftR (refused_or_passed policy sc cfg reading (Inl refusal) optional)
            | Inr session_id \<Rightarrow> bindA (gate_admit policy session_id cfg) (\<lambda>admission.
                liftR (refused_or_passed policy sc cfg reading admission optional)))))"

section \<open>The readers of its decision\<close>

definition admitted_user :: "cookie_parser \<Rightarrow> 's scope \<Rightarrow> exn + authenticated_user option" where
  "admitted_user parse_cookie sc = (case admitted_token_person sc of
      Some person \<Rightarrow> Inr (Some person)
    | None \<Rightarrow>
        bindR (if is_person_admitted sc then raise_for_bearer_admission sc else Inr ()) (\<lambda>_.
          if is_bearer_admitted sc then Inr None
          else bindR (gate_admission parse_cookie sc) (\<lambda>decided. case decided of
              None \<Rightarrow> Inl RuntimeError
            | Some g \<Rightarrow> Inr (case ga_admission g of Some (Inr u) \<Rightarrow> Some u | _ \<Rightarrow> None))))"

definition admitted_admin :: "cookie_parser \<Rightarrow> 's scope \<Rightarrow> exn + (http_exception + authenticated_user)" where
  "admitted_admin parse_cookie sc = (case admitted_token_person sc of
      Some person \<Rightarrow> Inr (require_admin sc person)
    | None \<Rightarrow>
        bindR (raise_for_bearer_admission sc) (\<lambda>_.
        bindR (admitted_user parse_cookie sc) (\<lambda>user.
          Inr (case user of
             None \<Rightarrow> Inl (unauthenticated_without_redirect sc AUTHENTICATION_REQUIRED_DETAIL)
           | Some u \<Rightarrow> require_admin sc u))))"

section \<open>What a gate's record says afterwards\<close>

lemma record_readers [simp]:
  "cookie_values parse_cookie (record_gate_admission sc g) n = cookie_values parse_cookie sc n"
  "web_auth_config (record_gate_admission sc g) = web_auth_config sc"
  "read_session_cookie parse_cookie (record_gate_admission sc g) cfg = read_session_cookie parse_cookie sc cfg"
  "sc_bearer_admission (record_gate_admission sc g) = sc_bearer_admission sc"
  "sc_gate_admission (record_gate_admission sc g) = Some g"
  by (simp_all add: record_gate_admission_def cookie_values_def cookie_pairs_def read_session_cookie_def)

lemma no_bearer [simp]:
  "sc_bearer_admission sc = None \<Longrightarrow> bearer_admission sc = None"
  "sc_bearer_admission sc = None \<Longrightarrow> admitted_token_person sc = None"
  "sc_bearer_admission sc = None \<Longrightarrow> is_bearer_admitted sc = False"
  "sc_bearer_admission sc = None \<Longrightarrow> is_person_admitted sc = False"
  "sc_bearer_admission sc = None \<Longrightarrow> raise_for_bearer_admission sc = Inr ()"
  by (simp_all add: bearer_admission_def admitted_token_person_def is_bearer_admitted_def
      is_person_admitted_def raise_for_bearer_admission_def check_def)

lemma recorded_admission:
  assumes "web_auth_config sc = Inr cfg" and "read_session_cookie parse_cookie sc cfg = Inr reading"
  shows "gate_admission parse_cookie (record_gate_admission sc
      \<lparr>ga_config = cfg, ga_cookie_reading = reading, ga_admission = a\<rparr>)
    = Inr (Some \<lparr>ga_config = cfg, ga_cookie_reading = reading, ga_admission = a\<rparr>)"
  using assms by (simp add: gate_admission_def)

lemma passed_iff_admitted:
  "refused_or_passed policy sc cfg reading admission optional = Inr (None, sc') \<longleftrightarrow>
     (optional \<or> (\<exists>u. admission = Inr u))
     \<and> sc' = record_gate_admission sc \<lparr>ga_config = cfg, ga_cookie_reading = reading, ga_admission = Some admission\<rparr>"
  by (cases admission; cases "refusal_response sc (projl admission) (sg_login_redirect policy)")
    (auto simp: refused_or_passed_def)

lemma session_gate_eq:
  assumes "sc_bearer_admission sc = None" and "web_auth_config sc = Inr cfg"
    and "read_session_cookie parse_cookie sc cfg = Inr reading"
  shows "session_gate parse_cookie policy sc s =
    (if is_public policy (route_path sc) (sc_method sc)
     then (Inr (None, record_gate_admission sc \<lparr>ga_config = cfg, ga_cookie_reading = reading, ga_admission = None\<rparr>), s)
     else case reading of
       Inl refusal \<Rightarrow> (refused_or_passed policy sc cfg reading (Inl refusal) (is_optional policy (route_path sc)), s)
     | Inr sid \<Rightarrow> (case gate_admit policy sid cfg s of
         (Inl e, s') \<Rightarrow> (Inl e, s')
       | (Inr admission, s') \<Rightarrow> (refused_or_passed policy sc cfg reading admission (is_optional policy (route_path sc)), s')))"
  using assms by (cases reading; clarsimp simp: session_gate_def Let_def liftR_def bindA_def)

text \<open>The ways a request passes the gate without a bearer admission.\<close>

lemma session_gate_passes:
  assumes pass: "session_gate parse_cookie policy sc s = (Inr (None, sc'), s')" and none: "sc_bearer_admission sc = None"
  obtains cfg reading a where "web_auth_config sc = Inr cfg" "read_session_cookie parse_cookie sc cfg = Inr reading"
    "sc' = record_gate_admission sc \<lparr>ga_config = cfg, ga_cookie_reading = reading, ga_admission = a\<rparr>"
    "is_public policy (route_path sc) (sc_method sc) \<and> a = None \<and> s' = s
     \<or> \<not> is_public policy (route_path sc) (sc_method sc)
       \<and> (is_optional policy (route_path sc) \<or> (\<exists>u. a = Some (Inr u)))
       \<and> (case reading of Inl refusal \<Rightarrow> a = Some (Inl refusal) \<and> s' = s
          | Inr sid \<Rightarrow> \<exists>admission. a = Some admission \<and> gate_admit policy sid cfg s = (Inr admission, s'))"
proof -
  obtain cfg where cfg: "web_auth_config sc = Inr cfg"
    using assms by (cases "web_auth_config sc") (auto simp: session_gate_def bindA_def liftR_def)
  obtain reading where reading: "read_session_cookie parse_cookie sc cfg = Inr reading"
    using assms cfg by (cases "read_session_cookie parse_cookie sc cfg") (auto simp: session_gate_def bindA_def liftR_def)
  note eq = pass[unfolded session_gate_eq[OF none cfg reading]]
  show thesis
  proof (cases "is_public policy (route_path sc) (sc_method sc)")
    case True
    with eq show thesis by (intro that[OF cfg reading]) auto
  next
    case False
    show thesis
    proof (cases reading)
      case (Inl refusal)
      with eq False have "refused_or_passed policy sc cfg reading (Inl refusal) (is_optional policy (route_path sc)) = Inr (None, sc')"
        "s' = s" by simp_all
      then show thesis using False Inl unfolding passed_iff_admitted
        by (intro that[OF cfg reading, of "Some (Inl refusal)"]) simp_all
    next
      case (Inr sid)
      obtain r s1 where g: "gate_admit policy sid cfg s = (r, s1)" by (cases "gate_admit policy sid cfg s")
      obtain admission where r: "r = Inr admission" using eq False Inr g by (cases r) simp_all
      have "refused_or_passed policy sc cfg reading admission (is_optional policy (route_path sc)) = Inr (None, sc')" "s1 = s'"
        using eq False Inr g r by simp_all
      then show thesis using False Inr g r unfolding passed_iff_admitted
        by (intro that[OF cfg reading, of "Some admission"]) simp_all
    qed
  qed
qed

section \<open>Properties\<close>

text \<open>A signed-in request of the in-memory store, for the witnesses.\<close>

lemma sample_signed: "\<exists>c. sign_session_id (py ''s1'') key = Inr c \<and> length c \<le> MAX_SESSION_COOKIE_CHARS
    \<and> verify_session_cookie c key = Inr (Some (py ''s1''))"
proof -
  have "\<exists>bs. utf8_encode (py ''s1'') = Inr bs" by (simp add: utf8_encode_def is_scalar_def text_eval)
  then obtain sig where sig: "session_signature (py ''s1'') key = Inr sig"
    by (auto simp: session_signature_def signature_of_def)
  then have "length sig = 64" by (simp add: session_signature_def signature_hex(1))
  then have "sign_session_id (py ''s1'') key = Inr (py ''s1'' @ 46 # sig)"
    using sig by (simp add: sign_session_id_def MAX_SESSION_COOKIE_CHARS_def text_eval)
  moreover have "verify_session_cookie (py ''s1'' @ 46 # sig) key = Inr (Some (py ''s1''))"
    unfolding verify_session_cookie_iff using sig by (simp add: text_eval)
  ultimately show ?thesis using \<open>length sig = 64\<close> by (auto simp: MAX_SESSION_COOKIE_CHARS_def text_eval)
qed

definition sample_gated_config :: "memory web_auth_config" where
  "sample_gated_config = sample_config\<lparr>cf_wall_clock := ret (of_int 2000)\<rparr>"

definition sample_gated_scope :: "memory scope" where
  "sample_gated_scope = (sample_scope [])\<lparr>sc_app := \<lparr>app_id = 1, app_webauth = Some sample_gated_config\<rparr>\<rparr>"

definition sample_session_gate :: "path_rules \<Rightarrow> memory session_gate" where
  "sample_session_gate optional = \<lparr>sg_session_transaction = \<lparr>st_context = rollback_tx, st_store = memory_session_store\<rparr>,
     sg_login_redirect = None, sg_public = [], sg_optional = optional\<rparr>"

lemma sample_gated:
  "sc_bearer_admission sample_gated_scope = None" "web_auth_config sample_gated_scope = Inr sample_gated_config"
  "\<not> is_public (sample_session_gate optional) path m"
  "\<exists>key. signing_key sample_gated_config = Inr key"
  "cookie_values (\<lambda>_. pairs) sample_gated_scope n = map snd (filter (\<lambda>(k, v). k = n) pairs)"
  by (simp_all add: sample_gated_scope_def sample_scope_def web_auth_config_def installed_web_auth_config_def
      is_public_def sample_session_gate_def signing_key_def sample_gated_config_def sample_config_def
      cookie_values_def cookie_pairs_def getlist_def text_eval utf8_encode_def is_scalar_def list_all_iff)

text \<open>C11. One decision per request. When the gate lets a request without a bearer admission through to
  a path that is not public, what it decided is what the route is told: the route's own dependency
  answers the recorded admission, for every store, without touching the host's state, and
  \<open>admitted_user\<close> answers its account or none. The admission is a refusal only on an optional path,
  and it was made by one transaction on the session the signed cookie names, or by none when there
  is no such cookie.\<close>

theorem gate_decides_once:
  assumes "session_gate parse_cookie policy sc s = (Inr (None, sc'), s')" and "sc_bearer_admission sc = None"
    and "\<not> is_public policy (route_path sc) (sc_method sc)"
  shows "\<exists>admission. (\<forall>store s2. gate_or_own_admission parse_cookie sc' store s2 = (Inr admission, s2))
    \<and> admitted_user parse_cookie sc' = Inr (case admission of Inl _ \<Rightarrow> None | Inr u \<Rightarrow> Some u)
    \<and> (is_optional policy (route_path sc) \<or> (\<exists>u. admission = Inr u))
    \<and> (\<exists>cfg. web_auth_config sc = Inr cfg \<and> (case read_session_cookie parse_cookie sc cfg of
          Inr (Inr sid) \<Rightarrow> gate_admit policy sid cfg s = (Inr admission, s')
        | Inr (Inl refusal) \<Rightarrow> admission = Inl refusal \<and> s' = s
        | Inl _ \<Rightarrow> False))"
proof -
  obtain cfg reading a where cfg: "web_auth_config sc = Inr cfg" and reading: "read_session_cookie parse_cookie sc cfg = Inr reading"
    and sc': "sc' = record_gate_admission sc \<lparr>ga_config = cfg, ga_cookie_reading = reading, ga_admission = a\<rparr>"
    and "is_public policy (route_path sc) (sc_method sc) \<and> a = None \<and> s' = s
     \<or> \<not> is_public policy (route_path sc) (sc_method sc)
       \<and> (is_optional policy (route_path sc) \<or> (\<exists>u. a = Some (Inr u)))
       \<and> (case reading of Inl refusal \<Rightarrow> a = Some (Inl refusal) \<and> s' = s
          | Inr sid \<Rightarrow> \<exists>admission. a = Some admission \<and> gate_admit policy sid cfg s = (Inr admission, s'))"
    by (rule session_gate_passes[OF assms(1,2)])
  with assms(3) have way: "(is_optional policy (route_path sc) \<or> (\<exists>u. a = Some (Inr u)))
       \<and> (case reading of Inl refusal \<Rightarrow> a = Some (Inl refusal) \<and> s' = s
          | Inr sid \<Rightarrow> \<exists>admission. a = Some admission \<and> gate_admit policy sid cfg s = (Inr admission, s'))"
    by blast
  then obtain admission where a: "a = Some admission" by (cases reading) auto
  note seen = recorded_admission[OF cfg reading, of a]
  have "gate_or_own_admission parse_cookie sc' store s2 = (Inr admission, s2)" for store s2
    using assms(2) seen by (simp add: gate_or_own_admission_def sc' a bindA_def liftR_def)
  moreover have "admitted_user parse_cookie sc' = Inr (case admission of Inl _ \<Rightarrow> None | Inr u \<Rightarrow> Some u)"
    using assms(2) seen by (cases admission) (simp_all add: admitted_user_def sc' a)
  moreover have "\<exists>cfg. web_auth_config sc = Inr cfg \<and> (case read_session_cookie parse_cookie sc cfg of
          Inr (Inr sid) \<Rightarrow> gate_admit policy sid cfg s = (Inr admission, s')
        | Inr (Inl refusal) \<Rightarrow> admission = Inl refusal \<and> s' = s
        | Inl _ \<Rightarrow> False)"
    using way cfg reading by (cases reading) (auto simp: a)
  ultimately show ?thesis using way a by auto
qed

lemma gate_decides_once_witness:
  "admitted_user (\<lambda>_. []) (record_gate_admission sample_gated_scope
      \<lparr>ga_config = sample_gated_config, ga_cookie_reading = Inl NO_SESSION, ga_admission = Some (Inl NO_SESSION)\<rparr>) = Inr None"
proof -
  let ?policy = "sample_session_gate (exact_paths {py ''/''})"
  let ?sc = "record_gate_admission sample_gated_scope
      \<lparr>ga_config = sample_gated_config, ga_cookie_reading = Inl NO_SESSION, ga_admission = Some (Inl NO_SESSION)\<rparr>"
  have reading: "read_session_cookie (\<lambda>_. []) sample_gated_scope sample_gated_config = Inr (Inl NO_SESSION)"
    by (simp add: read_session_cookie_def sample_gated(5))
  have "is_optional ?policy (route_path sample_gated_scope)"
    by (simp add: is_optional_def sample_session_gate_def sample_gated_scope_def sample_scope_def rules_match_def exact_paths_def
        has_dot_segment_def path_segments_def is_dot_segment_def dot_forms_def text_eval)
  then have "session_gate (\<lambda>_. []) ?policy sample_gated_scope sample_memory = (Inr (None, ?sc), sample_memory)"
    using sample_gated(3)[of "exact_paths {py ''/''}"]
    unfolding session_gate_eq[OF sample_gated(1,2) reading] refused_or_passed_def by simp
  from gate_decides_once[OF this sample_gated(1,3)] show ?thesis by (auto simp: reading sample_gated(2))
qed

text \<open>C10. Who gets through a gated path, end to end: over a store that keeps its contract and a
  transaction that hands over and keeps its writes, a request without a bearer admission that
  passes to a path neither public nor optional carries exactly one session cookie, the signed text
  of a session the store holds inside its window, which was renewed for it; the route's dependency
  then answers that session's account.\<close>

theorem gated_request_has_live_session:
  assumes "session_gate parse_cookie policy sc s = (Inr (None, sc'), s')" and "sc_bearer_admission sc = None"
    and "\<not> is_public policy (route_path sc) (sc_method sc)" and "\<not> is_optional policy (route_path sc)"
    and "session_contract (st_store (sg_session_transaction policy)) lookup ok"
    and "st_context (sg_session_transaction policy) = rollback_tx"
    and "web_auth_config sc = Inr cfg" and "signing_key cfg = Inr key"
    and "cf_wall_clock cfg s = (Inr t, s)" and "usable_now (truncate_rat t * SECOND)"
    and "lifetime_ok (cf_session_lifetime cfg)"
  shows "\<exists>cookie sid r. cookie_values parse_cookie sc (session_cookie_name cfg) = [cookie]
    \<and> sign_session_id sid key = Inr cookie \<and> lookup s sid = Some r
    \<and> session_window (cf_session_lifetime cfg) (truncate_rat t * SECOND) r
    \<and> lookup s' = (lookup s)(sid \<mapsto> r\<lparr>sr_expires_at :=
        utc_datetime (next_expiry (cf_session_lifetime cfg) (truncate_rat t * SECOND) r)\<rparr>)
    \<and> (\<forall>store s2. gate_or_own_admission parse_cookie sc' store s2 = (Inr (Inr (authenticated (sr_user r))), s2))"
proof -
  let ?store = "st_store (sg_session_transaction policy)"
  obtain cfg1 reading a where "web_auth_config sc = Inr cfg1" and read1: "read_session_cookie parse_cookie sc cfg1 = Inr reading"
    and record1: "sc' = record_gate_admission sc \<lparr>ga_config = cfg1, ga_cookie_reading = reading, ga_admission = a\<rparr>"
    and way1: "is_public policy (route_path sc) (sc_method sc) \<and> a = None \<and> s' = s
     \<or> \<not> is_public policy (route_path sc) (sc_method sc)
       \<and> (is_optional policy (route_path sc) \<or> (\<exists>u. a = Some (Inr u)))
       \<and> (case reading of Inl refusal \<Rightarrow> a = Some (Inl refusal) \<and> s' = s
          | Inr sid \<Rightarrow> \<exists>admission. a = Some admission \<and> gate_admit policy sid cfg1 s = (Inr admission, s'))"
    by (rule session_gate_passes[OF assms(1,2)])
  then have "cfg1 = cfg" using assms(7) by simp
  note reading = read1[unfolded this] and sc' = record1[unfolded this]
  have user: "\<exists>u. a = Some (Inr u)"
    and way: "case reading of Inl refusal \<Rightarrow> a = Some (Inl refusal) \<and> s' = s
          | Inr sid \<Rightarrow> \<exists>admission. a = Some admission \<and> gate_admit policy sid cfg s = (Inr admission, s')"
    using way1[unfolded \<open>cfg1 = cfg\<close>] assms(3,4) by blast+
  obtain sid u where sid: "reading = Inr sid" and u: "a = Some (Inr u)"
    and admit: "gate_admit policy sid cfg s = (Inr (Inr u), s')"
    using user way by (cases reading) auto
  have decided: "admit_session sid ?store cfg s = (Inr (Inr u), s')"
    using admit by (auto simp: gate_admit_def assms(6) in_rollback_tx split: prod.splits sum.splits)
  obtain r where r: "lookup s sid = Some r" "session_window (cf_session_lifetime cfg) (truncate_rat t * SECOND) r"
    using session_contract.admit_refused[OF assms(5,9,10), of sid] decided
    unfolding session_contract.admits_at_def[OF assms(5)] by auto
  obtain s1 where "admit_session sid ?store cfg s = (Inr (Inr (authenticated (sr_user r))), s1)"
    "lookup s1 = (lookup s)(sid \<mapsto> r\<lparr>sr_expires_at :=
        utc_datetime (next_expiry (cf_session_lifetime cfg) (truncate_rat t * SECOND) r)\<rparr>)"
    using session_contract.admit_admitted[OF assms(5,9,10,11) r] by blast
  with decided have renewed: "u = authenticated (sr_user r)" "lookup s' = (lookup s)(sid \<mapsto> r\<lparr>sr_expires_at :=
        utc_datetime (next_expiry (cf_session_lifetime cfg) (truncate_rat t * SECOND) r)\<rparr>)"
    by simp_all
  obtain cookie where cookie: "cookie_values parse_cookie sc (session_cookie_name cfg) = [cookie]"
    "length cookie \<le> MAX_SESSION_COOKIE_CHARS" "verify_session_cookie cookie key = Inr (Some sid)"
    using reading sid assms(8) by (auto simp: read_session_cookie_def split: list.splits if_splits option.splits)
  have "gate_or_own_admission parse_cookie sc' store s2 = (Inr (Inr (authenticated (sr_user r))), s2)" for store s2
    using assms(2) recorded_admission[OF assms(7) reading, of a]
    by (simp add: gate_or_own_admission_def sc' u bindA_def liftR_def renewed(1))
  then show ?thesis
    using cookie r renewed(2) sign_session_id_of_verified[OF cookie(3,2)] by blast
qed

lemma gated_request_has_live_session_witness:
  "\<exists>c sc' s' r. session_gate (\<lambda>_. [(session_cookie_name sample_gated_config, c)]) (sample_session_gate no_paths)
      sample_gated_scope sample_memory = (Inr (None, sc'), s')
    \<and> mem_lookup sample_memory (py ''s1'') = Some r
    \<and> gate_or_own_admission (\<lambda>_. [(session_cookie_name sample_gated_config, c)]) sc' memory_session_store s'
      = (Inr (Inr (authenticated (sr_user r))), s')"
proof -
  obtain key where key: "signing_key sample_gated_config = Inr key" using sample_gated(4) by blast
  obtain c where c: "sign_session_id (py ''s1'') key = Inr c" "length c \<le> MAX_SESSION_COOKIE_CHARS"
    "verify_session_cookie c key = Inr (Some (py ''s1''))" using sample_signed by blast
  let ?pc = "\<lambda>_::pystr. [(session_cookie_name sample_gated_config, c)]" and ?policy = "sample_session_gate no_paths"
  have "c \<noteq> []" using c(3) by (auto simp: verify_session_cookie_iff)
  then have reading: "read_session_cookie ?pc sample_gated_scope sample_gated_config = Inr (Inr (py ''s1''))"
    using c key by (simp add: read_session_cookie_def sample_gated(5))
  have clock: "cf_wall_clock sample_gated_config sample_memory = (Inr (of_int 2000), sample_memory)"
    "lifetime_ok (cf_session_lifetime sample_gated_config)"
    unfolding sample_gated_config_def by (simp_all only: sample_clock sample_lifetime_ok)
  have "session_window (cf_session_lifetime sample_gated_config) (truncate_rat (of_int 2000) * SECOND)
      (the (mem_lookup sample_memory (py ''s1'')))"
    unfolding sample_gated_config_def sample_clock by (simp add: sample_memory_session session_window_def SECOND_def)
  then obtain u s' where "admit_session (py ''s1'') memory_session_store sample_gated_config sample_memory = (Inr (Inr u), s')"
    using memory.admit_admitted[OF clock(1) sample_now[of 2000] clock(2) sample_memory_session]
    unfolding sample_memory_session option.sel by auto
  then have "gate_admit ?policy (py ''s1'') sample_gated_config sample_memory = (Inr (Inr u), s')"
    by (simp add: gate_admit_def sample_session_gate_def in_rollback_tx)
  then obtain sc' where pass: "session_gate ?pc ?policy sample_gated_scope sample_memory = (Inr (None, sc'), s')"
    using sample_gated(3)[of no_paths]
    unfolding session_gate_eq[OF sample_gated(1,2) reading] by (simp add: refused_or_passed_def)
  have optional: "\<not> is_optional ?policy (route_path sample_gated_scope)"
    by (simp add: is_optional_def sample_session_gate_def rules_match_def no_paths_def startswith_any_def)
  have store: "session_contract (st_store (sg_session_transaction ?policy)) mem_lookup mem_ok"
    "st_context (sg_session_transaction ?policy) = rollback_tx"
    using memory.session_contract_axioms by (simp_all add: sample_session_gate_def)
  from gated_request_has_live_session[OF pass sample_gated(1,3) optional store sample_gated(2) key clock(1) sample_now[of 2000] clock(2)]
  obtain cookie sid r where s: "cookie_values ?pc sample_gated_scope (session_cookie_name sample_gated_config) = [cookie]"
    "sign_session_id sid key = Inr cookie" "mem_lookup sample_memory sid = Some r"
    "\<forall>store s2. gate_or_own_admission ?pc sc' store s2 = (Inr (Inr (authenticated (sr_user r))), s2)"
    by auto
  have "sid = py ''s1''"
  proof -
    have "cookie = c" using s(1) by (simp add: sample_gated(5))
    then have "verify_session_cookie c key = Inr (Some sid)"
      using s(2) verify_of_signed by blast
    with c(3) show ?thesis by simp
  qed
  with pass s(3,4) show ?thesis by blast
qed

end
