(* ===== verification/HttpsClient.thy ===== *)
theory HttpsClient
  imports Urls Ports Validation
begin

text \<open>
  \<open>webauth/https_client.py\<close> and \<open>webauth/oidc_transport.py\<close>: the two outbound requests and the posture
  they share. urllib3 and the process clock are a \<open>transport\<close>: \<open>tp_request\<close> sends a request and
  answers the status or which of the four kinds of error came, and \<open>tp_read\<close> reads at most so many
  bytes of the body. The TLS socket's rule, every step bounded by what is left of the deadline, is
  \<open>deadline_bound\<close>. Logging is not modelled.
\<close>

section \<open>Failures\<close>

datatype exchange_failure =
    NOT_AN_HTTPS_URL | UNREACHABLE | TLS_FAILED | TIMED_OUT | BROKEN_OFF | REDIRECTED | ANSWER_TOO_LARGE

datatype urllib3_error = SSLError | NewConnectionError | Urllib3TimeoutError | HTTPErrorOrOSError

fun failure_of :: "urllib3_error \<Rightarrow> exchange_failure" where
  "failure_of SSLError = TLS_FAILED"
| "failure_of NewConnectionError = UNREACHABLE"
| "failure_of Urllib3TimeoutError = TIMED_OUT"
| "failure_of HTTPErrorOrOSError = BROKEN_OFF"

section \<open>The deadline\<close>

record 's transport =
  tp_monotonic :: "('s, rat) act"
  tp_request :: "pystr \<Rightarrow> pystr \<Rightarrow> (pystr \<times> pystr) list \<Rightarrow> pystr option \<Rightarrow> rat \<Rightarrow> rat
    \<Rightarrow> ('s, urllib3_error + int) act"
  tp_read :: "nat \<Rightarrow> ('s, urllib3_error + nat list) act"

definition deadline_after :: "'s transport \<Rightarrow> rat \<Rightarrow> ('s, rat) act" where
  "deadline_after tp seconds = bindA (tp_monotonic tp) (\<lambda>now. ret (now + seconds))"

definition has_passed :: "'s transport \<Rightarrow> rat \<Rightarrow> ('s, bool) act" where
  "has_passed tp expires_at = bindA (tp_monotonic tp) (\<lambda>now. ret (expires_at \<le> now))"

definition deadline_bound :: "rat \<Rightarrow> rat \<Rightarrow> rat option \<Rightarrow> exn + rat" where
  "deadline_bound expires_at now timeout =
     (let remaining = expires_at - now in
      if remaining \<le> 0 then Inl TimeoutError
      else Inr (case timeout of None \<Rightarrow> remaining | Some t \<Rightarrow> min t remaining))"

section \<open>One exchange\<close>

datatype https_answer = HttpsAnswer int "nat list" | RefusedStatus int

definition is_key_set_status :: "int \<Rightarrow> bool" where
  "is_key_set_status status \<longleftrightarrow> status = 200"

definition is_form_answer_status :: "int \<Rightarrow> bool" where
  "is_form_answer_status status \<longleftrightarrow> \<not> (300 \<le> status \<and> status < 400)"

definition exchange ::
    "'s transport \<Rightarrow> pystr \<Rightarrow> pystr \<Rightarrow> (int \<Rightarrow> bool) \<Rightarrow> rat \<Rightarrow> rat \<Rightarrow> nat \<Rightarrow> (pystr \<times> pystr) list \<Rightarrow> pystr option
     \<Rightarrow> ('s, exchange_failure + https_answer) act" where
  "exchange tp verb url accepts_status timeout_seconds deadline_seconds max_body_bytes headers body =
     (if timeout_seconds \<le> 0 \<or> deadline_seconds \<le> 0 then raise ValueError
      else bindA (deadline_after tp deadline_seconds) (\<lambda>deadline.
        bindA (bindV (tp_request tp verb url headers body timeout_seconds deadline) (\<lambda>status.
            if \<not> accepts_status status then ret (Inr (RefusedStatus status))
            else bindV (tp_read tp (max_body_bytes + 1)) (\<lambda>bs. ret (Inr (HttpsAnswer status bs))))) (\<lambda>r.
          case r of
            Inr answer \<Rightarrow> ret (Inr answer)
          | Inl error \<Rightarrow> bindA (has_passed tp deadline) (\<lambda>passed.
              ret (Inl (if passed then TIMED_OUT else failure_of error))))))"

definition KEY_SET_FETCH_TIMEOUT_SECONDS :: rat where "KEY_SET_FETCH_TIMEOUT_SECONDS = 5"
definition KEY_SET_FETCH_DEADLINE_SECONDS :: rat where "KEY_SET_FETCH_DEADLINE_SECONDS = 10"
definition TOKEN_EXCHANGE_DEADLINE_SECONDS :: rat where "TOKEN_EXCHANGE_DEADLINE_SECONDS = 10"
definition MAX_KEY_SET_BYTES :: nat where "MAX_KEY_SET_BYTES = 64 * 1024"

definition fetch_key_set_over_https :: "'s transport \<Rightarrow> pystr \<Rightarrow> rat \<Rightarrow> rat \<Rightarrow> ('s, nat list) act" where
  "fetch_key_set_over_https tp url timeout_seconds deadline_seconds =
     (if \<not> is_https_text url then raise KeySetFetchError
      else bindA (exchange tp (py ''GET'') url is_key_set_status timeout_seconds deadline_seconds
          MAX_KEY_SET_BYTES [] None) (\<lambda>r. case r of
        Inl _ \<Rightarrow> raise KeySetFetchError
      | Inr (RefusedStatus _) \<Rightarrow> raise KeySetFetchError
      | Inr (HttpsAnswer _ body) \<Rightarrow> ret body))"

definition post_form_over_https ::
    "'s transport \<Rightarrow> pystr \<Rightarrow> (pystr \<times> pystr) list \<Rightarrow> pystr \<Rightarrow> nat \<Rightarrow> rat \<Rightarrow> rat
     \<Rightarrow> ('s, exchange_failure + int \<times> nat list) act" where
  "post_form_over_https tp url form authorization max_body_bytes timeout_seconds deadline_seconds =
     (if \<not> is_https_text url then ret (Inl NOT_AN_HTTPS_URL)
      else bindA (liftR (urlencode form)) (\<lambda>body.
        bindV (exchange tp (py ''POST'') url is_form_answer_status timeout_seconds deadline_seconds max_body_bytes
          [(py ''Authorization'', authorization), (py ''Accept'', py ''application/json''),
           (py ''Content-Type'', py ''application/x-www-form-urlencoded'')] (Some body)) (\<lambda>answer.
          case answer of
            RefusedStatus _ \<Rightarrow> ret (Inl REDIRECTED)
          | HttpsAnswer status bs \<Rightarrow>
              if max_body_bytes < length bs then ret (Inl ANSWER_TOO_LARGE) else ret (Inr (status, bs)))))"

section \<open>The production token request\<close>

record token_request =
  tr_url :: pystr
  tr_form :: "(pystr \<times> pystr) list"
  tr_authorization :: pystr

record token_endpoint_answer =
  ta_status :: int
  ta_body :: "nat list"

definition MAX_TOKEN_RESPONSE_BYTES :: nat where "MAX_TOKEN_RESPONSE_BYTES = 64 * 1024"
definition TOKEN_REQUEST_TIMEOUT_SECONDS :: rat where "TOKEN_REQUEST_TIMEOUT_SECONDS = 5"

definition post_token_request_over_https ::
    "'s transport \<Rightarrow> token_request \<Rightarrow> rat \<Rightarrow> rat \<Rightarrow> ('s, token_endpoint_answer) act" where
  "post_token_request_over_https tp request timeout_seconds deadline_seconds =
     (if deadline_seconds < timeout_seconds \<and> 0 < deadline_seconds then raise ValueError
      else bindA (post_form_over_https tp (tr_url request) (tr_form request) (tr_authorization request)
          MAX_TOKEN_RESPONSE_BYTES timeout_seconds deadline_seconds) (\<lambda>r. case r of
        Inl _ \<Rightarrow> raise TokenEndpointError
      | Inr (status, body) \<Rightarrow> ret \<lparr>ta_status = status, ta_body = body\<rparr>))"

section \<open>Blocking under the deadline\<close>

text \<open>
  A TLS socket at work: each step sets its timeout from the deadline at the instant it starts and
  blocks no longer than that, then time passes to where the next step starts. \<open>socket_run\<close> answers
  the instant each step ended at; \<open>waits\<close> gives each step's own wish to block and the idle time
  before it.
\<close>

fun socket_run :: "rat \<Rightarrow> rat \<Rightarrow> rat option \<Rightarrow> (rat \<times> rat) list \<Rightarrow> rat list" where
  "socket_run expires_at now timeout [] = []"
| "socket_run expires_at now timeout ((idle, blocks) # waits) =
     (case deadline_bound expires_at (now + idle) timeout of
        Inl _ \<Rightarrow> []
      | Inr bound \<Rightarrow> (now + idle + min blocks bound)
          # socket_run expires_at (now + idle + min blocks bound) timeout waits)"

lemma exchange_answer:
  assumes "exchange tp verb url accepts timeout deadline_s n headers body s = (Inr (Inr (HttpsAnswer status bs)), s')"
  shows "accepts status" "0 < timeout" "0 < deadline_s"
proof -
  show pos: "0 < timeout" "0 < deadline_s" using assms by (auto simp: exchange_def split: if_splits)
  let ?answer = "\<lambda>deadline. bindV (tp_request tp verb url headers body timeout deadline) (\<lambda>status.
      if \<not> accepts status then ret (Inr (RefusedStatus status))
      else bindV (tp_read tp (n + 1)) (\<lambda>bs. ret (Inr (HttpsAnswer status bs))))"
  obtain deadline s1 r s2 where r: "?answer deadline s1 = (Inr r, s2)"
    and rest: "(case r of Inr answer \<Rightarrow> ret (Inr answer)
      | Inl error \<Rightarrow> bindA (has_passed tp deadline) (\<lambda>passed.
          ret (Inl (if passed then TIMED_OUT else failure_of error)))) s2 = (Inr (Inr (HttpsAnswer status bs)), s')"
    using assms pos unfolding exchange_def by (auto simp: bindA_eq_Inr)
  have "r = Inr (HttpsAnswer status bs)" using rest by (cases r) (auto simp: bindA_eq_Inr)
  with r show "accepts status" by (auto simp: bindV_eq_Inr split: if_splits)
qed

section \<open>Properties\<close>

text \<open>An origin that drips its answer cannot hold the caller: whatever each step of the TLS socket
  is made to wait and however many steps there are, none that was started ends after the deadline,
  and once it has passed no step starts.\<close>

theorem no_step_outlives_the_deadline:
  "(\<forall>t\<in>set (socket_run expires_at now timeout waits). t \<le> expires_at)
   \<and> (expires_at \<le> now \<and> (\<forall>w\<in>set waits. 0 \<le> fst w) \<longrightarrow> socket_run expires_at now timeout waits = [])"
proof
  show "\<forall>t\<in>set (socket_run expires_at now timeout waits). t \<le> expires_at"
  proof (induction waits arbitrary: now)
    case (Cons w waits)
    show ?case
    proof (cases w)
      case (Pair idle blocks)
      show ?thesis
      proof (cases "deadline_bound expires_at (now + idle) timeout")
        case (Inr bound)
        then have "bound \<le> expires_at - (now + idle)"
          by (auto simp: deadline_bound_def Let_def split: if_splits option.splits)
        then have "now + idle + min blocks bound \<le> expires_at" by linarith
        with Cons Inr Pair show ?thesis by simp
      qed (simp add: Pair)
    qed
  qed simp
  show "expires_at \<le> now \<and> (\<forall>w\<in>set waits. 0 \<le> fst w) \<longrightarrow> socket_run expires_at now timeout waits = []"
    by (cases waits) (auto simp: deadline_bound_def Let_def)
qed

lemma no_step_outlives_the_deadline_witness:
  "list_all (\<lambda>t. t \<le> 10) (socket_run 10 0 (Some 5) [(0, 7), (1, 3), (0, 4)]) \<and> socket_run 10 11 (Some 5) [(0, 7)] = []"
  using no_step_outlives_the_deadline[of 10 0 "Some 5" "[(0, 7), (1, 3), (0, 4)]"]
    no_step_outlives_the_deadline[of 10 11 "Some 5" "[(0, 7)]"] by (auto simp: list_all_iff)

text \<open>What a token request can answer: the production transport hands the relying party a status and
  a body only when the address is a plain https one and the answer was no redirect and no longer than
  the 64 KiB limit; everything else is a \<open>TokenEndpointError\<close>, or an exception the transport or
  the clock raised itself.\<close>

theorem token_answer_is_bounded:
  assumes "post_token_request_over_https tp request timeout_seconds deadline_seconds s = (Inr answer, s')"
  shows "is_https_text (tr_url request) \<and> \<not> (300 \<le> ta_status answer \<and> ta_status answer < 400)
    \<and> length (ta_body answer) \<le> 65536 \<and> 0 < timeout_seconds \<and> timeout_seconds \<le> deadline_seconds"
proof -
  have t: "\<not> (deadline_seconds < timeout_seconds \<and> 0 < deadline_seconds)"
    using assms by (auto simp: post_token_request_over_https_def split: if_splits)
  obtain v s1 where v: "post_form_over_https tp (tr_url request) (tr_form request) (tr_authorization request)
      MAX_TOKEN_RESPONSE_BYTES timeout_seconds deadline_seconds s = (Inr v, s1)"
    and rest: "(case v of Inl _ \<Rightarrow> raise TokenEndpointError
      | Inr (status, body) \<Rightarrow> ret \<lparr>ta_status = status, ta_body = body\<rparr>) s1 = (Inr answer, s')"
    using assms t unfolding post_token_request_over_https_def by (auto simp: bindA_eq_Inr)
  obtain status body where post: "post_form_over_https tp (tr_url request) (tr_form request) (tr_authorization request)
      MAX_TOKEN_RESPONSE_BYTES timeout_seconds deadline_seconds s = (Inr (Inr (status, body)), s')"
    and a: "answer = \<lparr>ta_status = status, ta_body = body\<rparr>"
    using v rest by (cases v) auto
  have url: "is_https_text (tr_url request)" using post by (auto simp: post_form_over_https_def split: if_splits)
  obtain bs s1 reply where "urlencode (tr_form request) = Inr bs"
    and ex: "exchange tp (py ''POST'') (tr_url request) is_form_answer_status timeout_seconds deadline_seconds MAX_TOKEN_RESPONSE_BYTES
          [(py ''Authorization'', tr_authorization request), (py ''Accept'', py ''application/json''),
           (py ''Content-Type'', py ''application/x-www-form-urlencoded'')] (Some bs) s = (Inr (Inr reply), s1)"
    and reply: "(case reply of RefusedStatus _ \<Rightarrow> ret (Inl REDIRECTED) | HttpsAnswer st bs \<Rightarrow>
        if MAX_TOKEN_RESPONSE_BYTES < length bs then ret (Inl ANSWER_TOO_LARGE) else ret (Inr (st, bs))) s1
      = (Inr (Inr (status, body)), s')"
    using post url unfolding post_form_over_https_def by (auto simp: bindA_eq_Inr bindV_eq_Inr)
  have r: "reply = HttpsAnswer status body" "length body \<le> MAX_TOKEN_RESPONSE_BYTES"
    using reply by (auto split: https_answer.splits if_splits)
  have "is_form_answer_status status" and pos: "0 < timeout_seconds" "0 < deadline_seconds"
    using exchange_answer[OF ex[unfolded r(1)]] by simp_all
  then show ?thesis using url r(2) t pos by (auto simp: a is_form_answer_status_def MAX_TOKEN_RESPONSE_BYTES_def)
qed

definition sample_transport :: "unit transport" where
  "sample_transport = \<lparr>tp_monotonic = ret 0, tp_request = (\<lambda>_ _ _ _ _ _. ret (Inr 200)), tp_read = (\<lambda>_. ret (Inr [123, 125]))\<rparr>"

lemma token_answer_is_bounded_witness:
  "\<exists>answer. post_token_request_over_https sample_transport
      \<lparr>tr_url = py ''https://id.example/token'', tr_form = [], tr_authorization = py ''Basic x''\<rparr> 5 10 ()
      = (Inr answer, ()) \<and> length (ta_body answer) \<le> 65536"
proof -
  let ?request = "\<lparr>tr_url = py ''https://id.example/token'', tr_form = [], tr_authorization = py ''Basic x''\<rparr>"
  have "is_https_text (py ''https://id.example/token'')"
    by (simp add: is_https_text_def is_url_control_or_space_def urlsplit_def split_scheme_def is_netloc_end_def url_port_def hostinfo_def
        hostname_def has_userinfo_def is_scheme_char_def is_alpha_ascii_def Let_def text_eval)
  then have "post_token_request_over_https sample_transport ?request 5 10 ()
      = (Inr \<lparr>ta_status = 200, ta_body = [123, 125]\<rparr>, ())"
    by (simp add: post_token_request_over_https_def post_form_over_https_def exchange_def sample_transport_def
        deadline_after_def urlencode_def is_form_answer_status_def MAX_TOKEN_RESPONSE_BYTES_def)
  from token_answer_is_bounded[OF this] this show ?thesis by blast
qed

end
