(* ===== verification/Jwt.thy ===== *)
theory Jwt
  imports HttpsClient "HOL-Library.List_Lexorder"
begin

text \<open>
  \<open>webauth/jwt_verification.py\<close>: RS256 tokens of one issuer, checked against the keys it publishes.

  PyJWT, cryptography and the JSON decoder are the fields of a \<open>jwt_library\<close>: what a header and
  a payload decode to, which error a token is refused with, which numbers make an RSA key. \<open>'k\<close> is
  the type of its keys. Nothing is assumed of them here.

  A verifier is an object the threads of the host share: its mutable attributes lie in the host's
  state, where \<open>jv_state\<close> reads and \<open>jv_set_state\<close> writes them. \<open>vs_refreshing\<close> is its refresh
  lock: a call that finds it held does not wait.
\<close>

section \<open>Outcomes\<close>

datatype rejection_reason =
    TOKEN_TOO_LONG | MALFORMED_TOKEN | UNSUPPORTED_ALGORITHM | INVALID_KEY_ID | INVALID_TOKEN_TYPE
  | UNKNOWN_KEY_ID | KEY_SET_UNAVAILABLE | INVALID_SIGNATURE | INVALID_AUDIENCE | INVALID_ISSUER
  | INVALID_CLAIM | EXPIRED | ISSUED_IN_FUTURE | NOT_YET_VALID

type_synonym json_object = "(pystr \<times> pyobj) list"

record verified_claims =
  vc_subject :: "pystr option"
  vc_issuer :: pystr
  vc_audiences :: "pyobj list"
  vc_expires_at :: int
  vc_issued_at :: int
  vc_claims :: json_object

datatype refresh_failure =
    FETCH_FAILED | TOO_LARGE | NOT_JSON | KEY_COUNT_OUT_OF_RANGE | KEY_NOT_AN_OBJECT
  | SECRET_KEY_PUBLISHED | DUPLICATE_KEY_ID | NO_RS256_SIGNING_KEY | MALFORMED_KEY
  | INVALID_RSA_KEY | KEY_TOO_SHORT

section \<open>The libraries\<close>

datatype jwt_error =
    InvalidSignatureError | InvalidAudienceError | InvalidIssuerError | MissingRequiredClaimError
  | OtherInvalidTokenError

record 'k jwt_library =
  jl_unverified_header :: "pystr \<Rightarrow> json_object option"
  jl_decode :: "pystr \<Rightarrow> 'k \<Rightarrow> pystr list \<Rightarrow> pystr \<Rightarrow> jwt_error + json_object"
  jl_public_key :: "nat \<Rightarrow> nat \<Rightarrow> 'k option"
  jl_key_size :: "'k \<Rightarrow> int"
  jl_json :: "nat list \<Rightarrow> pyobj option"

section \<open>The key set\<close>

definition MAX_KEY_SET_KEYS :: nat where "MAX_KEY_SET_KEYS = 10"
definition MIN_RSA_KEY_BITS :: int where "MIN_RSA_KEY_BITS = 2048"
definition MAX_KEY_ID_CHARACTERS :: nat where "MAX_KEY_ID_CHARACTERS = 128"
definition RS256 :: pystr where "RS256 = py ''RS256''"

definition json_object :: "'k jwt_library \<Rightarrow> nat list \<Rightarrow> json_object option" where
  "json_object lib document = (case jl_json lib document of Some (PyDict members) \<Rightarrow> Some members | _ \<Rightarrow> None)"

definition secret_key_members :: "pystr set" where
  "secret_key_members = {py ''d'', py ''p'', py ''q'', py ''dp'', py ''dq'', py ''qi'', py ''oth'', py ''k''}"

fun is_key_id :: "pyobj \<Rightarrow> pystr option" where
  "is_key_id (PyStr s) = (if 0 < length s \<and> length s \<le> MAX_KEY_ID_CHARACTERS then Some s else None)"
| "is_key_id _ = None"

definition base64url_decode :: "pystr \<Rightarrow> exn + nat list" where
  "base64url_decode segment =
     (if list_all is_b64_char segment
      then bindR (b64_decode segment) (\<lambda>decoded.
        if b64_encode decoded \<noteq> segment then Inl ValueError else Inr decoded)
      else Inl ValueError)"

definition base64url_unsigned :: "pystr \<Rightarrow> exn + nat" where
  "base64url_unsigned value1 = bindR (base64url_decode value1) (\<lambda>bs. Inr (foldl (\<lambda>acc b. acc * 256 + b) 0 bs))"

definition is_rs256_verification_key :: "json_object \<Rightarrow> bool" where
  "is_rs256_verification_key jwk \<longleftrightarrow>
     map_of jwk (py ''kty'') = Some (PyStr (py ''RSA''))
     \<and> map_of jwk (py ''alg'') \<in> {None, Some (PyStr RS256)}
     \<and> map_of jwk (py ''use'') \<in> {None, Some (PyStr (py ''sig''))}
     \<and> (case map_of jwk (py ''key_ops'') of
          None \<Rightarrow> True
        | Some (PyList operations) \<Rightarrow> PyStr (py ''verify'') \<in> set operations
        | Some _ \<Rightarrow> False)"

definition declared_key_id :: "json_object \<Rightarrow> refresh_failure + pystr option" where
  "declared_key_id jwk = (case map_of jwk (py ''kid'') of
      None \<Rightarrow> Inr None
    | Some key_id \<Rightarrow> (case is_key_id key_id of None \<Rightarrow> Inl MALFORMED_KEY | Some k \<Rightarrow> Inr (Some k)))"

definition public_signing_key :: "'k jwt_library \<Rightarrow> json_object \<Rightarrow> refresh_failure + pystr option \<times> 'k" where
  "public_signing_key lib jwk = bindR (declared_key_id jwk) (\<lambda>key_id.
     case (map_of jwk (py ''n''), map_of jwk (py ''e'')) of
       (Some (PyStr modulus), Some (PyStr exponent)) \<Rightarrow>
         (case (base64url_unsigned exponent, base64url_unsigned modulus) of
            (Inr e, Inr n) \<Rightarrow> (case jl_public_key lib e n of
                None \<Rightarrow> Inl INVALID_RSA_KEY
              | Some key \<Rightarrow> if jl_key_size lib key < MIN_RSA_KEY_BITS then Inl KEY_TOO_SHORT else Inr (key_id, key))
          | _ \<Rightarrow> Inl INVALID_RSA_KEY)
     | _ \<Rightarrow> Inl MALFORMED_KEY)"

text \<open>One entry after the other: an object, no secret member, then, for an RS256 verification key,
  the count and the key itself. \<open>eligible\<close> counts the keys so far and \<open>last_key\<close> is the newest.\<close>

fun rs256_verification_keys ::
    "'k jwt_library \<Rightarrow> pyobj list \<Rightarrow> (pystr \<rightharpoonup> 'k) \<Rightarrow> nat \<Rightarrow> 'k option
     \<Rightarrow> refresh_failure + (pystr \<rightharpoonup> 'k) \<times> 'k option" where
  "rs256_verification_keys lib [] named eligible last_key =
     (if eligible = 0 then Inl NO_RS256_SIGNING_KEY
      else Inr (named, if eligible = 1 then last_key else None))"
| "rs256_verification_keys lib (PyDict jwk # jwks) named eligible last_key =
     (if secret_key_members \<inter> fst ` set jwk \<noteq> {} then Inl SECRET_KEY_PUBLISHED
      else if \<not> is_rs256_verification_key jwk then rs256_verification_keys lib jwks named eligible last_key
      else if eligible = MAX_KEY_SET_KEYS then Inl KEY_COUNT_OUT_OF_RANGE
      else bindR (public_signing_key lib jwk) (\<lambda>(key_id, key).
        case key_id of
          None \<Rightarrow> rs256_verification_keys lib jwks named (Suc eligible) (Some key)
        | Some k \<Rightarrow>
            if named k \<noteq> None then Inl DUPLICATE_KEY_ID
            else rs256_verification_keys lib jwks (named(k \<mapsto> key)) (Suc eligible) (Some key)))"
| "rs256_verification_keys lib (_ # jwks) named eligible last_key = Inl KEY_NOT_AN_OBJECT"

definition parse_key_set :: "'k jwt_library \<Rightarrow> nat list \<Rightarrow> refresh_failure + (pystr \<rightharpoonup> 'k) \<times> 'k option" where
  "parse_key_set lib document =
     (if MAX_KEY_SET_BYTES < length document then Inl TOO_LARGE
      else case json_object lib document of
        None \<Rightarrow> Inl NOT_JSON
      | Some parsed \<Rightarrow> (case map_of parsed (py ''keys'') of
          Some (PyList jwks) \<Rightarrow>
            if jwks = [] then Inl KEY_COUNT_OUT_OF_RANGE
            else rs256_verification_keys lib jwks (\<lambda>_. None) 0 None
        | _ \<Rightarrow> Inl KEY_COUNT_OUT_OF_RANGE))"

section \<open>The verifier\<close>

definition MAX_TOKEN_CHARACTERS :: nat where "MAX_TOKEN_CHARACTERS = 8 * 1024"
definition MAX_HEADER_SEGMENT_CHARACTERS :: nat where "MAX_HEADER_SEGMENT_CHARACTERS = 512"
definition KEY_SET_TTL_SECONDS :: rat where "KEY_SET_TTL_SECONDS = 60 * 60"
definition KEY_SET_REFRESH_COOLDOWN_SECONDS :: rat where "KEY_SET_REFRESH_COOLDOWN_SECONDS = 30"

record 'k key_set =
  ks_named :: "pystr \<rightharpoonup> 'k"
  ks_sole :: "'k option"
  ks_fetched_at :: rat

record 'k verifier_state =
  vs_key_set :: "'k key_set option"
  vs_last_refresh_at :: "rat option"
  vs_last_refresh_failed :: bool
  vs_refreshing :: bool

definition new_verifier_state :: "'k verifier_state" where
  "new_verifier_state = \<lparr>vs_key_set = None, vs_last_refresh_at = None, vs_last_refresh_failed = False, vs_refreshing = False\<rparr>"

record ('s, 'k) jwt_verifier =
  jv_issuer :: pystr
  jv_audiences :: "pystr list"
  jv_jwks_url :: pystr
  jv_leeway_seconds :: int
  jv_fetch_key_set :: "pystr \<Rightarrow> ('s, nat list) act"
  jv_wall_clock :: "('s, rat) act"
  jv_monotonic_clock :: "('s, rat) act"
  jv_state :: "'s \<Rightarrow> 'k verifier_state"
  jv_set_state :: "'k verifier_state \<Rightarrow> 's \<Rightarrow> 's"

definition jv_update :: "('s, 'k) jwt_verifier \<Rightarrow> ('k verifier_state \<Rightarrow> 'k verifier_state) \<Rightarrow> 's \<Rightarrow> 's" where
  "jv_update v f s = jv_set_state v (f (jv_state v s)) s"

definition is_current :: "('s, 'k) jwt_verifier \<Rightarrow> 'k key_set option \<Rightarrow> ('s, bool) act" where
  "is_current v key_set = (case key_set of
      None \<Rightarrow> ret False
    | Some ks \<Rightarrow> bindA (jv_monotonic_clock v) (\<lambda>now. ret (now - ks_fetched_at ks < KEY_SET_TTL_SECONDS)))"

definition refresh_failed :: "('s, 'k) jwt_verifier \<Rightarrow> ('s, unit) act" where
  "refresh_failed v = writeA (jv_update v (\<lambda>st. st\<lparr>vs_last_refresh_failed := True\<rparr>))"

definition fetch_and_keep :: "'k jwt_library \<Rightarrow> ('s, 'k) jwt_verifier \<Rightarrow> rat \<Rightarrow> ('s, unit) act" where
  "fetch_and_keep lib v now = (\<lambda>s. case jv_fetch_key_set v (jv_jwks_url v) s of
      (Inl KeySetFetchError, s') \<Rightarrow> refresh_failed v s'
    | (Inl e, s') \<Rightarrow> (Inl e, s')
    | (Inr document, s') \<Rightarrow> (case parse_key_set lib document of
        Inl _ \<Rightarrow> refresh_failed v s'
      | Inr (named, sole) \<Rightarrow> writeA (jv_update v (\<lambda>st. st\<lparr>
          vs_key_set := Some \<lparr>ks_named = named, ks_sole = sole, ks_fetched_at = now\<rparr>,
          vs_last_refresh_failed := False\<rparr>)) s'))"

definition refresh_key_set :: "'k jwt_library \<Rightarrow> ('s, 'k) jwt_verifier \<Rightarrow> ('s, unit) act" where
  "refresh_key_set lib v = bindA (readA (\<lambda>s. vs_refreshing (jv_state v s))) (\<lambda>refreshing.
     if refreshing then ret ()
     else bindA (writeA (jv_update v (\<lambda>st. st\<lparr>vs_refreshing := True\<rparr>))) (\<lambda>_.
       finallyA
         (bindA (jv_monotonic_clock v) (\<lambda>now.
          bindA (readA (\<lambda>s. vs_last_refresh_at (jv_state v s))) (\<lambda>last_refresh_at.
            if (case last_refresh_at of None \<Rightarrow> False | Some t \<Rightarrow> now - t < KEY_SET_REFRESH_COOLDOWN_SECONDS)
            then ret ()
            else bindA (writeA (jv_update v (\<lambda>st. st\<lparr>vs_last_refresh_at := Some now\<rparr>))) (\<lambda>_.
              fetch_and_keep lib v now))))
         (jv_update v (\<lambda>st. st\<lparr>vs_refreshing := False\<rparr>))))"

definition key_of ::
    "('s, 'k) jwt_verifier \<Rightarrow> 'k key_set \<Rightarrow> pystr option \<Rightarrow> ('s, rejection_reason + 'k) act" where
  "key_of v ks key_id = (case key_id of
      None \<Rightarrow> (case ks_sole ks of None \<Rightarrow> refuse INVALID_KEY_ID | Some key \<Rightarrow> ret (Inr key))
    | Some k \<Rightarrow> (case ks_named ks k of
        Some key \<Rightarrow> ret (Inr key)
      | None \<Rightarrow> bindA (readA (\<lambda>s. vs_last_refresh_failed (jv_state v s))) (\<lambda>failed.
          refuse (if failed then KEY_SET_UNAVAILABLE else UNKNOWN_KEY_ID))))"

definition jwt_signing_key ::
    "'k jwt_library \<Rightarrow> ('s, 'k) jwt_verifier \<Rightarrow> pystr option \<Rightarrow> ('s, rejection_reason + 'k) act" where
  "jwt_signing_key lib v key_id =
     bindA (readA (\<lambda>s. vs_key_set (jv_state v s))) (\<lambda>key_set.
     bindA (is_current v key_set) (\<lambda>current.
     bindA (if \<not> current \<or> (case (key_id, key_set) of (Some k, Some ks) \<Rightarrow> ks_named ks k = None | _ \<Rightarrow> False)
            then bindA (refresh_key_set lib v) (\<lambda>_. readA (\<lambda>s. vs_key_set (jv_state v s)))
            else ret key_set) (\<lambda>key_set1.
     bindA (is_current v key_set1) (\<lambda>current1.
       case key_set1 of
         None \<Rightarrow> refuse KEY_SET_UNAVAILABLE
       | Some ks \<Rightarrow> if \<not> current1 then refuse KEY_SET_UNAVAILABLE else key_of v ks key_id))))"

section \<open>Reading a token\<close>

definition require_comparable_types :: "pystr option \<Rightarrow> pyobj list option \<Rightarrow> exn + unit" where
  "require_comparable_types expected_type expected_media_types = (case expected_media_types of
      None \<Rightarrow> Inr ()
    | Some types \<Rightarrow>
        if expected_type \<noteq> None then Inl ValueError
        else check (list_all (\<lambda>t. case t of
            PyStr m \<Rightarrow> m \<noteq> [] \<and> isascii m \<and> m = lower_py m | _ \<Rightarrow> False) types) ValueError)"

definition has_expected_type :: "json_object \<Rightarrow> pystr option \<Rightarrow> pyobj list option \<Rightarrow> bool" where
  "has_expected_type header expected_type expected_media_types =
     (let declared = map_of header (py ''typ'') in
      case expected_media_types of
        Some types \<Rightarrow> (case declared of
            Some (PyStr d) \<Rightarrow> isascii d \<and> PyStr (lower_py d) \<in> set types
          | _ \<Rightarrow> False)
      | None \<Rightarrow> (case expected_type of None \<Rightarrow> True | Some e \<Rightarrow> declared = Some (PyStr e)))"

definition header_key_id :: "json_object \<Rightarrow> rejection_reason + pystr option" where
  "header_key_id header = (case map_of header (py ''kid'') of
      None \<Rightarrow> Inr None
    | Some key_id \<Rightarrow> (case is_key_id key_id of None \<Rightarrow> Inl INVALID_KEY_ID | Some k \<Rightarrow> Inr (Some k)))"

definition integer_claim :: "json_object \<Rightarrow> pystr \<Rightarrow> rejection_reason + int" where
  "integer_claim claims name = (case map_of claims name of
      Some v \<Rightarrow> (case is_whole_number v of Some i \<Rightarrow> Inr i | None \<Rightarrow> Inl INVALID_CLAIM)
    | None \<Rightarrow> Inl INVALID_CLAIM)"

definition subject_of :: "json_object \<Rightarrow> rejection_reason + pystr option" where
  "subject_of claims = (case map_of claims (py ''sub'') of
      None \<Rightarrow> Inr None
    | Some (PyStr subject) \<Rightarrow> if subject = [] then Inl INVALID_CLAIM else Inr (Some subject)
    | Some _ \<Rightarrow> Inl INVALID_CLAIM)"

text \<open>\<open>aud\<close> as PyJWT accepted it, a string or a list; \<open>tuple\<close> of anything else raises or takes its items.\<close>

definition audiences_of :: "json_object \<Rightarrow> exn + pyobj list" where
  "audiences_of claims = (case map_of claims (py ''aud'') of
      None \<Rightarrow> Inl KeyError
    | Some (PyStr audience) \<Rightarrow> Inr [PyStr audience]
    | Some (PyList audiences) \<Rightarrow> Inr audiences
    | Some (PyDict members) \<Rightarrow> Inr (map (PyStr \<circ> fst) members)
    | Some _ \<Rightarrow> Inl TypeError)"

definition verified_payload ::
    "'k jwt_library \<Rightarrow> ('s, 'k) jwt_verifier \<Rightarrow> pystr \<Rightarrow> 'k \<Rightarrow> rejection_reason + json_object" where
  "verified_payload lib v token key =
     (case jl_decode lib token key (jv_audiences v) (jv_issuer v) of
        Inr claims \<Rightarrow> Inr claims
      | Inl InvalidSignatureError \<Rightarrow> Inl INVALID_SIGNATURE
      | Inl InvalidAudienceError \<Rightarrow> Inl INVALID_AUDIENCE
      | Inl InvalidIssuerError \<Rightarrow> Inl INVALID_ISSUER
      | Inl MissingRequiredClaimError \<Rightarrow> Inl INVALID_CLAIM
      | Inl OtherInvalidTokenError \<Rightarrow> Inl MALFORMED_TOKEN)"

definition checked_time_claims ::
    "('s, 'k) jwt_verifier \<Rightarrow> json_object \<Rightarrow> ('s, rejection_reason + int \<times> int) act" where
  "checked_time_claims v claims =
     bindV (ret (integer_claim claims (py ''exp''))) (\<lambda>expires_at.
     bindV (ret (integer_claim claims (py ''iat''))) (\<lambda>issued_at.
     bindV (ret (if map_of claims (py ''nbf'') = None then Inr None
                 else map_sum id Some (integer_claim claims (py ''nbf'')))) (\<lambda>not_before.
     bindA (jv_wall_clock v) (\<lambda>now.
       if of_int (expires_at + jv_leeway_seconds v) \<le> now then refuse EXPIRED
       else if now + of_int (jv_leeway_seconds v) < of_int issued_at then refuse ISSUED_IN_FUTURE
       else if (case not_before of None \<Rightarrow> False | Some n \<Rightarrow> now + of_int (jv_leeway_seconds v) < of_int n)
            then refuse NOT_YET_VALID
       else ret (Inr (expires_at, issued_at))))))"

text \<open>What is judged before a key is looked for: the sizes, the header and the key id it names.\<close>

definition judged_header ::
    "'k jwt_library \<Rightarrow> pystr \<Rightarrow> pystr option \<Rightarrow> pyobj list option \<Rightarrow> rejection_reason + pystr option" where
  "judged_header lib token expected_type expected_media_types =
     (if MAX_TOKEN_CHARACTERS < length token then Inl TOKEN_TOO_LONG
      else if \<not> isascii token then Inl MALFORMED_TOKEN
      else if MAX_HEADER_SEGMENT_CHARACTERS < length (fst (partition_on 46 token)) then Inl MALFORMED_TOKEN
      else case jl_unverified_header lib token of
        None \<Rightarrow> Inl MALFORMED_TOKEN
      | Some header \<Rightarrow>
          if map_of header (py ''alg'') \<noteq> Some (PyStr RS256) then Inl UNSUPPORTED_ALGORITHM
          else if \<not> has_expected_type header expected_type expected_media_types then Inl INVALID_TOKEN_TYPE
          else header_key_id header)"

definition verified_claims_of ::
    "'k jwt_library \<Rightarrow> ('s, 'k) jwt_verifier \<Rightarrow> pystr \<Rightarrow> pystr option \<Rightarrow> pyobj list option
     \<Rightarrow> ('s, rejection_reason + verified_claims) act" where
  "verified_claims_of lib v token expected_type expected_media_types =
     bindV (ret (judged_header lib token expected_type expected_media_types)) (\<lambda>key_id.
     bindV (jwt_signing_key lib v key_id) (\<lambda>key.
     bindV (ret (verified_payload lib v token key)) (\<lambda>claims.
     bindV (checked_time_claims v claims) (\<lambda>(expires_at, issued_at).
     bindV (ret (subject_of claims)) (\<lambda>subject.
     bindA (liftR (audiences_of claims)) (\<lambda>audiences.
       ret (Inr \<lparr>vc_subject = subject, vc_issuer = jv_issuer v, vc_audiences = audiences,
         vc_expires_at = expires_at, vc_issued_at = issued_at, vc_claims = claims\<rparr>)))))))"

definition verify ::
    "'k jwt_library \<Rightarrow> ('s, 'k) jwt_verifier \<Rightarrow> pystr \<Rightarrow> pystr option \<Rightarrow> pyobj list option
     \<Rightarrow> ('s, rejection_reason + verified_claims) act" where
  "verify lib v token expected_type expected_media_types =
     bindA (liftR (require_comparable_types expected_type expected_media_types)) (\<lambda>_.
       verified_claims_of lib v token expected_type expected_media_types)"

text \<open>The constructor's checks: the audiences are a collection of one or more non-empty strings.\<close>

fun audience_texts :: "pyobj \<Rightarrow> pystr list option" where
  "audience_texts (PyList xs) = those (map (\<lambda>x. case x of PyStr s \<Rightarrow> if s = [] then None else Some s | _ \<Rightarrow> None) xs)"
| "audience_texts (PyTuple xs) = those (map (\<lambda>x. case x of PyStr s \<Rightarrow> if s = [] then None else Some s | _ \<Rightarrow> None) xs)"
| "audience_texts (PyFrozenset xs) = those (map (\<lambda>x. case x of PyStr s \<Rightarrow> if s = [] then None else Some s | _ \<Rightarrow> None) xs)"
| "audience_texts _ = None"

definition JwtVerifier ::
    "pyobj \<Rightarrow> pyobj \<Rightarrow> pyobj \<Rightarrow> pyobj \<Rightarrow> (pystr \<Rightarrow> ('s, nat list) act) \<Rightarrow> ('s, rat) act \<Rightarrow> ('s, rat) act
     \<Rightarrow> ('s \<Rightarrow> 'k verifier_state) \<Rightarrow> ('k verifier_state \<Rightarrow> 's \<Rightarrow> 's) \<Rightarrow> exn + ('s, 'k) jwt_verifier" where
  "JwtVerifier issuer audiences jwks_url leeway_seconds fetch_key_set wall_clock monotonic_clock get put =
     bindR (require_non_empty_string issuer) (\<lambda>iss.
     case audience_texts audiences of
       None \<Rightarrow> Inl ValueError
     | Some [] \<Rightarrow> Inl ValueError
     | Some auds \<Rightarrow> (case jwks_url of
         PyStr url \<Rightarrow>
           if \<not> is_https_text url then Inl ValueError
           else bindR (require_non_negative_whole_number leeway_seconds) (\<lambda>leeway.
             Inr \<lparr>jv_issuer = iss, jv_audiences = sort auds, jv_jwks_url = url, jv_leeway_seconds = leeway,
               jv_fetch_key_set = fetch_key_set, jv_wall_clock = wall_clock,
               jv_monotonic_clock = monotonic_clock, jv_state = get, jv_set_state = put\<rparr>)
       | _ \<Rightarrow> Inl ValueError))"

section \<open>What an accepted key set is\<close>

definition is_verification_entry :: "pyobj \<Rightarrow> bool" where
  "is_verification_entry j = (case j of PyDict m \<Rightarrow> is_rs256_verification_key m | _ \<Rightarrow> False)"

definition entry_key :: "'k jwt_library \<Rightarrow> pyobj list \<Rightarrow> pystr option \<Rightarrow> 'k \<Rightarrow> bool" where
  "entry_key lib jwks key_id key \<longleftrightarrow>
     (\<exists>m. PyDict m \<in> set jwks \<and> is_rs256_verification_key m \<and> public_signing_key lib m = Inr (key_id, key))"

lemma entry_key_simps [simp]:
  "entry_key lib (PyDict m # jwks) k key \<longleftrightarrow>
     (is_rs256_verification_key m \<and> public_signing_key lib m = Inr (k, key)) \<or> entry_key lib jwks k key"
  by (auto simp: entry_key_def)

lemma is_key_id_Some: "is_key_id v = Some k \<longleftrightarrow> v = PyStr k \<and> 0 < length k \<and> length k \<le> MAX_KEY_ID_CHARACTERS"
  by (cases v) auto

lemma public_signing_key_Inr:
  assumes "public_signing_key lib m = Inr (k, key)"
  shows "declared_key_id m = Inr k" "MIN_RSA_KEY_BITS \<le> jl_key_size lib key"
proof -
  obtain k1 where k1: "declared_key_id m = Inr k1" and rest: "(case (map_of m (py ''n''), map_of m (py ''e'')) of
       (Some (PyStr modulus), Some (PyStr exponent)) \<Rightarrow>
         (case (base64url_unsigned exponent, base64url_unsigned modulus) of
            (Inr e, Inr n) \<Rightarrow> (case jl_public_key lib e n of
                None \<Rightarrow> Inl INVALID_RSA_KEY
              | Some key \<Rightarrow> if jl_key_size lib key < MIN_RSA_KEY_BITS then Inl KEY_TOO_SHORT else Inr (k1, key))
          | _ \<Rightarrow> Inl INVALID_RSA_KEY)
     | _ \<Rightarrow> Inl MALFORMED_KEY) = Inr (k, key)"
    using assms unfolding public_signing_key_def bindR_eq_Inr by blast
  have r: "k1 = k \<and> MIN_RSA_KEY_BITS \<le> jl_key_size lib key"
    using rest by (auto split: option.splits pyobj.splits sum.splits if_splits)
  with k1 show "declared_key_id m = Inr k" "MIN_RSA_KEY_BITS \<le> jl_key_size lib key" by simp_all
qed

lemma declared_key_id_Some: "declared_key_id m = Inr (Some i) \<Longrightarrow> i \<noteq> [] \<and> length i \<le> MAX_KEY_ID_CHARACTERS"
  by (auto simp: declared_key_id_def is_key_id_Some split: option.splits)

lemma entry_key_sound:
  assumes "entry_key lib jwks k key"
  shows "MIN_RSA_KEY_BITS \<le> jl_key_size lib key" and "k = Some i \<Longrightarrow> i \<noteq> [] \<and> length i \<le> MAX_KEY_ID_CHARACTERS"
  using assms unfolding entry_key_def by (blast dest: public_signing_key_Inr declared_key_id_Some)+

definition object_without_secret :: "pyobj \<Rightarrow> bool" where
  "object_without_secret j = (case j of PyDict m \<Rightarrow> secret_key_members \<inter> fst ` set m = {} | _ \<Rightarrow> False)"

lemma rs256_verification_keys_sound:
  assumes "rs256_verification_keys lib jwks named eligible last_key = Inr (named', sole)"
  shows "list_all object_without_secret jwks
    \<and> 0 < eligible + length (filter is_verification_entry jwks)
    \<and> (eligible \<le> MAX_KEY_SET_KEYS \<longrightarrow> eligible + length (filter is_verification_entry jwks) \<le> MAX_KEY_SET_KEYS)
    \<and> (\<forall>i key. named' i = Some key \<longrightarrow> named i = Some key \<or> entry_key lib jwks (Some i) key)
    \<and> (\<forall>key. sole = Some key \<longrightarrow> eligible + length (filter is_verification_entry jwks) = 1
        \<and> (last_key = Some key \<or> (\<exists>k. entry_key lib jwks k key)))"
  using assms
proof (induction lib jwks named eligible last_key rule: rs256_verification_keys.induct)
  case (2 lib jwk jwks named eligible last_key)
  have safe: "secret_key_members \<inter> fst ` set jwk = {}" using "2.prems" by (auto split: if_splits)
  show ?case
  proof (cases "is_rs256_verification_key jwk")
    case False
    with "2.prems" safe have "rs256_verification_keys lib jwks named eligible last_key = Inr (named', sole)" by simp
    from "2.IH"(1)[OF _ False this] safe False show ?thesis
      by (auto simp: object_without_secret_def is_verification_entry_def)
  next
    case True
    have few: "eligible \<noteq> MAX_KEY_SET_KEYS" using "2.prems" safe True by (auto split: if_splits)
    then obtain k key where key: "public_signing_key lib jwk = Inr (k, key)"
      using "2.prems" safe True by auto
    show ?thesis
    proof (cases k)
      case None
      with "2.prems" safe True few key
      have rest: "rs256_verification_keys lib jwks named (Suc eligible) (Some key) = Inr (named', sole)" by simp
      from "2.IH"(2)[OF _ _ few None rest] key safe True few key show ?thesis
        by (auto simp: object_without_secret_def is_verification_entry_def)
    next
      case (Some i)
      with "2.prems" safe True few key
      have fresh: "named i = None" and rest: "rs256_verification_keys lib jwks (named(i \<mapsto> key)) (Suc eligible) (Some key) = Inr (named', sole)"
        by (auto split: if_splits)
      from "2.IH"(3)[OF _ _ few Some _ rest] key safe True few key fresh Some show ?thesis
        by (auto simp: object_without_secret_def is_verification_entry_def split: if_splits)
    qed
  qed
qed (auto split: if_splits)

section \<open>What verification establishes\<close>

lemma ret_eq [simp]: "ret v s = (Inr w, s') \<longleftrightarrow> v = w \<and> s = s'"
  by (simp add: ret_def)

lemma key_of_held:
  assumes "key_of v ks key_id s = (Inr (Inr key), s')"
  shows "key \<in> ran (ks_named ks) \<union> set_option (ks_sole ks)"
  using assms by (auto simp: key_of_def refuse_def bindA_eq_Inr ran_def split: option.splits)

lemma is_current_True:
  assumes "is_current v (Some ks) s = (Inr True, s')"
  shows "\<exists>now. jv_monotonic_clock v s = (Inr now, s') \<and> now - ks_fetched_at ks < KEY_SET_TTL_SECONDS"
  using assms by (auto simp: is_current_def bindA_eq_Inr)

lemma checked_time_claims_held:
  assumes "checked_time_claims v claims s = (Inr (Inr (expires_at, issued_at)), s')"
  shows "map_of claims (py ''exp'') = Some (PyInt expires_at)" "map_of claims (py ''iat'') = Some (PyInt issued_at)"
    "\<exists>now s1. jv_wall_clock v s1 = (Inr now, s') \<and> now < of_int (expires_at + jv_leeway_seconds v)
      \<and> of_int issued_at \<le> now + of_int (jv_leeway_seconds v)
      \<and> (map_of claims (py ''nbf'') = None \<or> (\<exists>n. map_of claims (py ''nbf'') = Some (PyInt n)
          \<and> of_int n \<le> now + of_int (jv_leeway_seconds v)))"
proof -
  have claim: "integer_claim claims name = Inr i \<longleftrightarrow> map_of claims name = Some (PyInt i)" for name i
    by (auto simp: integer_claim_def is_whole_number_Some split: option.splits)
  obtain e i n now s1 where eq: "integer_claim claims (py ''exp'') = Inr e" "integer_claim claims (py ''iat'') = Inr i"
      "(if map_of claims (py ''nbf'') = None then Inr None
                 else map_sum id Some (integer_claim claims (py ''nbf''))) = Inr n"
    and clock: "jv_wall_clock v s = (Inr now, s1)"
    and rest: "(if of_int (e + jv_leeway_seconds v) \<le> now then refuse EXPIRED
       else if now + of_int (jv_leeway_seconds v) < of_int i then refuse ISSUED_IN_FUTURE
       else if (case n of None \<Rightarrow> False | Some n \<Rightarrow> now + of_int (jv_leeway_seconds v) < of_int n)
            then refuse NOT_YET_VALID
       else ret (Inr (e, i))) s1 = (Inr (Inr (expires_at, issued_at)), s')"
    using assms unfolding checked_time_claims_def bindV_eq_Inr bindA_eq_Inr by auto
  have r: "e = expires_at" "i = issued_at" "s1 = s'" "now < of_int (e + jv_leeway_seconds v)"
    "of_int i \<le> now + of_int (jv_leeway_seconds v)" "\<forall>k. n = Some k \<longrightarrow> of_int k \<le> now + of_int (jv_leeway_seconds v)"
    using rest by (auto simp: refuse_def split: if_splits option.splits)
  then show "map_of claims (py ''exp'') = Some (PyInt expires_at)" "map_of claims (py ''iat'') = Some (PyInt issued_at)"
    using eq(1,2) by (simp_all add: claim)
  have "map_of claims (py ''nbf'') = None \<or> (\<exists>k. n = Some k \<and> map_of claims (py ''nbf'') = Some (PyInt k))"
  proof (cases "integer_claim claims (py ''nbf'')")
    case (Inr k)
    with eq(3) have "map_of claims (py ''nbf'') \<noteq> None \<longrightarrow> n = Some k" by auto
    with Inr show ?thesis unfolding claim by simp
  qed (use eq(3) in \<open>auto split: if_splits\<close>)
  with r clock show "\<exists>now s1. jv_wall_clock v s1 = (Inr now, s') \<and> now < of_int (expires_at + jv_leeway_seconds v)
      \<and> of_int issued_at \<le> now + of_int (jv_leeway_seconds v)
      \<and> (map_of claims (py ''nbf'') = None \<or> (\<exists>n. map_of claims (py ''nbf'') = Some (PyInt n)
          \<and> of_int n \<le> now + of_int (jv_leeway_seconds v)))" by blast
qed

section \<open>A verifier in a world of its own\<close>

text \<open>
  A host state that holds nothing but the verifier, the two clocks and what the issuer answers now;
  \<open>vw_fetches\<close> records the fetches, the newest first: the instant of each and what the issuer answered it.
\<close>

record 'k verifier_world =
  vw_monotonic :: rat
  vw_wall :: rat
  vw_document :: "exn + nat list"
  vw_fetches :: "(rat \<times> (exn + nat list)) list"
  vw_verifier :: "'k verifier_state"

definition world_verifier :: "pystr \<Rightarrow> pystr list \<Rightarrow> pystr \<Rightarrow> int \<Rightarrow> ('k verifier_world, 'k) jwt_verifier" where
  "world_verifier issuer audiences url leeway = \<lparr>jv_issuer = issuer, jv_audiences = audiences, jv_jwks_url = url,
     jv_leeway_seconds = leeway,
     jv_fetch_key_set = (\<lambda>_ w. (vw_document w, w\<lparr>vw_fetches := (vw_monotonic w, vw_document w) # vw_fetches w\<rparr>)),
     jv_wall_clock = readA vw_wall, jv_monotonic_clock = readA vw_monotonic,
     jv_state = vw_verifier, jv_set_state = (\<lambda>st w. w\<lparr>vw_verifier := st\<rparr>)\<rparr>"

definition new_world :: "'k verifier_world" where
  "new_world = \<lparr>vw_monotonic = 0, vw_wall = 0, vw_document = Inl KeySetFetchError, vw_fetches = [], vw_verifier = new_verifier_state\<rparr>"

text \<open>Each request meets the clocks and the issuer as they are at its time.\<close>

record verify_request =
  vr_monotonic :: rat
  vr_wall :: rat
  vr_document :: "exn + nat list"
  vr_token :: pystr
  vr_expected_type :: "pystr option"
  vr_expected_media_types :: "pyobj list option"

definition at_time :: "verify_request \<Rightarrow> 'k verifier_world \<Rightarrow> 'k verifier_world" where
  "at_time q w = w\<lparr>vw_monotonic := vr_monotonic q, vw_wall := vr_wall q, vw_document := vr_document q\<rparr>"

fun verify_run :: "'k jwt_library \<Rightarrow> ('k verifier_world, 'k) jwt_verifier \<Rightarrow> verify_request list \<Rightarrow> 'k verifier_world \<Rightarrow> 'k verifier_world" where
  "verify_run lib v [] w = w"
| "verify_run lib v (q # qs) w =
     verify_run lib v qs (snd (verify lib v (vr_token q) (vr_expected_type q) (vr_expected_media_types q) (at_time q w)))"

text \<open>The key set a history of fetches leaves: what the newest accepted document holds, as of its fetch. A
  fetch that failed and a document that was refused count for nothing.\<close>

fun latest_accepted :: "'k jwt_library \<Rightarrow> (rat \<times> (exn + nat list)) list \<Rightarrow> 'k key_set option" where
  "latest_accepted lib [] = None"
| "latest_accepted lib ((t, answer) # older) = (case answer of
      Inl _ \<Rightarrow> latest_accepted lib older
    | Inr document \<Rightarrow> (case parse_key_set lib document of
        Inl _ \<Rightarrow> latest_accepted lib older
      | Inr (named, sole) \<Rightarrow> Some \<lparr>ks_named = named, ks_sole = sole, ks_fetched_at = t\<rparr>))"

definition world_ok :: "'k jwt_library \<Rightarrow> 'k verifier_world \<Rightarrow> bool" where
  "world_ok lib w \<longleftrightarrow> vs_refreshing (vw_verifier w) = False
     \<and> vs_last_refresh_at (vw_verifier w) = (case vw_fetches w of [] \<Rightarrow> None | f # _ \<Rightarrow> Some (fst f))
     \<and> sorted_wrt (\<lambda>newer older. fst older + 30 \<le> fst newer) (vw_fetches w)
     \<and> (\<forall>f\<in>set (vw_fetches w). fst f \<le> vw_monotonic w)
     \<and> vs_key_set (vw_verifier w) = latest_accepted lib (vw_fetches w)"

definition kept_after :: "'k jwt_library \<Rightarrow> rat \<Rightarrow> 'k verifier_world \<Rightarrow> 'k key_set option" where
  "kept_after lib now w = (case vw_document w of
      Inr document \<Rightarrow> (case parse_key_set lib document of
          Inr (named, sole) \<Rightarrow> Some \<lparr>ks_named = named, ks_sole = sole, ks_fetched_at = now\<rparr>
        | Inl _ \<Rightarrow> vs_key_set (vw_verifier w))
    | Inl _ \<Rightarrow> vs_key_set (vw_verifier w))"

lemma fetch_and_keep_world:
  "\<exists>failed. snd (fetch_and_keep lib (world_verifier issuer audiences url leeway) now w) = w\<lparr>vw_fetches := (vw_monotonic w, vw_document w) # vw_fetches w,
      vw_verifier := (vw_verifier w)\<lparr>vs_key_set := kept_after lib now w, vs_last_refresh_failed := failed\<rparr>\<rparr>"
proof (cases "vw_document w")
  case (Inl e)
  then show ?thesis
    by (cases e) (auto simp: fetch_and_keep_def world_verifier_def kept_after_def refresh_failed_def writeA_def jv_update_def
        intro: exI[of _ "vs_last_refresh_failed (vw_verifier w)"])
next
  case (Inr document)
  then show ?thesis
    by (cases "parse_key_set lib document")
      (auto simp: fetch_and_keep_def world_verifier_def kept_after_def refresh_failed_def writeA_def jv_update_def split: prod.split)
qed

lemma snd_finallyA [simp]: "snd (finallyA m clean s) = clean (snd (m s))"
  by (simp add: finallyA_def split: prod.split)

lemma refresh_key_set_world:
  assumes "world_ok lib w" and v: "v = world_verifier issuer audiences url leeway"
  shows "world_ok lib (snd (refresh_key_set lib v w)) \<and> vw_monotonic (snd (refresh_key_set lib v w)) = vw_monotonic w
    \<and> set (vw_fetches (snd (refresh_key_set lib v w))) \<subseteq> insert (vw_monotonic w, vw_document w) (set (vw_fetches w))"
proof (cases "\<exists>t. vs_last_refresh_at (vw_verifier w) = Some t \<and> vw_monotonic w - t < KEY_SET_REFRESH_COOLDOWN_SECONDS")
  case True
  then have unchanged: "refresh_key_set lib v w = (Inr (), w)"
    using assms by (auto simp: refresh_key_set_def world_ok_def world_verifier_def bindA_def readA_def writeA_def finallyA_def
        jv_update_def split: option.split)
  show ?thesis unfolding unchanged snd_conv using assms(1) by (intro conjI subset_insertI refl)
next
  case False
  let ?now = "vw_monotonic w" and ?st = "vw_verifier w"
  have no_cooldown: "(case vs_last_refresh_at ?st of None \<Rightarrow> False | Some t \<Rightarrow> ?now - t < KEY_SET_REFRESH_COOLDOWN_SECONDS) = False"
    using False by (auto split: option.split)
  let ?w1 = "w\<lparr>vw_verifier := ?st\<lparr>vs_refreshing := True, vs_last_refresh_at := Some ?now\<rparr>\<rparr>"
  have same: "kept_after lib ?now ?w1 = kept_after lib ?now w"
    by (simp add: kept_after_def split: sum.split)
  obtain failed where f: "snd (fetch_and_keep lib v ?now ?w1) = ?w1\<lparr>vw_fetches := (?now, vw_document w) # vw_fetches w,
      vw_verifier := (vw_verifier ?w1)\<lparr>vs_key_set := kept_after lib ?now w, vs_last_refresh_failed := failed\<rparr>\<rparr>"
    using fetch_and_keep_world[of lib issuer audiences url leeway ?now ?w1] unfolding v same by auto
  have clock: "jv_monotonic_clock v = readA vw_monotonic" "jv_state v = vw_verifier" "jv_set_state v = (\<lambda>st w. w\<lparr>vw_verifier := st\<rparr>)"
    by (simp_all add: v world_verifier_def)
  have free: "vs_refreshing ?st = False" using assms(1) by (simp add: world_ok_def)
  have "refresh_key_set lib v w = finallyA (fetch_and_keep lib v ?now) (jv_update v (\<lambda>st. st\<lparr>vs_refreshing := False\<rparr>)) ?w1"
    using no_cooldown free
    by (cases "vs_last_refresh_at ?st")
      (simp_all add: refresh_key_set_def bindA_def readA_def writeA_def finallyA_def jv_update_def clock)
  then have result: "snd (refresh_key_set lib v w) = w\<lparr>vw_fetches := (?now, vw_document w) # vw_fetches w,
      vw_verifier := ?st\<lparr>vs_last_refresh_at := Some ?now, vs_key_set := kept_after lib ?now w, vs_last_refresh_failed := failed, vs_refreshing := False\<rparr>\<rparr>"
    by (simp add: f jv_update_def clock)
  have spaced: "\<forall>f\<in>set (vw_fetches w). fst f + 30 \<le> ?now"
  proof (cases "vw_fetches w")
    case (Cons f fs)
    then have "fst f + 30 \<le> ?now" using assms(1) False by (auto simp: world_ok_def KEY_SET_REFRESH_COOLDOWN_SECONDS_def)
    moreover have "\<forall>g\<in>set fs. fst g + 30 \<le> fst f" using assms(1) Cons by (simp add: world_ok_def)
    ultimately show ?thesis using Cons by auto
  qed simp
  have kept: "kept_after lib ?now w = latest_accepted lib ((?now, vw_document w) # vw_fetches w)"
    using assms(1) by (simp add: kept_after_def world_ok_def split: sum.splits)
  show ?thesis unfolding result kept using spaced assms(1) by (auto simp: world_ok_def)
qed

lemma world_clocks:
  "pure_act (is_current (world_verifier issuer audiences url leeway) ks)"
  "pure_act (key_of (world_verifier issuer audiences url leeway) kset k)"
  "pure_act (checked_time_claims (world_verifier issuer audiences url leeway) claims)"
  unfolding is_current_def key_of_def checked_time_claims_def world_verifier_def jwt_verifier.simps
  by (intro pure_intros)+

lemma signing_key_held:
  assumes "jwt_signing_key lib v key_id s = (Inr (Inr key), s')" and v: "v = world_verifier issuer audiences url leeway"
  shows "\<exists>ks. vs_key_set (vw_verifier s') = Some ks \<and> key \<in> ran (ks_named ks) \<union> set_option (ks_sole ks)
    \<and> vw_monotonic s' - ks_fetched_at ks < KEY_SET_TTL_SECONDS"
proof -
  have pure: "snd (is_current v ks t) = t" "snd (key_of v kset k t) = t" for ks kset k t
    unfolding v by (rule pure_actD[OF world_clocks(1)] pure_actD[OF world_clocks(2)])+
  have state: "jv_state v = vw_verifier" "jv_monotonic_clock v = readA vw_monotonic" by (simp_all add: v world_verifier_def)
  obtain cached current s1 key_set s2 current1 s3 where cached: "cached = vs_key_set (vw_verifier s)"
    and first: "is_current v cached s = (Inr current, s1)"
    and choose: "(if \<not> current \<or> (case (key_id, cached) of (Some k, Some ks) \<Rightarrow> ks_named ks k = None | _ \<Rightarrow> False)
            then bindA (refresh_key_set lib v) (\<lambda>_. readA (\<lambda>s. vs_key_set (vw_verifier s)))
            else ret cached) s1 = (Inr key_set, s2)"
    and current: "is_current v key_set s2 = (Inr current1, s3)"
    and rest: "(case key_set of None \<Rightarrow> refuse KEY_SET_UNAVAILABLE
       | Some ks \<Rightarrow> if \<not> current1 then refuse KEY_SET_UNAVAILABLE else key_of v ks key_id) s3 = (Inr (Inr key), s')"
    using assms(1) unfolding jwt_signing_key_def bindA_eq_Inr state by (auto simp: readA_def)
  obtain ks where ks: "key_set = Some ks" and held: "key_of v ks key_id s3 = (Inr (Inr key), s')" and "current1"
    using rest by (cases key_set) (auto simp: refuse_def split: if_splits)
  have "s1 = s" "s3 = s2" "s' = s3" using pure(1)[of cached s] first pure(1)[of key_set s2] current pure(2)[of ks key_id s3] held
    by simp_all
  moreover from choose calculation cached have "vs_key_set (vw_verifier s2) = Some ks"
    using ks by (auto simp: bindA_eq_Inr readA_def split: if_splits)
  moreover have "vw_monotonic s2 - ks_fetched_at ks < KEY_SET_TTL_SECONDS"
    using is_current_True[of v ks s2 s3] current ks \<open>current1\<close> by (auto simp: state readA_def)
  ultimately show ?thesis using key_of_held[OF held] by auto
qed

lemma signing_key_keeps_clocks:
  fixes lib :: "'k jwt_library"
  shows "keeps (\<lambda>w. (vw_wall w, vw_monotonic w)) (jwt_signing_key lib (world_verifier issuer audiences url leeway) k)"
proof -
  let ?v = "world_verifier issuer audiences url leeway :: ('k verifier_world, 'k) jwt_verifier"
    and ?f = "\<lambda>w :: 'k verifier_world. (vw_wall w, vw_monotonic w)"
  have update: "?f (jv_update ?v g w) = ?f w" for g w by (simp add: jv_update_def world_verifier_def)
  have clock: "jv_monotonic_clock ?v = readA vw_monotonic" by (simp add: world_verifier_def)
  have "keeps ?f (fetch_and_keep lib ?v now)" for now
  proof -
    have "?f (snd (fetch_and_keep lib ?v now w)) = ?f w" for w
      using fetch_and_keep_world[of lib issuer audiences url leeway now w] by auto
    then show ?thesis unfolding keeps_def by blast
  qed
  then have "keeps ?f (refresh_key_set lib ?v)"
    unfolding refresh_key_set_def clock by (intro keeps_intros) (simp_all add: update)
  then show ?thesis
    unfolding jwt_signing_key_def
    by (intro keeps_intros keeps_pure[OF world_clocks(1)] keeps_pure[OF world_clocks(2)]) assumption+
qed

lemma verified_claims_held:
  assumes "verify lib v token expected_type expected_media_types s = (Inr (Inr c), s')"
  shows "length token \<le> 8192 \<and> isascii token
    \<and> (\<exists>header. jl_unverified_header lib token = Some header \<and> map_of header (py ''alg'') = Some (PyStr (py ''RS256''))
        \<and> has_expected_type header expected_type expected_media_types)"
    "\<exists>key_id key s1. jwt_signing_key lib v key_id s = (Inr (Inr key), s1)
      \<and> jl_decode lib token key (jv_audiences v) (jv_issuer v) = Inr (vc_claims c)
      \<and> checked_time_claims v (vc_claims c) s1 = (Inr (Inr (vc_expires_at c, vc_issued_at c)), s')"
    "vc_issuer c = jv_issuer v"
    "map_of (vc_claims c) (py ''sub'') = map_option PyStr (vc_subject c) \<and> vc_subject c \<noteq> Some []"
proof -
  obtain key_id key claims expires_at issued_at s1 s2 audiences where
    header: "judged_header lib token expected_type expected_media_types = Inr key_id"
    and key: "jwt_signing_key lib v key_id s = (Inr (Inr key), s1)"
    and payload: "verified_payload lib v token key = Inr claims"
    and times: "checked_time_claims v claims s1 = (Inr (Inr (expires_at, issued_at)), s2)"
    and subject: "subject_of claims = Inr (vc_subject c)"
    and c: "vc_issuer c = jv_issuer v" "vc_expires_at c = expires_at" "vc_issued_at c = issued_at" "vc_claims c = claims" "s' = s2"
    using assms unfolding verify_def verified_claims_of_def by (auto simp: bindV_eq_Inr bindA_eq_Inr split: prod.splits)
  show "length token \<le> 8192 \<and> isascii token
    \<and> (\<exists>header. jl_unverified_header lib token = Some header \<and> map_of header (py ''alg'') = Some (PyStr (py ''RS256''))
        \<and> has_expected_type header expected_type expected_media_types)"
    using header by (auto simp: judged_header_def MAX_TOKEN_CHARACTERS_def RS256_def split: if_splits option.splits)
  have "jl_decode lib token key (jv_audiences v) (jv_issuer v) = Inr claims"
    using payload by (auto simp: verified_payload_def split: sum.splits jwt_error.splits)
  with key times c show "\<exists>key_id key s1. jwt_signing_key lib v key_id s = (Inr (Inr key), s1)
      \<and> jl_decode lib token key (jv_audiences v) (jv_issuer v) = Inr (vc_claims c)
      \<and> checked_time_claims v (vc_claims c) s1 = (Inr (Inr (vc_expires_at c, vc_issued_at c)), s')" by blast
  show "map_of (vc_claims c) (py ''sub'') = map_option PyStr (vc_subject c) \<and> vc_subject c \<noteq> Some []"
    using subject c by (cases "vc_subject c") (auto simp: subject_of_def split: option.splits pyobj.splits if_splits)
  show "vc_issuer c = jv_issuer v" by (rule c(1))
qed

lemma signing_key_world:
  assumes "v = world_verifier issuer audiences url leeway"
  shows "at_most_once (\<lambda>w. snd (refresh_key_set lib v w)) (jwt_signing_key lib v k)"
proof -
  have refresh: "at_most_once (\<lambda>w. snd (refresh_key_set lib v w)) (refresh_key_set lib v)"
    by (simp add: at_most_once_def)
  have choose: "at_most_once (\<lambda>w. snd (refresh_key_set lib v w))
      (if b then bindA (refresh_key_set lib v) (\<lambda>_. readA g) else ret cached)" for b g cached
    by (auto intro: at_most_once_after refresh at_most_once_pure pure_basic)
  have pure: "pure_act (is_current v ks)" "pure_act (key_of v kset k)" for ks kset
    unfolding assms by (rule world_clocks)+
  show ?thesis
    unfolding jwt_signing_key_def
    by (intro at_most_once_before[OF pure_basic(4)] at_most_once_before[OF pure(1)] at_most_once_after[OF choose] pure pure_intros)
qed

lemma verify_world:
  assumes v: "v = world_verifier issuer audiences url leeway"
  shows "at_most_once (\<lambda>w. snd (refresh_key_set lib v w)) (verify lib v token et mt)"
  unfolding verify_def verified_claims_of_def
  by (intro at_most_once_before at_most_once_beforeV at_most_once_afterV signing_key_world[OF v] pure_intros)
    (simp_all add: v world_clocks)

lemma verify_run_world:
  assumes "v = world_verifier issuer audiences url leeway" and "world_ok lib w"
    and "\<forall>q\<in>set qs. vw_monotonic w \<le> vr_monotonic q" and "sorted (map vr_monotonic qs)"
  shows "world_ok lib (verify_run lib v qs w)
    \<and> set (vw_fetches (verify_run lib v qs w)) \<subseteq> set (vw_fetches w) \<union> (\<lambda>q. (vr_monotonic q, vr_document q)) ` set qs"
  using assms(2-)
proof (induction qs arbitrary: w)
  case (Cons q qs)
  let ?w = "at_time q w"
  let ?after = "snd (verify lib v (vr_token q) (vr_expected_type q) (vr_expected_media_types q) ?w)"
  have ok: "world_ok lib ?w"
    using Cons.prems by (auto simp: world_ok_def at_time_def intro: order_trans)
  have at: "vw_monotonic ?w = vr_monotonic q" "vw_document ?w = vr_document q" "vw_fetches ?w = vw_fetches w"
    by (simp_all add: at_time_def)
  have after: "world_ok lib ?after \<and> vw_monotonic ?after = vr_monotonic q
      \<and> set (vw_fetches ?after) \<subseteq> insert (vr_monotonic q, vr_document q) (set (vw_fetches w))"
    using verify_world[OF assms(1), unfolded at_most_once_def, rule_format, of lib "vr_token q" "vr_expected_type q"
        "vr_expected_media_types q" ?w] refresh_key_set_world[OF ok assms(1)] ok
    by (auto simp: at)
  with Cons have "world_ok lib (verify_run lib v qs ?after)
      \<and> set (vw_fetches (verify_run lib v qs ?after)) \<subseteq> set (vw_fetches ?after) \<union> (\<lambda>q. (vr_monotonic q, vr_document q)) ` set qs"
    by simp
  with after show ?case by auto
qed simp

section \<open>Properties\<close>

text \<open>C29. What a verified token is: within 8192 ASCII characters, its header declaring RS256 and the type
  asked for; its signature, audience and issuer held, to the JWT library, under a key of the key set the
  verifier holds when it answers, which is younger than one hour by the monotonic clock; \<open>exp\<close> and \<open>iat\<close>
  are integers, and by the wall clock the token had not expired, was not issued in the future and was
  valid already, each within the leeway. \<open>sub\<close> is a non-empty text or absent, and the claims are
  handed on as the library read them.\<close>

theorem verified_token_holds:
  fixes lib :: "'k jwt_library"
  assumes "verify lib (world_verifier issuer audiences url leeway) token expected_type expected_media_types w = (Inr (Inr c), w')"
  shows "length token \<le> 8192 \<and> isascii token
    \<and> (\<exists>header. jl_unverified_header lib token = Some header \<and> map_of header (py ''alg'') = Some (PyStr (py ''RS256''))
        \<and> has_expected_type header expected_type expected_media_types)
    \<and> (\<exists>key ks. vs_key_set (vw_verifier w') = Some ks \<and> key \<in> ran (ks_named ks) \<union> set_option (ks_sole ks)
        \<and> vw_monotonic w - ks_fetched_at ks < 3600
        \<and> jl_decode lib token key audiences issuer = Inr (vc_claims c))
    \<and> vc_issuer c = issuer
    \<and> map_of (vc_claims c) (py ''exp'') = Some (PyInt (vc_expires_at c))
    \<and> map_of (vc_claims c) (py ''iat'') = Some (PyInt (vc_issued_at c))
    \<and> vw_wall w < of_int (vc_expires_at c + leeway) \<and> of_int (vc_issued_at c) \<le> vw_wall w + of_int leeway
    \<and> (map_of (vc_claims c) (py ''nbf'') = None
        \<or> (\<exists>n. map_of (vc_claims c) (py ''nbf'') = Some (PyInt n) \<and> of_int n \<le> vw_wall w + of_int leeway))
    \<and> map_of (vc_claims c) (py ''sub'') = map_option PyStr (vc_subject c) \<and> vc_subject c \<noteq> Some []"
proof -
  let ?v = "world_verifier issuer audiences url leeway :: ('k verifier_world, 'k) jwt_verifier"
  note held = verified_claims_held[OF assms]
  obtain key_id key w1 where key: "jwt_signing_key lib ?v key_id w = (Inr (Inr key), w1)"
    and payload: "jl_decode lib token key (jv_audiences ?v) (jv_issuer ?v) = Inr (vc_claims c)"
    and times: "checked_time_claims ?v (vc_claims c) w1 = (Inr (Inr (vc_expires_at c, vc_issued_at c)), w')"
    using held(2) by blast
  have same: "w' = w1" using pure_actD[OF world_clocks(3), of issuer audiences url leeway "vc_claims c" w1] times by simp
  have clocks: "vw_wall w' = vw_wall w" "vw_monotonic w' = vw_monotonic w"
    using keepsD[OF signing_key_keeps_clocks key] same by simp_all
  have parts: "jv_audiences ?v = audiences" "jv_issuer ?v = issuer" "jv_leeway_seconds ?v = leeway" "jv_wall_clock ?v = readA vw_wall"
    by (simp_all add: world_verifier_def)
  have key_ok: "\<exists>key ks. vs_key_set (vw_verifier w') = Some ks \<and> key \<in> ran (ks_named ks) \<union> set_option (ks_sole ks)
        \<and> vw_monotonic w - ks_fetched_at ks < 3600 \<and> jl_decode lib token key audiences issuer = Inr (vc_claims c)"
    using signing_key_held[OF key refl] payload clocks same parts by (auto simp: KEY_SET_TTL_SECONDS_def)
  note time = checked_time_claims_held[OF times]
  have clock: "vw_wall w < of_int (vc_expires_at c + leeway)" "of_int (vc_issued_at c) \<le> vw_wall w + of_int leeway"
    "map_of (vc_claims c) (py ''nbf'') = None
        \<or> (\<exists>n. map_of (vc_claims c) (py ''nbf'') = Some (PyInt n) \<and> of_int n \<le> vw_wall w + of_int leeway)"
    using time(3) clocks(1) unfolding parts by (auto simp: readA_def)
  show ?thesis
    using held(1,3,4) key_ok clock time(1,2) parts by (simp only: simp_thms)
qed

definition sample_library :: "unit jwt_library" where
  "sample_library = \<lparr>jl_unverified_header = (\<lambda>_. Some [(py ''alg'', PyStr (py ''RS256''))]),
     jl_decode = (\<lambda>_ _ _ _. Inr [(py ''exp'', PyInt 200), (py ''iat'', PyInt 100), (py ''aud'', PyStr (py ''app'')), (py ''sub'', PyStr (py ''u1''))]),
     jl_public_key = (\<lambda>_ _. Some ()), jl_key_size = (\<lambda>_. 2048),
     jl_json = (\<lambda>_. Some (PyDict [(py ''keys'', PyList [PyDict [(py ''kty'', PyStr (py ''RSA'')),
       (py ''n'', PyStr (py ''AQ'')), (py ''e'', PyStr (py ''AQ''))]])]))\<rparr>"

definition sample_verifier :: "(unit verifier_world, unit) jwt_verifier" where
  "sample_verifier = world_verifier (py ''https://id.example'') [py ''app''] (py ''https://id.example/keys'') 5"

definition sample_world :: "unit verifier_world" where
  "sample_world = new_world\<lparr>vw_monotonic := 10, vw_wall := 150,
     vw_verifier := new_verifier_state\<lparr>vs_key_set := Some \<lparr>ks_named = (\<lambda>_. None), ks_sole = Some (), ks_fetched_at = 0\<rparr>\<rparr>\<rparr>"

text \<open>Any library's token verifies in that world when its header names no key and its times fit.\<close>

lemma sample_world_verifies:
  assumes "judged_header lib token et mt = Inr None" and "require_comparable_types et mt = Inr ()"
    and "jl_decode lib token () [py ''app''] (py ''https://id.example'') = Inr claims"
    and "map_of claims (py ''exp'') = Some (PyInt 200)" and "map_of claims (py ''iat'') = Some (PyInt i)" and "i \<le> 155"
    and "map_of claims (py ''nbf'') = None" and "subject_of claims = Inr subject" and "audiences_of claims = Inr audiences"
  shows "verify lib sample_verifier token et mt sample_world
    = (Inr (Inr \<lparr>vc_subject = subject, vc_issuer = py ''https://id.example'', vc_audiences = audiences,
        vc_expires_at = 200, vc_issued_at = i, vc_claims = claims\<rparr>), sample_world)"
proof -
  have key: "jwt_signing_key lib sample_verifier None sample_world = (Inr (Inr ()), sample_world)"
    by (simp add: jwt_signing_key_def is_current_def key_of_def readA_def bindA_def sample_verifier_def world_verifier_def sample_world_def
        KEY_SET_TTL_SECONDS_def)
  have payload: "verified_payload lib sample_verifier token () = Inr claims"
    using assms(3) by (simp add: verified_payload_def sample_verifier_def world_verifier_def)
  have times: "checked_time_claims sample_verifier claims sample_world = (Inr (Inr (200, i)), sample_world)"
    using assms(4-7) by (simp add: checked_time_claims_def integer_claim_def sample_verifier_def world_verifier_def readA_def bindA_def
        bindV_def ret_def sample_world_def)
  have "jv_issuer sample_verifier = py ''https://id.example''" by (simp add: sample_verifier_def world_verifier_def)
  then show ?thesis
    by (simp add: verify_def verified_claims_of_def assms(1,2)) (simp add: bindV_def bindA_def key payload times assms(8,9) ret_def liftR_def)
qed

lemma sample_verified:
  "verify sample_library sample_verifier (py ''a.b.c'') None None sample_world
    = (Inr (Inr \<lparr>vc_subject = Some (py ''u1''), vc_issuer = py ''https://id.example'', vc_audiences = [PyStr (py ''app'')],
        vc_expires_at = 200, vc_issued_at = 100,
        vc_claims = [(py ''exp'', PyInt 200), (py ''iat'', PyInt 100), (py ''aud'', PyStr (py ''app'')), (py ''sub'', PyStr (py ''u1''))]\<rparr>),
       sample_world)"
  by (rule sample_world_verifies)
    (simp_all add: judged_header_def sample_library_def has_expected_type_def header_key_id_def RS256_def MAX_TOKEN_CHARACTERS_def
      MAX_HEADER_SEGMENT_CHARACTERS_def require_comparable_types_def subject_of_def audiences_of_def text_eval)

lemma verified_token_holds_witness:
  "\<exists>ks. vs_key_set (vw_verifier sample_world) = Some ks \<and> vw_monotonic sample_world - ks_fetched_at ks < 3600"
  using verified_token_holds[OF sample_verified[unfolded sample_verifier_def]] by blast

text \<open>What an accepted key set is: a document of at most 64 KiB whose \<open>keys\<close> are all objects without a
  secret member, one to ten of them RS256 verification keys; every key a token can be checked
  with comes from one of those, has at least 2048 bits, and is found under the very key id its entry
  declares, of 1 to 128 characters; a token without a key id has a key only when there is exactly one.\<close>

theorem accepted_key_set_is_sound:
  assumes "parse_key_set lib document = Inr (named, sole)"
  shows "length document \<le> 65536 \<and> (\<exists>parsed jwks. json_object lib document = Some parsed
    \<and> map_of parsed (py ''keys'') = Some (PyList jwks) \<and> list_all object_without_secret jwks
    \<and> 1 \<le> length (filter is_verification_entry jwks) \<and> length (filter is_verification_entry jwks) \<le> 10
    \<and> (\<forall>i key. named i = Some key \<longrightarrow> entry_key lib jwks (Some i) key \<and> 2048 \<le> jl_key_size lib key \<and> i \<noteq> [] \<and> length i \<le> 128)
    \<and> (\<forall>key. sole = Some key \<longrightarrow> length (filter is_verification_entry jwks) = 1 \<and> 2048 \<le> jl_key_size lib key
        \<and> (\<exists>k. entry_key lib jwks k key)))"
proof -
  obtain parsed jwks where doc: "length document \<le> 65536" "json_object lib document = Some parsed"
    "map_of parsed (py ''keys'') = Some (PyList jwks)"
    and keys: "rs256_verification_keys lib jwks (\<lambda>_. None) 0 None = Inr (named, sole)"
    using assms by (auto simp: parse_key_set_def MAX_KEY_SET_BYTES_def split: if_splits option.splits pyobj.splits)
  note sound = rs256_verification_keys_sound[OF keys]
  have "entry_key lib jwks (Some i) key \<and> 2048 \<le> jl_key_size lib key \<and> i \<noteq> [] \<and> length i \<le> 128" if "named i = Some key" for i key
    using sound that entry_key_sound(1)[of lib jwks "Some i" key] entry_key_sound(2)[of lib jwks "Some i" key i] by (simp add: MIN_RSA_KEY_BITS_def MAX_KEY_ID_CHARACTERS_def)
  moreover have "length (filter is_verification_entry jwks) = 1 \<and> 2048 \<le> jl_key_size lib key \<and> (\<exists>k. entry_key lib jwks k key)"
    if "sole = Some key" for key
  proof -
    obtain k where "entry_key lib jwks k key" using sound \<open>sole = Some key\<close> by auto
    with entry_key_sound(1)[OF this] sound that show ?thesis by (auto simp: MIN_RSA_KEY_BITS_def)
  qed
  ultimately show ?thesis using doc sound by (auto simp: MAX_KEY_SET_KEYS_def Suc_le_eq)
qed

lemma accepted_key_set_is_sound_witness:
  "\<exists>named. parse_key_set sample_library [] = Inr (named, Some ()) \<and> 2048 \<le> jl_key_size sample_library ()"
proof -
  have "base64url_decode (py ''AQ'') = Inr [1]"
    by (simp add: base64url_decode_def is_b64_char_def b64_value_def b64_digit_def text_eval)
  then have "\<exists>named. parse_key_set sample_library [] = Inr (named, Some ())"
    by (simp add: parse_key_set_def json_object_def sample_library_def is_rs256_verification_key_def public_signing_key_def
        declared_key_id_def base64url_unsigned_def MIN_RSA_KEY_BITS_def MAX_KEY_SET_KEYS_def secret_key_members_def RS256_def text_eval)
  then obtain named where p: "parse_key_set sample_library [] = Inr (named, Some ())" by blast
  with accepted_key_set_is_sound[OF this] show ?thesis by auto
qed

text \<open>C30. The key-set cache as a state machine. However many tokens arrive, forged or not, and whatever the
  issuer answers, on a clock that does not go back: every fetch happened at some request's instant and got
  the issuer's answer of that instant; any two fetches are at least 30 seconds apart; the refresh lock is
  free between requests; and the set held is exactly the parse of the newest document that was accepted,
  dated by the very fetch that brought it. So a failed or refused refresh neither replaces a set nor
  makes it any younger.\<close>

theorem key_set_fetches_are_spaced:
  fixes lib :: "'k jwt_library" and issuer url audiences leeway and requests :: "verify_request list"
  assumes "sorted (map vr_monotonic requests)" and "\<forall>q\<in>set requests. 0 \<le> vr_monotonic q"
  defines "after \<equiv> verify_run lib (world_verifier issuer audiences url leeway) requests new_world"
  shows "set (vw_fetches after) \<subseteq> (\<lambda>q. (vr_monotonic q, vr_document q)) ` set requests
    \<and> sorted_wrt (\<lambda>newer older. fst older + 30 \<le> fst newer) (vw_fetches after)
    \<and> \<not> vs_refreshing (vw_verifier after)
    \<and> vs_key_set (vw_verifier after) = latest_accepted lib (vw_fetches after)"
proof -
  have start: "world_ok lib new_world" "\<forall>q\<in>set requests. vw_monotonic (new_world :: 'k verifier_world) \<le> vr_monotonic q"
    using assms(2) by (simp_all add: world_ok_def new_world_def new_verifier_state_def)
  have "world_ok lib after \<and> set (vw_fetches after) \<subseteq> set (vw_fetches (new_world :: 'k verifier_world)) \<union> (\<lambda>q. (vr_monotonic q, vr_document q)) ` set requests"
    unfolding after_def by (rule verify_run_world[OF refl start(1,2) assms(1)])
  then show ?thesis by (simp add: world_ok_def new_world_def)
qed

definition sample_verify_request :: "rat \<Rightarrow> verify_request" where
  "sample_verify_request t = \<lparr>vr_monotonic = t, vr_wall = 150, vr_document = Inr [], vr_token = py ''a.b.c'',
     vr_expected_type = None, vr_expected_media_types = None\<rparr>"

lemma key_set_fetches_are_spaced_witness:
  "\<exists>fetches. vw_fetches (verify_run sample_library sample_verifier [sample_verify_request 1, sample_verify_request 2] new_world) = fetches
    \<and> vs_key_set (vw_verifier (verify_run sample_library sample_verifier [sample_verify_request 1, sample_verify_request 2] new_world))
      = latest_accepted sample_library fetches"
  using key_set_fetches_are_spaced[of "[sample_verify_request 1, sample_verify_request 2]" sample_library]
  by (simp add: sample_verifier_def sample_verify_request_def)

end
