(* ===== verification/ClientConfig.thy ===== *)
theory ClientConfig
  imports HttpsClient
begin

text \<open>
  \<open>webauth/oidc/_client_config.py\<close>: the registration of one client at one issuer, and the checks that
  accept it. The keyword arguments are a \<open>client_arguments\<close>, each a \<open>pyobj\<close> that may be of any type;
  \<open>ca_client_secret\<close> is the text inside a \<open>SecretStr\<close>, \<open>None\<close> for anything else. The accepted
  values are an \<open>oidc_client_config\<close>. A network location beyond Latin-1, which Python normalises
  first, is outside the model.
\<close>

definition is_plain_port :: "pystr \<Rightarrow> bool" where
  "is_plain_port after \<longleftrightarrow> after = [] \<or> (startswith after [58] \<and> tl after \<noteq> [] \<and> list_all is_digit (tl after))"

definition is_plain_host_char :: "nat \<Rightarrow> bool" where
  "is_plain_host_char c \<longleftrightarrow> is_alnum_ascii c \<or> c = 46 \<or> c = 45"

definition is_bracketed_char :: "nat \<Rightarrow> bool" where
  "is_bracketed_char c \<longleftrightarrow> is_hex c \<or> c = 58 \<or> c = 46"

definition plain_authority :: "pystr \<Rightarrow> bool" where
  "plain_authority s =
     (if startswith s [91]
      then (case partition_on 93 (tl s) of
          (inner, found, after) \<Rightarrow> found \<and> inner \<noteq> [] \<and> list_all is_bracketed_char inner \<and> is_plain_port after)
      else (let host = takeWhile is_plain_host_char s; after = dropWhile is_plain_host_char s
            in host \<noteq> [] \<and> is_plain_port after))"

definition is_endpoint_text :: "pystr \<Rightarrow> bool" where
  "is_endpoint_text url \<longleftrightarrow> is_https_text url \<and> 63 \<notin> set url \<and> 35 \<notin> set url"

fun is_endpoint_url :: "pyobj \<Rightarrow> bool" where
  "is_endpoint_url (PyStr url) = is_endpoint_text url"
| "is_endpoint_url _ = False"

definition loopback_hosts :: "pystr set" where
  "loopback_hosts = {py ''localhost'', py ''127.0.0.1'', py ''::1''}"

definition is_app_text :: "pystr \<Rightarrow> bool" where
  "is_app_text url =
     (if is_endpoint_text url then True
      else if lower_py (take 5 url) \<noteq> py ''http:'' then False
      else case urlsplit url of
        Inl _ \<Rightarrow> False
      | Inr parts \<Rightarrow> (case hostname parts of
          None \<Rightarrow> False
        | Some host \<Rightarrow> host \<in> loopback_hosts \<and> is_endpoint_text (py ''https:'' @ drop 5 url)))"

fun is_app_url :: "pyobj \<Rightarrow> bool" where
  "is_app_url (PyStr url) = is_app_text url"
| "is_app_url _ = False"

definition is_scope_list_with_openid :: "pyobj \<Rightarrow> bool" where
  "is_scope_list_with_openid scopes \<longleftrightarrow> is_scope_token_tuple scopes
     \<and> (case scopes of PyTuple ts \<Rightarrow> PyStr (py ''openid'') \<in> set ts | _ \<Rightarrow> False)"

record client_arguments =
  ca_issuer :: pyobj
  ca_authorization_endpoint :: pyobj
  ca_token_endpoint :: pyobj
  ca_jwks_url :: pyobj
  ca_end_session_endpoint :: pyobj
  ca_client_id :: pyobj
  ca_client_secret :: "pystr option"
  ca_redirect_uri :: pyobj
  ca_post_logout_redirect_uri :: pyobj
  ca_scopes :: pyobj
  ca_leeway_seconds :: pyobj

record oidc_client_config =
  cc_issuer :: pystr
  cc_authorization_endpoint :: pystr
  cc_token_endpoint :: pystr
  cc_jwks_url :: pystr
  cc_end_session_endpoint :: pystr
  cc_client_id :: pystr
  cc_client_secret :: pystr
  cc_redirect_uri :: pystr
  cc_post_logout_redirect_uri :: pystr
  cc_scopes :: "pystr list"
  cc_leeway_seconds :: pyobj

fun text_of :: "pyobj \<Rightarrow> pystr" where
  "text_of (PyStr s) = s"
| "text_of _ = []"

fun texts_of :: "pyobj \<Rightarrow> pystr list" where
  "texts_of (PyTuple ts) = map text_of ts"
| "texts_of _ = []"

definition names_plain_host :: "pystr \<Rightarrow> bool" where
  "names_plain_host url = (case urlsplit url of Inl _ \<Rightarrow> False | Inr parts \<Rightarrow> plain_authority (up_netloc parts))"

definition check_urls :: "client_arguments \<Rightarrow> exn + unit" where
  "check_urls a =
     (if \<not> list_all is_endpoint_url [ca_issuer a, ca_authorization_endpoint a, ca_token_endpoint a, ca_jwks_url a,
          ca_end_session_endpoint a] then Inl ValueError
      else if \<not> list_all is_app_url [ca_redirect_uri a, ca_post_logout_redirect_uri a] then Inl ValueError
      else if \<not> list_all names_plain_host [text_of (ca_end_session_endpoint a), text_of (ca_post_logout_redirect_uri a)]
        then Inl ValueError
      else Inr ())"

definition OidcClientConfig :: "client_arguments \<Rightarrow> exn + oidc_client_config" where
  "OidcClientConfig a =
     bindR (check_urls a) (\<lambda>_.
     bindR (require_non_empty_string (ca_client_id a)) (\<lambda>client_id.
     bindR (check (case ca_client_secret a of None \<Rightarrow> False | Some s \<Rightarrow> s \<noteq> []) ValueError) (\<lambda>_.
     bindR (check (is_scope_list_with_openid (ca_scopes a)) ValueError) (\<lambda>_.
       Inr \<lparr>cc_issuer = text_of (ca_issuer a),
         cc_authorization_endpoint = text_of (ca_authorization_endpoint a),
         cc_token_endpoint = text_of (ca_token_endpoint a), cc_jwks_url = text_of (ca_jwks_url a),
         cc_end_session_endpoint = text_of (ca_end_session_endpoint a), cc_client_id = client_id,
         cc_client_secret = the (ca_client_secret a), cc_redirect_uri = text_of (ca_redirect_uri a),
         cc_post_logout_redirect_uri = text_of (ca_post_logout_redirect_uri a),
         cc_scopes = texts_of (ca_scopes a), cc_leeway_seconds = ca_leeway_seconds a\<rparr>))))"

section \<open>What an accepted address is\<close>

lemma is_endpoint_url_iff: "is_endpoint_url u \<longleftrightarrow> (\<exists>t. u = PyStr t \<and> is_endpoint_text t)"
  by (cases u) auto

lemma is_app_url_iff: "is_app_url u \<longleftrightarrow> (\<exists>t. u = PyStr t \<and> is_app_text t)"
  by (cases u) auto

lemma is_scope_token_tuple_iff: "is_scope_token_tuple v \<longleftrightarrow> (\<exists>ts. v = PyTuple (map PyStr ts) \<and> list_all is_scope_token ts)"
proof
  have obj: "is_scope_token_obj x \<longleftrightarrow> (\<exists>t. x = PyStr t \<and> is_scope_token t)" for x by (cases x) auto
  show "\<exists>ts. v = PyTuple (map PyStr ts) \<and> list_all is_scope_token ts" if "is_scope_token_tuple v"
  proof (cases v)
    case (PyTuple xs)
    with that have "list_all is_scope_token_obj xs" by simp
    then have "\<exists>ts. xs = map PyStr ts \<and> list_all is_scope_token ts"
    proof (induction xs)
      case (Cons x xs)
      then obtain ts t where "xs = map PyStr ts" "list_all is_scope_token ts" "x = PyStr t" "is_scope_token t"
        using obj[of x] by auto
      then have "x # xs = map PyStr (t # ts) \<and> list_all is_scope_token (t # ts)" by simp
      then show ?case by (rule exI[of _ "t # ts"])
    qed simp
    with PyTuple show ?thesis by blast
  qed (use that in simp_all)
  show "is_scope_token_tuple v" if "\<exists>ts. v = PyTuple (map PyStr ts) \<and> list_all is_scope_token ts"
    using that by (auto simp: list_all_iff)
qed

end
