(* ===== verification/EndSessionPage.thy ===== *)
theory EndSessionPage
  imports SecurityHeaders Urls
begin

text \<open>
  \<open>webauth/_end_session_page.py\<close>: the page that posts the browser to the issuer's end-session
  endpoint. A page is the text of its body; \<open>html.escape\<close> is written out. What encoding the body
  as UTF-8 and a header as Latin-1 refuse is an exception.
\<close>

record end_session_form =
  es_end_session_endpoint :: pystr
  es_client_id :: pystr
  es_post_logout_redirect_uri :: pystr
  es_id_token_hint :: "pystr option"

definition hidden_fields :: "end_session_form \<Rightarrow> (pystr \<times> pystr) list" where
  "hidden_fields form =
     [(py ''client_id'', es_client_id form), (py ''post_logout_redirect_uri'', es_post_logout_redirect_uri form)]
     @ (case es_id_token_hint form of None \<Rightarrow> [] | Some hint \<Rightarrow> [(py ''id_token_hint'', hint)])"

definition html_escape_char :: "nat \<Rightarrow> pystr" where
  "html_escape_char c =
     (if c = 38 then py ''&amp;'' else if c = 60 then py ''&lt;'' else if c = 62 then py ''&gt;''
      else if c = 34 then py ''&quot;'' else if c = 39 then [38, 35, 120, 50, 55, 59] else [c])"

definition html_escape :: "pystr \<Rightarrow> pystr" where
  "html_escape s = concat (map html_escape_char s)"

definition SUBMIT_SCRIPT :: pystr where "SUBMIT_SCRIPT = py ''document.forms[0].submit()''"

text \<open>\<open>base64.b64encode\<close>, with its own two last digits and its padding.\<close>

definition b64_standard :: "nat list \<Rightarrow> pystr" where
  "b64_standard bs = map (\<lambda>c. if c = 45 then 43 else if c = 95 then 47 else c) (b64_encode bs)
     @ replicate ((3 - length bs mod 3) mod 3) 61"

definition SCRIPT_HASH :: pystr where "SCRIPT_HASH = b64_standard (sha256_digest SUBMIT_SCRIPT)"

definition hidden_input :: "pystr \<times> pystr \<Rightarrow> pystr" where
  "hidden_input nv = py ''<input type=\"hidden\" name=\"'' @ html_escape (fst nv) @ py ''\" value=\"'' @ html_escape (snd nv) @ py ''\">''"

definition markup :: "end_session_form \<Rightarrow> pystr \<Rightarrow> pystr \<Rightarrow> pystr" where
  "markup form language button_label =
     (let label = html_escape button_label;
          inputs = concat (map hidden_input (hidden_fields form)) in
      py ''<!doctype html><html lang=\"'' @ html_escape language @ py ''\"><head><meta charset=\"utf-8\">''
      @ py ''<meta name=\"viewport\" content=\"width=device-width, initial-scale=1\">''
      @ py ''<title>'' @ label @ py ''</title></head><body>''
      @ py ''<form method=\"post\" action=\"'' @ html_escape (es_end_session_endpoint form) @ py ''\">''
      @ inputs @ py ''<button type=\"submit\">'' @ label @ py ''</button></form>''
      @ py ''<script>'' @ SUBMIT_SCRIPT @ py ''</script></body></html>'')"

definition url_origin :: "pystr \<Rightarrow> exn + pystr" where
  "url_origin url = bindR (urlsplit url) (\<lambda>parts. Inr (up_scheme parts @ py ''://'' @ up_netloc parts))"

definition quoted :: "pystr \<Rightarrow> pystr" where
  "quoted s = 39 # s @ [39]"

text \<open>\<open>dict.fromkeys\<close> of the two origins keeps the first of two equal ones.\<close>

definition end_session_policy :: "end_session_form \<Rightarrow> exn + pystr" where
  "end_session_policy form =
     bindR (url_origin (es_end_session_endpoint form)) (\<lambda>a. bindR (url_origin (es_post_logout_redirect_uri form)) (\<lambda>b.
       let form_targets = (if a = b then [a] else [a, b]) in
       Inr (join_with (py ''; '')
         [py ''default-src '' @ quoted (py ''none''),
          py ''script-src '' @ quoted (py ''sha256-'' @ SCRIPT_HASH),
          py ''form-action '' @ join_with [32] form_targets,
          py ''base-uri '' @ quoted (py ''none''),
          py ''frame-ancestors '' @ quoted (py ''none'')])))"

definition end_session_page :: "end_session_form \<Rightarrow> pystr \<Rightarrow> pystr \<Rightarrow> exn + response" where
  "end_session_page form language button_label =
     bindR (end_session_policy form) (\<lambda>policy.
     bindR (utf8_encode (markup form language button_label)) (\<lambda>_.
     bindR (check (list_all (\<lambda>c. c < 256) policy) ValueError) (\<lambda>_.
       Inr \<lparr>rs_status = 200, rs_body = HtmlPage (markup form language button_label),
         rs_headers = [(py ''cache-control'', py ''no-store''), (py ''content-security-policy'', policy),
           (OWN_POLICY_HEADER, py ''1'')], rs_cookies = []\<rparr>)))"

section \<open>What the browser reads\<close>

text \<open>How a browser reads an attribute value back: the five references of \<open>html.escape\<close>.\<close>

fun html_unescape :: "pystr \<Rightarrow> pystr" where
  "html_unescape [] = []"
| "html_unescape (c # cs) =
     (if startswith (c # cs) (py ''&amp;'') then 38 # html_unescape (drop 4 cs)
      else if startswith (c # cs) (py ''&lt;'') then 60 # html_unescape (drop 3 cs)
      else if startswith (c # cs) (py ''&gt;'') then 62 # html_unescape (drop 3 cs)
      else if startswith (c # cs) (py ''&quot;'') then 34 # html_unescape (drop 5 cs)
      else if startswith (c # cs) [38, 35, 120, 50, 55, 59] then 39 # html_unescape (drop 5 cs)
      else c # html_unescape cs)"

declare html_unescape.simps(2) [simp del]

lemma html_unescape_char: "html_unescape (html_escape_char c @ rest) = c # html_unescape rest"
proof -
  consider "c = 38" | "c = 60" | "c = 62" | "c = 34" | "c = 39" | "c \<notin> {38, 60, 62, 34, 39}" by blast
  then show ?thesis
  proof cases
    case 6
    then show ?thesis by (simp add: html_escape_char_def html_unescape.simps(2) py_eval)
  qed (simp_all add: html_escape_char_def html_unescape.simps(2) py_eval)
qed

lemma html_unescape_escape: "html_unescape (html_escape s) = s"
  by (induction s) (simp_all add: html_escape_def html_unescape_char)

lemma html_escape_plain: "set (html_escape s) \<inter> {34, 39, 60, 62} = {}"
proof -
  have "set (html_escape_char c) \<inter> {34, 39, 60, 62} = {}" for c by (simp add: html_escape_char_def py_eval)
  then show ?thesis by (induction s) (simp_all add: html_escape_def Int_Un_distrib2)
qed

text \<open>C40. The page posts exactly its form and nothing else can be written into it: every value between two
  quotes and every text between two tags of the page is free of quotes and angle brackets and reads
  back as the text it stands for, so the markup has the quotes and brackets of its own template only; its policy
  admits the one script by hash and posts to the origins of the two configured addresses alone.\<close>

theorem end_session_page_posts_only_its_form:
  assumes "end_session_page form language label = Inr page"
  shows "\<exists>lang text action inputs a b. rs_body page = HtmlPage
      (py ''<!doctype html><html lang=\"'' @ lang @ py ''\"><head><meta charset=\"utf-8\"><meta name=\"viewport\" content=\"width=device-width, initial-scale=1\"><title>''
       @ text @ py ''</title></head><body><form method=\"post\" action=\"'' @ action @ py ''\">''
       @ concat (map (\<lambda>(n, v). py ''<input type=\"hidden\" name=\"'' @ n @ py ''\" value=\"'' @ v @ py ''\">'') inputs)
       @ py ''<button type=\"submit\">'' @ text @ py ''</button></form><script>document.forms[0].submit()</script></body></html>'')
    \<and> html_unescape lang = language \<and> html_unescape text = label \<and> html_unescape action = es_end_session_endpoint form
    \<and> map (\<lambda>(n, v). (html_unescape n, html_unescape v)) inputs = hidden_fields form
    \<and> (\<forall>t\<in>set ([lang, text, action] @ map fst inputs @ map snd inputs). set t \<inter> {34, 39, 60, 62} = {})
    \<and> url_origin (es_end_session_endpoint form) = Inr a \<and> url_origin (es_post_logout_redirect_uri form) = Inr b
    \<and> header_values (py ''content-security-policy'') (rs_headers page)
        = [py ''default-src '' @ quoted (py ''none'') @ py ''; script-src '' @ quoted (py ''sha256-'' @ SCRIPT_HASH)
           @ py ''; form-action '' @ (if a = b then a else a @ 32 # b)
           @ py ''; base-uri '' @ quoted (py ''none'') @ py ''; frame-ancestors '' @ quoted (py ''none'')]"
proof -
  obtain policy where policy: "end_session_policy form = Inr policy"
    and page: "page = \<lparr>rs_status = 200, rs_body = HtmlPage (markup form language label),
         rs_headers = [(py ''cache-control'', py ''no-store''), (py ''content-security-policy'', policy),
           (OWN_POLICY_HEADER, py ''1'')], rs_cookies = []\<rparr>"
    using assms by (auto simp: end_session_page_def)
  obtain a b where origins: "url_origin (es_end_session_endpoint form) = Inr a" "url_origin (es_post_logout_redirect_uri form) = Inr b"
    using policy by (auto simp: end_session_policy_def)
  define inputs where "inputs = map (\<lambda>(n, v). (html_escape n, html_escape v)) (hidden_fields form)"
  have "map hidden_input (hidden_fields form)
      = map (\<lambda>(n, v). py ''<input type=\"hidden\" name=\"'' @ n @ py ''\" value=\"'' @ v @ py ''\">'') inputs"
    by (simp add: inputs_def hidden_input_def case_prod_unfold)
  then have body: "rs_body page = HtmlPage
      (py ''<!doctype html><html lang=\"'' @ html_escape language @ py ''\"><head><meta charset=\"utf-8\"><meta name=\"viewport\" content=\"width=device-width, initial-scale=1\"><title>''
       @ html_escape label @ py ''</title></head><body><form method=\"post\" action=\"'' @ html_escape (es_end_session_endpoint form) @ py ''\">''
       @ concat (map (\<lambda>(n, v). py ''<input type=\"hidden\" name=\"'' @ n @ py ''\" value=\"'' @ v @ py ''\">'') inputs)
       @ py ''<button type=\"submit\">'' @ html_escape label @ py ''</button></form><script>document.forms[0].submit()</script></body></html>'')"
    unfolding page markup_def Let_def SUBMIT_SCRIPT_def by (simp add: py_eval)
  have unescaped: "map (\<lambda>(n, v). (html_unescape n, html_unescape v)) inputs = hidden_fields form"
    by (simp add: inputs_def html_unescape_escape case_prod_unfold comp_def)
  have clean: "\<forall>t\<in>set ([html_escape language, html_escape label, html_escape (es_end_session_endpoint form)] @ map fst inputs @ map snd inputs).
      set t \<inter> {34, 39, 60, 62} = {}"
    using html_escape_plain by (auto simp: inputs_def simp del: Int_insert_right Int_insert_left)
  have csp: "header_values (py ''content-security-policy'') (rs_headers page) = [policy]"
    by (simp add: page header_values_def OWN_POLICY_HEADER_def)
  have "policy = py ''default-src '' @ quoted (py ''none'') @ py ''; script-src '' @ quoted (py ''sha256-'' @ SCRIPT_HASH)
           @ py ''; form-action '' @ (if a = b then a else a @ 32 # b)
           @ py ''; base-uri '' @ quoted (py ''none'') @ py ''; frame-ancestors '' @ quoted (py ''none'')"
    using policy origins by (auto simp: end_session_policy_def Let_def py_eval)
  then show ?thesis using body unescaped clean origins csp html_unescape_escape by blast
qed

definition sample_end_session_form :: end_session_form where
  "sample_end_session_form = \<lparr>es_end_session_endpoint = py ''https://id.example/out'', es_client_id = py ''app'',
     es_post_logout_redirect_uri = py ''https://app.example/'', es_id_token_hint = Some (py ''a\"b'')\<rparr>"

lemma script_hash_chars: "\<forall>c\<in>set SCRIPT_HASH. c < 128"
proof -
  have "\<forall>c\<in>set (b64_encode (sha256_digest m)). c < 128" for m
    using b64_encode_chars[of "sha256_digest m"] sha256_digest_bytes
    by (fastforce simp: is_b64_char_def char_class_defs)
  then show ?thesis by (auto simp: SCRIPT_HASH_def b64_standard_def)
qed

lemma end_session_page_posts_only_its_form_witness:
  "\<exists>page lang action. end_session_page sample_end_session_form (py ''en'') (py ''Log out'') = Inr page
    \<and> html_unescape lang = py ''en'' \<and> html_unescape action = py ''https://id.example/out''"
proof -
  have origins: "url_origin (es_end_session_endpoint sample_end_session_form) = Inr (py ''https://id.example'')"
    "url_origin (es_post_logout_redirect_uri sample_end_session_form) = Inr (py ''https://app.example'')"
    by (simp_all add: url_origin_def sample_end_session_form_def urlsplit_def split_scheme_def is_netloc_end_def is_scheme_char_def
        is_alpha_ascii_def Let_def text_eval)
  obtain policy where policy: "end_session_policy sample_end_session_form = Inr policy" "\<forall>c\<in>set policy. c < 256"
    using script_hash_chars by (fastforce simp: end_session_policy_def origins quoted_def py_eval Let_def)
  have "isascii (markup sample_end_session_form (py ''en'') (py ''Log out''))"
    by (simp add: isascii_def markup_def hidden_fields_def sample_end_session_form_def hidden_input_def html_escape_def
        html_escape_char_def SUBMIT_SCRIPT_def Let_def py_eval)
  from utf8_encode_ascii[OF this] policy obtain page where
    page: "end_session_page sample_end_session_form (py ''en'') (py ''Log out'') = Inr page"
    by (auto simp: end_session_page_def list_all_iff)
  from end_session_page_posts_only_its_form[OF this] obtain lang action
    where "html_unescape lang = py ''en''" "html_unescape action = es_end_session_endpoint sample_end_session_form"
    by (elim exE conjE) (rule that, assumption+)
  with page show ?thesis by (auto simp: sample_end_session_form_def)
qed

end
