(* ===== verification/RelyingParty.thy ===== *)
theory RelyingParty
  imports Jwt ClientConfig EndSessionPage Sessions Policies
begin

text \<open>
  \<open>webauth/oidc/_relying_party.py\<close>: OpenID Connect at one issuer for one client. A refusal the module
  raises as \<open>_RefusalError\<close> and catches at its entry points is the left value of an action's result.
  The token endpoint, the key-set fetch, the clocks and the source of random secrets are fields of
  the relying party; each key-set cache lies in the host's state as \<open>Jwt\<close> says. A \<open>SecretStr\<close> is its
  text.
\<close>

section \<open>Values\<close>

definition MAX_AUTHORIZATION_CODE_CHARS :: nat where "MAX_AUTHORIZATION_CODE_CHARS = 2048"
definition PENDING_LOGIN_MAX_AGE_SECONDS :: rat where "PENDING_LOGIN_MAX_AGE_SECONDS = 600"
definition LOGOUT_TOKEN_MAX_AGE_SECONDS :: int where "LOGOUT_TOKEN_MAX_AGE_SECONDS = 120"

datatype oidc_refusal_reason =
    MALFORMED_CALLBACK | STATE_MISMATCH | PENDING_LOGIN_EXPIRED | ISSUER_MISMATCH | AUTHORIZATION_DENIED
  | TOKEN_REQUEST_REFUSED | TOKEN_ENDPOINT_FAILED | ID_TOKEN_REJECTED | NONCE_MISMATCH
  | AUTHORIZED_PARTY_MISMATCH | INVALID_IDENTITY_CLAIM | LOGOUT_TOKEN_REJECTED | INVALID_LOGOUT_CLAIM
  | ACCESS_TOKEN_REJECTED | INVALID_ACCESS_CLAIM | INSUFFICIENT_SCOPE | SUBJECT_MISMATCH | STALE_ID_TOKEN

record oidc_refusal =
  or_reason :: oidc_refusal_reason
  or_idp_error :: "pystr option"
  or_token_rejection :: "rejection_reason option"

definition refusal_for :: "oidc_refusal_reason \<Rightarrow> oidc_refusal" where
  "refusal_for reason = \<lparr>or_reason = reason, or_idp_error = None, or_token_rejection = None\<rparr>"

record oidc_identity =
  oi_subject :: pystr
  oi_issuer :: pystr
  oi_groups :: "pystr list"
  oi_session_id :: "pystr option"
  oi_preferred_username :: "pystr option"
  oi_id_token :: pystr
  oi_refresh_token :: "pystr option"

record renewed_access =
  ra_access_token :: pystr
  ra_refresh_token :: "pystr option"

record refreshed_groups =
  rg_refresh_token :: "pystr option"
  rg_groups :: "oidc_refusal + pystr list"

record verified_access_token =
  va_subject :: pystr
  va_groups :: "pystr list"
  va_preferred_username :: "pystr option"

record authorization_request =
  ar_url :: pystr
  ar_pending :: pending_login

section \<open>The relying party\<close>

record ('s, 'k) relying_party =
  rp_config :: oidc_client_config
  rp_library :: "'k jwt_library"
  rp_post_token_request :: "token_request \<Rightarrow> ('s, token_endpoint_answer) act"
  rp_fetch_key_set :: "pystr \<Rightarrow> ('s, nat list) act"
  rp_wall_clock :: "('s, rat) act"
  rp_monotonic_clock :: "('s, rat) act"
  rp_token_urlsafe :: "('s, pystr) act"
  rp_client_authorization :: pystr
  rp_jwt_verifier :: "('s, 'k) jwt_verifier"

definition basic_authorization :: "pystr \<Rightarrow> pystr \<Rightarrow> exn + pystr" where
  "basic_authorization client_id client_secret =
     bindR (quote_plus client_id) (\<lambda>i. bindR (quote_plus client_secret) (\<lambda>s.
       Inr (py ''Basic '' @ b64_standard (i @ 58 # s))))"

definition verifier_for ::
    "oidc_client_config \<Rightarrow> (pystr \<Rightarrow> ('s, nat list) act) \<Rightarrow> ('s, rat) act \<Rightarrow> ('s, rat) act
     \<Rightarrow> ('s \<Rightarrow> 'k verifier_state) \<Rightarrow> ('k verifier_state \<Rightarrow> 's \<Rightarrow> 's) \<Rightarrow> pystr \<Rightarrow> exn + ('s, 'k) jwt_verifier" where
  "verifier_for cfg fetch_key_set wall_clock monotonic_clock get put audience =
     JwtVerifier (PyStr (cc_issuer cfg)) (PyList [PyStr audience]) (PyStr (cc_jwks_url cfg)) (cc_leeway_seconds cfg)
       fetch_key_set wall_clock monotonic_clock get put"

definition OidcRelyingParty ::
    "oidc_client_config \<Rightarrow> 'k jwt_library \<Rightarrow> (token_request \<Rightarrow> ('s, token_endpoint_answer) act)
     \<Rightarrow> (pystr \<Rightarrow> ('s, nat list) act) \<Rightarrow> ('s, rat) act \<Rightarrow> ('s, rat) act \<Rightarrow> ('s, pystr) act
     \<Rightarrow> ('s \<Rightarrow> 'k verifier_state) \<Rightarrow> ('k verifier_state \<Rightarrow> 's \<Rightarrow> 's) \<Rightarrow> exn + ('s, 'k) relying_party" where
  "OidcRelyingParty cfg lib post fetch wall monotonic token_urlsafe get put =
     bindR (basic_authorization (cc_client_id cfg) (cc_client_secret cfg)) (\<lambda>authorization.
     bindR (verifier_for cfg fetch wall monotonic get put (cc_client_id cfg)) (\<lambda>verifier.
       Inr \<lparr>rp_config = cfg, rp_library = lib, rp_post_token_request = post, rp_fetch_key_set = fetch,
         rp_wall_clock = wall, rp_monotonic_clock = monotonic, rp_token_urlsafe = token_urlsafe,
         rp_client_authorization = authorization, rp_jwt_verifier = verifier\<rparr>))"

definition rp_issuer :: "('s, 'k) relying_party \<Rightarrow> pystr" where
  "rp_issuer rp = cc_issuer (rp_config rp)"

definition rp_leeway :: "('s, 'k) relying_party \<Rightarrow> int" where
  "rp_leeway rp = jv_leeway_seconds (rp_jwt_verifier rp)"

section \<open>Beginning a login\<close>

definition s256_code_challenge :: "pystr \<Rightarrow> exn + pystr" where
  "s256_code_challenge code_verifier =
     (if \<not> isascii code_verifier then Inl ValueError else Inr (b64_encode (sha256_digest code_verifier)))"

definition authorization_parameters :: "oidc_client_config \<Rightarrow> pending_login \<Rightarrow> pystr \<Rightarrow> (pystr \<times> pystr) list" where
  "authorization_parameters cfg pending challenge =
     [(py ''response_type'', py ''code''), (py ''client_id'', cc_client_id cfg),
      (py ''redirect_uri'', cc_redirect_uri cfg), (py ''scope'', join_with [32] (cc_scopes cfg)),
      (py ''state'', pl_state pending), (py ''nonce'', pl_nonce pending),
      (py ''code_challenge'', challenge), (py ''code_challenge_method'', py ''S256'')]"

definition begin_login :: "('s, 'k) relying_party \<Rightarrow> ('s, authorization_request) act" where
  "begin_login rp =
     bindA (rp_token_urlsafe rp) (\<lambda>state. bindA (rp_token_urlsafe rp) (\<lambda>nonce. bindA (rp_token_urlsafe rp) (\<lambda>code_verifier.
     bindA (rp_wall_clock rp) (\<lambda>now.
       let pending = \<lparr>pl_state = state, pl_nonce = nonce, pl_code_verifier = code_verifier,
             pl_issued_at = truncate_rat now, pl_return_to = None\<rparr>
       in bindA (liftR (s256_code_challenge code_verifier)) (\<lambda>challenge.
          bindA (liftR (urlencode (authorization_parameters (rp_config rp) pending challenge))) (\<lambda>query.
            ret \<lparr>ar_url = cc_authorization_endpoint (rp_config rp) @ 63 # query, ar_pending = pending\<rparr>))))))"

section \<open>Judging a callback\<close>

definition is_same_secret :: "pyobj option \<Rightarrow> pystr \<Rightarrow> exn + bool" where
  "is_same_secret received expected =
     (case received of
        Some (PyStr r) \<Rightarrow>
          if expected = [] \<or> \<not> is_utf8 r then Inr False
          else bindR (utf8_encode r) (\<lambda>a. bindR (utf8_encode expected) (\<lambda>b. Inr (a = b)))
      | _ \<Rightarrow> Inr False)"

text \<open>The parameters as a dictionary: \<open>map_of\<close>, since every name occurs once.\<close>

definition callback_parameters :: "pystr \<Rightarrow> oidc_refusal + (pystr \<times> pystr) list" where
  "callback_parameters callback_query =
     (case bindR (utf8_encode callback_query) (\<lambda>_. parse_qsl True Strict_Errors callback_query) of
        Inl _ \<Rightarrow> Inl (refusal_for MALFORMED_CALLBACK)
      | Inr pairs \<Rightarrow>
          if \<not> distinct (map fst pairs) then Inl (refusal_for MALFORMED_CALLBACK) else Inr pairs)"

definition is_idp_error_char :: "nat \<Rightarrow> bool" where
  "is_idp_error_char c \<longleftrightarrow> is_alnum_ascii c \<or> c = 95 \<or> c = 46 \<or> c = 45"

definition idp_error_code :: "pystr \<Rightarrow> pystr option" where
  "idp_error_code error =
     (if error \<noteq> [] \<and> length error \<le> 64 \<and> list_all is_idp_error_char error then Some error else None)"

definition is_unexpired :: "('s, 'k) relying_party \<Rightarrow> pending_login \<Rightarrow> ('s, bool) act" where
  "is_unexpired rp pending = bindA (rp_wall_clock rp) (\<lambda>now.
     let age_seconds = now - of_int (pl_issued_at pending)
     in ret (0 \<le> age_seconds \<and> age_seconds \<le> PENDING_LOGIN_MAX_AGE_SECONDS))"

definition authorization_code ::
    "('s, 'k) relying_party \<Rightarrow> pending_login \<Rightarrow> (pystr \<times> pystr) list \<Rightarrow> ('s, oidc_refusal + pystr) act" where
  "authorization_code rp pending callback =
     bindA (liftR (is_same_secret (map_option PyStr (map_of callback (py ''state''))) (pl_state pending))) (\<lambda>same.
     if \<not> same then refuse (refusal_for STATE_MISMATCH)
     else bindA (is_unexpired rp pending) (\<lambda>unexpired.
     if \<not> unexpired then refuse (refusal_for PENDING_LOGIN_EXPIRED)
     else if (case map_of callback (py ''iss'') of None \<Rightarrow> False | Some iss \<Rightarrow> iss \<noteq> cc_issuer (rp_config rp))
       then refuse (refusal_for ISSUER_MISMATCH)
     else case map_of callback (py ''error'') of
       Some error \<Rightarrow> refuse ((refusal_for AUTHORIZATION_DENIED)\<lparr>or_idp_error := idp_error_code error\<rparr>)
     | None \<Rightarrow> (case map_of callback (py ''code'') of
         None \<Rightarrow> refuse (refusal_for MALFORMED_CALLBACK)
       | Some code \<Rightarrow>
           if code = [] \<or> MAX_AUTHORIZATION_CODE_CHARS < length code then refuse (refusal_for MALFORMED_CALLBACK)
           else ret (Inr code))))"

definition callback_state :: "pystr \<Rightarrow> exn + (oidc_refusal + pystr)" where
  "callback_state callback_query =
     bindR (parse_qsl False Surrogate_Escape callback_query) (\<lambda>pairs.
       let states = map snd (filter (\<lambda>(name, v). name = py ''state'') pairs) in
       case states of
         [state] \<Rightarrow>
           if state \<noteq> [] \<and> is_utf8 state then Inr (Inr state)
           else (case callback_parameters callback_query of Inl refusal \<Rightarrow> Inr (Inl refusal)
             | Inr _ \<Rightarrow> Inr (Inl (refusal_for STATE_MISMATCH)))
       | _ \<Rightarrow> (case callback_parameters callback_query of Inl refusal \<Rightarrow> Inr (Inl refusal)
             | Inr _ \<Rightarrow> Inr (Inl (refusal_for STATE_MISMATCH))))"

section \<open>The token endpoint\<close>

definition grant_request :: "('s, 'k) relying_party \<Rightarrow> (pystr \<times> pystr) list \<Rightarrow> token_request" where
  "grant_request rp form = \<lparr>tr_url = cc_token_endpoint (rp_config rp), tr_form = form,
     tr_authorization = rp_client_authorization rp\<rparr>"

definition token_answer_document :: "'k jwt_library \<Rightarrow> nat list \<Rightarrow> json_object" where
  "token_answer_document lib body =
     (if MAX_TOKEN_RESPONSE_BYTES < length body then []
      else case json_object lib body of None \<Rightarrow> [] | Some document \<Rightarrow> document)"

definition judged_token_answer :: "'k jwt_library \<Rightarrow> token_endpoint_answer \<Rightarrow> oidc_refusal + json_object" where
  "judged_token_answer lib answer =
     (let document = token_answer_document lib (ta_body answer) in
      if ta_status answer = 200 then Inr document
      else case (ta_status answer \<in> {400, 401}, map_of document (py ''error'')) of
        (True, Some (PyStr error)) \<Rightarrow>
          Inl ((refusal_for TOKEN_REQUEST_REFUSED)\<lparr>or_idp_error := idp_error_code error\<rparr>)
      | _ \<Rightarrow> Inl (refusal_for TOKEN_ENDPOINT_FAILED))"

definition token_answer :: "('s, 'k) relying_party \<Rightarrow> token_request \<Rightarrow> ('s, oidc_refusal + json_object) act" where
  "token_answer rp request = (\<lambda>s. case rp_post_token_request rp request s of
      (Inl TokenEndpointError, s') \<Rightarrow> refuse (refusal_for TOKEN_ENDPOINT_FAILED) s'
    | (Inl e, s') \<Rightarrow> (Inl e, s')
    | (Inr answer, s') \<Rightarrow> ret (judged_token_answer (rp_library rp) answer) s')"

definition is_refresh_token_text :: "pystr \<Rightarrow> bool" where
  "is_refresh_token_text t \<longleftrightarrow> t \<noteq> [] \<and> list_all (\<lambda>c. 32 \<le> c \<and> c \<le> 126) t"

fun is_refresh_token :: "pyobj \<Rightarrow> bool" where
  "is_refresh_token (PyStr t) = is_refresh_token_text t"
| "is_refresh_token _ = False"

definition issued_refresh_token :: "json_object \<Rightarrow> oidc_refusal + pystr option" where
  "issued_refresh_token document = (case map_of document (py ''refresh_token'') of
      None \<Rightarrow> Inr None
    | Some (PyStr t) \<Rightarrow> if is_refresh_token_text t then Inr (Some t) else Inl (refusal_for TOKEN_ENDPOINT_FAILED)
    | Some _ \<Rightarrow> Inl (refusal_for TOKEN_ENDPOINT_FAILED))"

text \<open>A \<open>b64token\<close>: one or more of its characters, then nothing but padding.\<close>

definition is_access_token_text :: "pystr \<Rightarrow> bool" where
  "is_access_token_text t =
     (let core = rev (dropWhile (\<lambda>c. c = 61) (rev t))
      in core \<noteq> [] \<and> list_all (\<lambda>c. is_alnum_ascii c \<or> c \<in> {45, 46, 95, 126, 43, 47}) core)"

definition bearer_access_token :: "json_object \<Rightarrow> oidc_refusal + pystr" where
  "bearer_access_token document =
     (case (map_of document (py ''token_type''), map_of document (py ''access_token'')) of
        (Some (PyStr token_type), Some (PyStr access_token)) \<Rightarrow>
          if isascii token_type \<and> lower_py token_type = py ''bearer'' \<and> is_access_token_text access_token
          then Inr access_token else Inl (refusal_for TOKEN_ENDPOINT_FAILED)
      | _ \<Rightarrow> Inl (refusal_for TOKEN_ENDPOINT_FAILED))"

definition raw_id_token_of :: "json_object \<Rightarrow> oidc_refusal + pystr" where
  "raw_id_token_of document = (case map_of document (py ''id_token'') of
      Some (PyStr id_token) \<Rightarrow> Inr id_token
    | _ \<Rightarrow> Inl (refusal_for TOKEN_ENDPOINT_FAILED))"

definition code_grant :: "('s, 'k) relying_party \<Rightarrow> pending_login \<Rightarrow> pystr \<Rightarrow> token_request" where
  "code_grant rp pending code = grant_request rp
     [(py ''grant_type'', py ''authorization_code''), (py ''code'', code),
      (py ''redirect_uri'', cc_redirect_uri (rp_config rp)), (py ''code_verifier'', pl_code_verifier pending)]"

definition exchanged_tokens ::
    "('s, 'k) relying_party \<Rightarrow> pending_login \<Rightarrow> pystr \<Rightarrow> ('s, oidc_refusal + pystr \<times> pystr option) act" where
  "exchanged_tokens rp pending code =
     bindV (token_answer rp (code_grant rp pending code)) (\<lambda>document.
     bindV (ret (raw_id_token_of document)) (\<lambda>raw_id_token.
     bindV (ret (issued_refresh_token document)) (\<lambda>refresh_token. ret (Inr (raw_id_token, refresh_token)))))"

section \<open>The identity a callback proves\<close>

definition verified_id_token :: "('s, 'k) relying_party \<Rightarrow> pystr \<Rightarrow> ('s, oidc_refusal + verified_claims) act" where
  "verified_id_token rp id_token =
     bindA (verify (rp_library rp) (rp_jwt_verifier rp) id_token None None) (\<lambda>outcome. case outcome of
       Inl reason \<Rightarrow> refuse ((refusal_for ID_TOKEN_REJECTED)\<lparr>or_token_rejection := Some reason\<rparr>)
     | Inr claims \<Rightarrow> ret (Inr claims))"

definition is_authorized_party :: "pystr \<Rightarrow> verified_claims \<Rightarrow> bool" where
  "is_authorized_party client_id id_token = (case map_of (vc_claims id_token) (py ''azp'') of
      Some azp \<Rightarrow> azp = PyStr client_id
    | None \<Rightarrow> length (vc_audiences id_token) = 1)"

definition groups_claim :: "json_object \<Rightarrow> pystr \<Rightarrow> pystr list option" where
  "groups_claim claims name = (case map_of claims name of
      None \<Rightarrow> Some []
    | Some (PyList groups) \<Rightarrow> those (map (\<lambda>g. case g of PyStr s \<Rightarrow> Some s | _ \<Rightarrow> None) groups)
    | Some _ \<Rightarrow> None)"

definition group_paths :: "json_object \<Rightarrow> pystr list option" where
  "group_paths claims = groups_claim claims (py ''groups'')"

definition optional_string_claim :: "json_object \<Rightarrow> pystr \<Rightarrow> oidc_refusal + pystr option" where
  "optional_string_claim claims name = (case map_of claims name of
      None \<Rightarrow> Inr None
    | Some PyNone \<Rightarrow> Inr None
    | Some (PyStr s) \<Rightarrow> Inr (Some s)
    | Some _ \<Rightarrow> Inl (refusal_for INVALID_IDENTITY_CLAIM))"

definition identity_of :: "verified_claims \<Rightarrow> pystr \<Rightarrow> pystr option \<Rightarrow> oidc_refusal + oidc_identity" where
  "identity_of id_token raw_id_token refresh_token =
     (case (vc_subject id_token, group_paths (vc_claims id_token)) of
        (Some subject, Some paths) \<Rightarrow>
          bindR (optional_string_claim (vc_claims id_token) (py ''sid'')) (\<lambda>session_id.
          bindR (optional_string_claim (vc_claims id_token) (py ''preferred_username'')) (\<lambda>username.
            Inr \<lparr>oi_subject = subject, oi_issuer = vc_issuer id_token, oi_groups = paths,
              oi_session_id = session_id, oi_preferred_username = username,
              oi_id_token = raw_id_token, oi_refresh_token = refresh_token\<rparr>))
      | _ \<Rightarrow> Inl (refusal_for INVALID_IDENTITY_CLAIM))"

definition complete_login ::
    "('s, 'k) relying_party \<Rightarrow> pending_login \<Rightarrow> pystr \<Rightarrow> ('s, oidc_refusal + oidc_identity) act" where
  "complete_login rp pending callback_query =
     bindV (ret (callback_parameters callback_query)) (\<lambda>callback.
     bindV (authorization_code rp pending callback) (\<lambda>code.
     bindV (exchanged_tokens rp pending code) (\<lambda>(raw_id_token, refresh_token).
     bindV (verified_id_token rp raw_id_token) (\<lambda>id_token.
     bindA (liftR (is_same_secret (map_of (vc_claims id_token) (py ''nonce'')) (pl_nonce pending))) (\<lambda>same.
     if \<not> same then refuse (refusal_for NONCE_MISMATCH)
     else if \<not> is_authorized_party (cc_client_id (rp_config rp)) id_token
       then refuse (refusal_for AUTHORIZED_PARTY_MISMATCH)
     else ret (identity_of id_token raw_id_token refresh_token))))))"

section \<open>Grants after the login\<close>

definition refresh_grant :: "('s, 'k) relying_party \<Rightarrow> pystr \<Rightarrow> token_request" where
  "refresh_grant rp refresh_token = grant_request rp
     [(py ''grant_type'', py ''refresh_token''), (py ''refresh_token'', refresh_token)]"

definition refresh_answer :: "('s, 'k) relying_party \<Rightarrow> pystr \<Rightarrow> ('s, oidc_refusal + json_object) act" where
  "refresh_answer rp refresh_token =
     (if \<not> is_refresh_token_text refresh_token then refuse (refusal_for TOKEN_ENDPOINT_FAILED)
      else token_answer rp (refresh_grant rp refresh_token))"

definition renew_access :: "('s, 'k) relying_party \<Rightarrow> pystr \<Rightarrow> ('s, oidc_refusal + renewed_access) act" where
  "renew_access rp refresh_token =
     bindV (refresh_answer rp refresh_token) (\<lambda>document.
     bindV (ret (bearer_access_token document)) (\<lambda>access_token.
     bindV (ret (issued_refresh_token document)) (\<lambda>rotated.
       ret (Inr \<lparr>ra_access_token = access_token, ra_refresh_token = rotated\<rparr>))))"

definition refreshed_id_token_groups ::
    "('s, 'k) relying_party \<Rightarrow> json_object \<Rightarrow> pystr \<Rightarrow> int \<Rightarrow> ('s, oidc_refusal + pystr list) act" where
  "refreshed_id_token_groups rp document subject started_at =
     bindV (ret (raw_id_token_of document)) (\<lambda>raw_id_token.
     bindV (verified_id_token rp raw_id_token) (\<lambda>id_token.
       if map_of (vc_claims id_token) (py ''nonce'') \<noteq> None then refuse (refusal_for NONCE_MISMATCH)
       else if \<not> is_authorized_party (cc_client_id (rp_config rp)) id_token
         then refuse (refusal_for AUTHORIZED_PARTY_MISMATCH)
       else if vc_subject id_token \<noteq> Some subject then refuse (refusal_for SUBJECT_MISMATCH)
       else if vc_issued_at id_token + rp_leeway rp < started_at then refuse (refusal_for STALE_ID_TOKEN)
       else case group_paths (vc_claims id_token) of
         None \<Rightarrow> refuse (refusal_for INVALID_IDENTITY_CLAIM)
       | Some paths \<Rightarrow> ret (Inr paths)))"

definition refreshed_groups_of ::
    "('s, 'k) relying_party \<Rightarrow> pystr \<Rightarrow> pystr \<Rightarrow> ('s, oidc_refusal + refreshed_groups) act" where
  "refreshed_groups_of rp refresh_token subject =
     bindA (rp_wall_clock rp) (\<lambda>now.
     bindV (refresh_answer rp refresh_token) (\<lambda>document.
     bindV (ret (issued_refresh_token document)) (\<lambda>rotated.
     bindA (refreshed_id_token_groups rp document subject (truncate_rat now)) (\<lambda>groups_or_refusal.
       ret (Inr \<lparr>rg_refresh_token = rotated, rg_groups = groups_or_refusal\<rparr>)))))"

definition workload_access_token :: "('s, 'k) relying_party \<Rightarrow> pyobj \<Rightarrow> ('s, oidc_refusal + pystr) act" where
  "workload_access_token rp scopes =
     (if texts_of scopes = [] \<or> \<not> is_scope_token_tuple scopes then raise ValueError
      else bindV (token_answer rp (grant_request rp
          [(py ''grant_type'', py ''client_credentials''), (py ''scope'', join_with [32] (texts_of scopes))])) (\<lambda>document.
        ret (bearer_access_token document)))"

section \<open>Logout tokens and access tokens\<close>

definition BACKCHANNEL_LOGOUT_EVENT :: pystr where
  "BACKCHANNEL_LOGOUT_EVENT = py ''http://schemas.openid.net/event/backchannel-logout''"

definition is_backchannel_logout_events :: "pyobj option \<Rightarrow> bool" where
  "is_backchannel_logout_events events = (case events of
      Some (PyDict members) \<Rightarrow> fst ` set members = {BACKCHANNEL_LOGOUT_EVENT}
        \<and> (case map_of members BACKCHANNEL_LOGOUT_EVENT of Some (PyDict _) \<Rightarrow> True | _ \<Rightarrow> False)
    | _ \<Rightarrow> False)"

definition is_logout_profile :: "('s, 'k) relying_party \<Rightarrow> verified_claims \<Rightarrow> ('s, bool) act" where
  "is_logout_profile rp token = bindA (rp_wall_clock rp) (\<lambda>now.
     let age_seconds = now - of_int (vc_issued_at token) in
     ret (vc_audiences token = [PyStr (cc_client_id (rp_config rp))]
       \<and> age_seconds \<le> of_int (LOGOUT_TOKEN_MAX_AGE_SECONDS + rp_leeway rp)
       \<and> vc_issued_at token < vc_expires_at token
       \<and> map_of (vc_claims token) (py ''nonce'') = None
       \<and> is_backchannel_logout_events (map_of (vc_claims token) (py ''events''))))"

definition verify_logout_token :: "('s, 'k) relying_party \<Rightarrow> pystr \<Rightarrow> ('s, oidc_refusal + pystr) act" where
  "verify_logout_token rp logout_token =
     bindA (verify (rp_library rp) (rp_jwt_verifier rp) logout_token (Some (py ''logout+jwt'')) None) (\<lambda>outcome.
     case outcome of
       Inl reason \<Rightarrow> refuse ((refusal_for LOGOUT_TOKEN_REJECTED)\<lparr>or_token_rejection := Some reason\<rparr>)
     | Inr token \<Rightarrow> bindA (is_logout_profile rp token) (\<lambda>holds.
         case (holds, vc_subject token) of
           (True, Some subject) \<Rightarrow> ret (Inr subject)
         | _ \<Rightarrow> refuse (refusal_for INVALID_LOGOUT_CLAIM)))"

definition ACCESS_TOKEN_MEDIA_TYPES :: "pyobj list" where
  "ACCESS_TOKEN_MEDIA_TYPES = [PyStr (py ''at+jwt''), PyStr (py ''application/at+jwt'')]"

definition verify_access_jwt ::
    "'k jwt_library \<Rightarrow> ('s, 'k) jwt_verifier \<Rightarrow> pystr \<Rightarrow> ('s, oidc_refusal + verified_claims) act" where
  "verify_access_jwt lib verifier access_token =
     bindA (verify lib verifier access_token None (Some ACCESS_TOKEN_MEDIA_TYPES)) (\<lambda>outcome. case outcome of
       Inl reason \<Rightarrow> refuse ((refusal_for ACCESS_TOKEN_REJECTED)\<lparr>or_token_rejection := Some reason\<rparr>)
     | Inr claims \<Rightarrow> ret (Inr claims))"

definition access_token_profile ::
    "verified_claims \<Rightarrow> authorized_parties \<Rightarrow> pystr \<Rightarrow> oidc_refusal + verified_access_token" where
  "access_token_profile token parties audience =
     (case vc_subject token of
        None \<Rightarrow> Inl (refusal_for INVALID_ACCESS_CLAIM)
      | Some subject \<Rightarrow>
          if vc_audiences token \<noteq> [PyStr audience] then Inl (refusal_for INVALID_ACCESS_CLAIM)
          else if \<not> admits_party parties (map_of (vc_claims token) (py ''azp''))
            then Inl (refusal_for AUTHORIZED_PARTY_MISMATCH)
          else case group_paths (vc_claims token) of
            None \<Rightarrow> Inl (refusal_for INVALID_ACCESS_CLAIM)
          | Some paths \<Rightarrow> Inr \<lparr>va_subject = subject, va_groups = paths,
              va_preferred_username = (case map_of (vc_claims token) (py ''preferred_username'') of
                  Some (PyStr username) \<Rightarrow> Some username | _ \<Rightarrow> None)\<rparr>)"

definition verify_access_token ::
    "('s, 'k) relying_party \<Rightarrow> pystr \<Rightarrow> authorized_parties \<Rightarrow> ('s, oidc_refusal + verified_access_token) act" where
  "verify_access_token rp access_token parties =
     bindV (verify_access_jwt (rp_library rp) (rp_jwt_verifier rp) access_token) (\<lambda>claims.
       ret (access_token_profile claims parties (cc_client_id (rp_config rp))))"

definition holds_scope :: "json_object \<Rightarrow> pystr \<Rightarrow> bool" where
  "holds_scope claims scope = (case map_of claims (py ''scope'') of
      Some (PyStr granted) \<Rightarrow> scope \<in> set (split_on 32 granted)
    | _ \<Rightarrow> False)"

text \<open>The check \<open>resource_token_verifier\<close> returns, over the verifier it made.\<close>

definition verify_resource_token ::
    "'k jwt_library \<Rightarrow> ('s, 'k) jwt_verifier \<Rightarrow> pystr \<Rightarrow> pystr \<Rightarrow> authorized_parties \<Rightarrow> pystr
     \<Rightarrow> ('s, oidc_refusal + verified_access_token) act" where
  "verify_resource_token lib verifier resource_url scope parties access_token =
     bindV (verify_access_jwt lib verifier access_token) (\<lambda>claims.
       case access_token_profile claims parties resource_url of
         Inl refusal \<Rightarrow> refuse refusal
       | Inr profile \<Rightarrow>
           if \<not> holds_scope (vc_claims claims) scope then refuse (refusal_for INSUFFICIENT_SCOPE)
           else ret (Inr profile))"

definition resource_token_verifier ::
    "('s, 'k) relying_party \<Rightarrow> ('s \<Rightarrow> 'k verifier_state) \<Rightarrow> ('k verifier_state \<Rightarrow> 's \<Rightarrow> 's) \<Rightarrow> pystr \<Rightarrow> pystr
     \<Rightarrow> authorized_parties \<Rightarrow> exn + (pystr \<Rightarrow> ('s, oidc_refusal + verified_access_token) act)" where
  "resource_token_verifier rp get put resource_url scope parties =
     bindR (verifier_for (rp_config rp) (rp_fetch_key_set rp) (rp_wall_clock rp) (rp_monotonic_clock rp) get put resource_url)
       (\<lambda>verifier. Inr (verify_resource_token (rp_library rp) verifier resource_url scope parties))"

definition names_another_audience :: "oidc_refusal \<Rightarrow> bool" where
  "names_another_audience refusal \<longleftrightarrow> or_token_rejection refusal = Some INVALID_AUDIENCE"

end
