(* ===== verification/OidcLogin.thy ===== *)
theory OidcLogin
  imports RelyingParty SessionGate Admission
begin

text \<open>
  \<open>webauth/oidc_login.py\<close>: the steps behind the sign-in routes and the bearer gate's people. Each
  step runs over the host's stores and transactions; what it writes inside a transaction, the host's
  exit keeps or rolls back.
\<close>

section \<open>Accounts\<close>

text \<open>Whom the issuer vouched for: the ID token's identity or a verified access token.\<close>

record claimant =
  cl_subject :: pystr
  cl_preferred_username :: "pystr option"

definition username_for :: "claimant \<Rightarrow> pystr" where
  "username_for cl = (case cl_preferred_username cl of
      Some suggested \<Rightarrow> if suggested \<noteq> [] \<and> \<not> isspace suggested then suggested else cl_subject cl
    | None \<Rightarrow> cl_subject cl)"

definition provision ::
    "'s subject_user_store \<Rightarrow> (account_event \<Rightarrow> ('s, unit) act) \<Rightarrow> claimant \<Rightarrow> pystr \<Rightarrow> ('s, user_record) act" where
  "provision users record_event cl r =
     bindA (\<lambda>s. case us_create_for_subject users (cl_subject cl) (username_for cl) r s of
         (Inl UsernameTaken, s') \<Rightarrow> (Inl UsernameTakenSignal, s')
       | other \<Rightarrow> other) (\<lambda>account.
     bindA (record_event \<lparr>ae_kind = USER_CREATED, ae_actor_id = None, ae_subject_id = ur_id account,
         ae_role = Some (ur_role account), ae_previous_role = None\<rparr>) (\<lambda>_. ret account))"

definition with_role ::
    "'s subject_user_store \<Rightarrow> (account_event \<Rightarrow> ('s, unit) act) \<Rightarrow> user_record \<Rightarrow> pystr \<Rightarrow> ('s, user_record) act" where
  "with_role users record_event account r =
     (if ur_role account = r then ret account
      else bindA (us_set_role users (ur_id account) r) (\<lambda>updated.
        bindA (record_event \<lparr>ae_kind = ROLE_CHANGED, ae_actor_id = None, ae_subject_id = ur_id updated,
            ae_role = Some r, ae_previous_role = Some (ur_role account)\<rparr>) (\<lambda>_. ret updated)))"

definition admit_account ::
    "'s subject_user_store \<Rightarrow> (account_event \<Rightarrow> ('s, unit) act) \<Rightarrow> claimant \<Rightarrow> pystr \<Rightarrow> ('s, user_record) act" where
  "admit_account users record_event cl r =
     bindA (us_get users (cl_subject cl)) (\<lambda>account. case account of
       None \<Rightarrow> provision users record_event cl r
     | Some a \<Rightarrow> with_role users record_event a r)"

definition claimant_of_identity :: "oidc_identity \<Rightarrow> claimant" where
  "claimant_of_identity i = \<lparr>cl_subject = oi_subject i, cl_preferred_username = oi_preferred_username i\<rparr>"

definition claimant_of_token :: "verified_access_token \<Rightarrow> claimant" where
  "claimant_of_token t = \<lparr>cl_subject = va_subject t, cl_preferred_username = va_preferred_username t\<rparr>"

section \<open>Admission\<close>

record admitted_login =
  al_identity :: oidc_identity
  al_role :: pystr

definition decide_admission :: "oidc_identity \<Rightarrow> admission_config \<Rightarrow> admission_refusal + admitted_login" where
  "decide_admission identity admission =
     (if oi_issuer identity \<noteq> bound_issuer admission then Inl FOREIGN_ISSUER
      else case app_role (oi_groups identity) admission of
        None \<Rightarrow> Inl NOT_A_MEMBER
      | Some derived \<Rightarrow> Inr \<lparr>al_identity = identity, al_role = role_value derived\<rparr>)"

definition admit_token_holder ::
    "'s sign_in_transaction \<Rightarrow> verified_access_token \<Rightarrow> admission_config
     \<Rightarrow> ('s, admission_refusal + authenticated_user) act" where
  "admit_token_holder tx verified admission = (case app_role (va_groups verified) admission of
      None \<Rightarrow> refuse NOT_A_MEMBER
    | Some derived \<Rightarrow> (\<lambda>s.
        case in_tx (si_context tx)
            (bindA (admit_account (accounts (si_stores tx)) (audit (si_stores tx)) (claimant_of_token verified) (role_value derived))
              (\<lambda>account. ret (authenticated account))) s of
          (Inl UsernameTakenSignal, s') \<Rightarrow> (Inr (Inl USERNAME_TAKEN), s')
        | (Inl e, s') \<Rightarrow> (Inl e, s')
        | (Inr user, s') \<Rightarrow> (Inr (Inr user), s')))"

definition admit_resource_holder ::
    "'s sign_in_transaction \<Rightarrow> verified_access_token \<Rightarrow> pystr \<Rightarrow> admission_config
     \<Rightarrow> ('s, authenticated_user option) act" where
  "admit_resource_holder tx verified required_group admission =
     (if app_role (va_groups verified) admission = None then ret None
      else if \<not> is_member_of required_group (va_groups verified) then ret None
      else in_tx (si_context tx) (bindA (us_get (accounts (si_stores tx)) (va_subject verified)) (\<lambda>account. case account of
          None \<Rightarrow> ret None
        | Some a \<Rightarrow> ret (Some \<lparr>au_id = ur_id a, au_username = ur_username a, au_role = role_value USER\<rparr>))))"

section \<open>Signing in\<close>

definition start_login ::
    "cookie_parser \<Rightarrow> ('s, 'k) relying_party \<Rightarrow> 's scope \<Rightarrow> response \<Rightarrow> 's web_auth_config \<Rightarrow> pystr option
     \<Rightarrow> ('s, pystr \<times> response) act" where
  "start_login parse_cookie rp sc response cfg return_to =
     bindA (begin_login rp) (\<lambda>authorization.
     let pending = returning_to (ar_pending authorization) (same_app_path sc return_to) in
     bindA (liftR (begin_pending_login parse_cookie sc response pending 600 cfg)) (\<lambda>answer.
       ret (ar_url authorization, answer)))"

definition write_sign_in ::
    "'s sign_in_stores \<Rightarrow> admitted_login \<Rightarrow> 's web_auth_config \<Rightarrow> pystr option \<Rightarrow> int option \<Rightarrow> bool \<Rightarrow> ('s, pystr) act" where
  "write_sign_in stores admitted cfg replaced_session_id max_sessions keeps_id_token =
     (let identity = al_identity admitted in
      bindA (admit_account (accounts stores) (audit stores) (claimant_of_identity identity) (al_role admitted)) (\<lambda>account.
      bindA (whole_second_now cfg) (\<lambda>now.
      bindA (case replaced_session_id of None \<Rightarrow> ret () | Some sid \<Rightarrow> ss_delete (sessions stores) sid) (\<lambda>_.
      bindA (case max_sessions of None \<Rightarrow> ret () | Some n \<Rightarrow> ss_prune_overflow (sessions stores) (ur_id account) (n - 1)) (\<lambda>_.
      bindA (liftR (renewed_expiry (cf_session_lifetime cfg) now now)) (\<lambda>expires_at.
      bindA (ss_create (sessions stores) (ur_id account) now expires_at (oi_refresh_token identity)
          (if keeps_id_token then Some (oi_id_token identity) else None)) (\<lambda>created.
        ret (sr_id created))))))))"

section \<open>Signing out\<close>

definition end_session_form_of :: "('s, 'k) relying_party \<Rightarrow> pystr option \<Rightarrow> end_session_form" where
  "end_session_form_of rp id_token_hint = \<lparr>es_end_session_endpoint = cc_end_session_endpoint (rp_config rp),
     es_client_id = cc_client_id (rp_config rp),
     es_post_logout_redirect_uri = cc_post_logout_redirect_uri (rp_config rp), es_id_token_hint = id_token_hint\<rparr>"

definition id_token_of_ended_session :: "'s session_store \<Rightarrow> pystr \<Rightarrow> ('s, pystr option) act" where
  "id_token_of_ended_session store session_id =
     bindA (ss_load store session_id) (\<lambda>found.
     bindA (ss_delete store session_id) (\<lambda>_.
       ret (case found of None \<Rightarrow> None | Some r \<Rightarrow> sr_id_token r)))"

definition log_out ::
    "cookie_parser \<Rightarrow> ('s, 'k) relying_party \<Rightarrow> 's scope \<Rightarrow> 's web_auth_config \<Rightarrow> 's sign_in_transaction
     \<Rightarrow> pystr \<Rightarrow> pystr \<Rightarrow> ('s, response) act" where
  "log_out parse_cookie rp sc cfg tx language button_label =
     bindA (liftR (session_id_from_request parse_cookie sc cfg)) (\<lambda>session_id.
     bindA (case session_id of
         None \<Rightarrow> ret None
       | Some sid \<Rightarrow> in_tx (si_context tx) (id_token_of_ended_session (sessions (si_stores tx)) sid)) (\<lambda>id_token.
     bindA (liftR (end_session_page (end_session_form_of rp id_token) language button_label)) (\<lambda>answer.
       ret (clear_session_cookies answer cfg))))"

datatype backchannel_logout_result = LOGOUT_ACCEPTED | LOGOUT_REFUSED

definition logout_token_of :: "nat list \<Rightarrow> pystr option \<Rightarrow> pystr option" where
  "logout_token_of form_body content_type =
     (if media_type_of content_type \<noteq> py ''application/x-www-form-urlencoded'' then None
      else case bindR (utf8_decode form_body) (parse_qsl True Strict_Errors) of
        Inl _ \<Rightarrow> None
      | Inr pairs \<Rightarrow> (case map snd (filter (\<lambda>(name, v). name = py ''logout_token'') pairs) of
          [token] \<Rightarrow> if token = [] then None else Some token
        | _ \<Rightarrow> None))"

definition end_sessions_of_subject :: "'s sign_in_stores \<Rightarrow> pystr \<Rightarrow> ('s, unit) act" where
  "end_sessions_of_subject stores subject =
     bindA (us_get (accounts stores) subject) (\<lambda>account. case account of
       None \<Rightarrow> ret ()
     | Some a \<Rightarrow> bindA (ss_delete_for_user (sessions stores) (ur_id a)) (\<lambda>ended.
         if ended = 0 then ret ()
         else audit stores \<lparr>ae_kind = BACKCHANNEL_LOGOUT, ae_actor_id = None, ae_subject_id = ur_id a,
           ae_role = None, ae_previous_role = None\<rparr>))"

definition receive_backchannel_logout ::
    "('s, 'k) relying_party \<Rightarrow> nat list \<Rightarrow> pystr option \<Rightarrow> 's sign_in_transaction \<Rightarrow> ('s, backchannel_logout_result) act" where
  "receive_backchannel_logout rp form_body content_type tx = (case logout_token_of form_body content_type of
      None \<Rightarrow> ret LOGOUT_REFUSED
    | Some logout_token \<Rightarrow> bindA (verify_logout_token rp logout_token) (\<lambda>logout. case logout of
        Inl _ \<Rightarrow> ret LOGOUT_REFUSED
      | Inr subject \<Rightarrow> bindA (in_tx (si_context tx) (end_sessions_of_subject (si_stores tx) subject)) (\<lambda>_.
          ret LOGOUT_ACCEPTED)))"

section \<open>Tokens and groups for a standing session\<close>

datatype access_token_refusal_reason = SESSION_ENDED | SIGN_IN_AGAIN | ISSUER_UNAVAILABLE

record access_token_refusal =
  at_reason :: access_token_refusal_reason
  at_issuer_refusal :: "oidc_refusal option"

definition session_ended :: access_token_refusal where
  "session_ended = \<lparr>at_reason = SESSION_ENDED, at_issuer_refusal = None\<rparr>"

definition sign_in_again :: access_token_refusal where
  "sign_in_again = \<lparr>at_reason = SIGN_IN_AGAIN, at_issuer_refusal = None\<rparr>"

definition refusal_of_grant :: "oidc_refusal \<Rightarrow> access_token_refusal" where
  "refusal_of_grant refusal =
     (if or_reason refusal = TOKEN_REQUEST_REFUSED \<and> or_idp_error refusal = Some (py ''invalid_grant'')
      then sign_in_again
      else \<lparr>at_reason = ISSUER_UNAVAILABLE, at_issuer_refusal = Some refusal\<rparr>)"

record standing_evidence =
  se_refresh_token :: pystr
  se_subject :: pystr

text \<open>\<open>record is not None and _is_admitted(...)\<close>: the clock is read only for a record.\<close>

definition stands_now :: "'s web_auth_config \<Rightarrow> session_record option \<Rightarrow> ('s, bool) act" where
  "stands_now cfg found = (case found of
      None \<Rightarrow> ret False
    | Some r \<Rightarrow> bindA (whole_second_now cfg) (\<lambda>now. liftR (is_admitted (cf_session_lifetime cfg) r now)))"

definition evidence_of_standing_session ::
    "pystr \<Rightarrow> 's session_transaction \<Rightarrow> 's web_auth_config \<Rightarrow> ('s, access_token_refusal + standing_evidence) act" where
  "evidence_of_standing_session session_id tx cfg =
     in_tx (st_context tx)
       (bindA (ss_load (st_store tx) session_id) (\<lambda>found.
        bindA (stands_now cfg found) (\<lambda>stands.
          if \<not> stands then refuse session_ended
          else case sr_refresh_token (the found) of
            None \<Rightarrow> refuse sign_in_again
          | Some t \<Rightarrow> ret (Inr \<lparr>se_refresh_token = t, se_subject = ur_id (sr_user (the found))\<rparr>))))"

definition stored :: "'s session_store \<Rightarrow> pystr \<Rightarrow> pystr \<Rightarrow> ('s, bool) act" where
  "stored store session_id refresh_token =
     bindA (ss_replace_refresh_token store session_id refresh_token) (\<lambda>answer. case answer of
       BoolAnswer b \<Rightarrow> ret b
     | OtherAnswer \<Rightarrow> raise TypeError)"

definition kept_after_grant ::
    "pystr \<Rightarrow> 's session_transaction \<Rightarrow> 's web_auth_config \<Rightarrow> pystr \<Rightarrow> pystr option \<Rightarrow> ('s, bool) act" where
  "kept_after_grant session_id tx cfg sent_token rotated =
     in_tx (st_context tx)
       (bindA (ss_load (st_store tx) session_id) (\<lambda>found.
        bindA (stands_now cfg found) (\<lambda>stands.
          case rotated of
            None \<Rightarrow> ret stands
          | Some t \<Rightarrow> if stands \<and> t \<noteq> sent_token then stored (st_store tx) session_id t else ret stands)))"

definition fresh_access_token ::
    "('s, 'k) relying_party \<Rightarrow> pystr \<Rightarrow> 's session_transaction \<Rightarrow> 's web_auth_config
     \<Rightarrow> ('s, access_token_refusal + pystr) act" where
  "fresh_access_token rp session_id tx cfg =
     bindV (evidence_of_standing_session session_id tx cfg) (\<lambda>held.
     bindA (renew_access rp (se_refresh_token held)) (\<lambda>renewed. case renewed of
       Inl refusal \<Rightarrow> refuse (refusal_of_grant refusal)
     | Inr access \<Rightarrow>
         bindA (kept_after_grant session_id tx cfg (se_refresh_token held) (ra_refresh_token access)) (\<lambda>stands.
           if stands then ret (Inr (ra_access_token access)) else refuse session_ended)))"

definition current_groups ::
    "('s, 'k) relying_party \<Rightarrow> pystr \<Rightarrow> 's session_transaction \<Rightarrow> 's web_auth_config
     \<Rightarrow> ('s, access_token_refusal + pystr list) act" where
  "current_groups rp session_id tx cfg =
     bindV (evidence_of_standing_session session_id tx cfg) (\<lambda>held.
     bindA (refreshed_groups_of rp (se_refresh_token held) (se_subject held)) (\<lambda>refreshed. case refreshed of
       Inl refusal \<Rightarrow> refuse (refusal_of_grant refusal)
     | Inr g \<Rightarrow>
         bindA (kept_after_grant session_id tx cfg (se_refresh_token held) (rg_refresh_token g)) (\<lambda>stands.
           if \<not> stands then refuse session_ended
           else case rg_groups g of
             Inl refusal \<Rightarrow> refuse (refusal_of_grant refusal)
           | Inr paths \<Rightarrow> ret (Inr paths))))"

end
