(* ===== verification/BearerGate.thy ===== *)
theory BearerGate
  imports OidcLogin
begin

text \<open>
  \<open>middleware/bearer_gate.py\<close>: the gate that admits a request by its access token. A machine path
  takes an admin's token alone, the protected resource's entry point and marked routes a capped
  person's, a person path the account behind the token or, without a bearer credential, the session.
  Constructor arguments of another type than annotated are outside the model; log lines are not
  modelled, and a worker is the call it makes.
\<close>

section \<open>The host's paths\<close>

definition selects_a_path :: "path_rules \<Rightarrow> bool" where
  "selects_a_path r \<longleftrightarrow> \<not> (pr_exact r = {} \<and> pr_prefixes r = [] \<and> pr_shapes r = [] \<and> pr_patterns r = [])"

record machine_paths =
  mp_paths :: path_rules
  mp_authorized_parties :: authorized_parties

definition MachinePaths :: "path_rules \<Rightarrow> authorized_parties \<Rightarrow> exn + machine_paths" where
  "MachinePaths paths parties =
     bindR (check (selects_a_path paths) ValueError) (\<lambda>_. Inr \<lparr>mp_paths = paths, mp_authorized_parties = parties\<rparr>)"

record 's person_paths =
  pp_paths :: path_rules
  pp_authorized_parties :: authorized_parties
  pp_transaction :: "'s sign_in_transaction"

definition PersonPaths ::
    "path_rules \<Rightarrow> authorized_parties \<Rightarrow> 's sign_in_transaction \<Rightarrow> exn + 's person_paths" where
  "PersonPaths paths parties tx =
     bindR (check (selects_a_path paths) ValueError)
       (\<lambda>_. Inr \<lparr>pp_paths = paths, pp_authorized_parties = parties, pp_transaction = tx\<rparr>)"

definition is_unreserved_char :: "nat \<Rightarrow> bool" where
  "is_unreserved_char c \<longleftrightarrow> is_alnum_ascii c \<or> c \<in> {46, 95, 126, 45}"

definition dot_segments :: "pystr set" where
  "dot_segments = {[46], [46, 46]}"

definition is_literal_segment :: "pystr \<Rightarrow> bool" where
  "is_literal_segment s \<longleftrightarrow> s \<noteq> [] \<and> list_all is_unreserved_char s"

text \<open>\<open>_RESOURCE_PATH\<close>: one or more segments of unreserved characters, each after a slash.\<close>

definition is_resource_path :: "pystr \<Rightarrow> bool" where
  "is_resource_path path = (case split_on 47 path of
      first # segments \<Rightarrow> first = [] \<and> segments \<noteq> [] \<and> list_all is_literal_segment segments
    | [] \<Rightarrow> False)"

definition is_resource_url :: "pystr \<Rightarrow> exn + bool" where
  "is_resource_url url = bindR (urlsplit url) (\<lambda>parts.
     let segments = tl (split_on 47 (up_path parts)) in
     Inr (plain_authority (up_netloc parts) \<and> is_resource_path (up_path parts) \<and> dot_segments \<inter> set segments = {}))"

definition is_word_char :: "nat \<Rightarrow> bool" where
  "is_word_char c \<longleftrightarrow> is_alnum_ascii c \<or> c = 95"

definition is_parameter_segment :: "pystr \<Rightarrow> bool" where
  "is_parameter_segment s \<longleftrightarrow> 3 \<le> length s \<and> hd s = 123 \<and> last s = 125
     \<and> (let name = butlast (tl s) in (is_alpha_ascii (hd name) \<or> hd name = 95) \<and> list_all is_word_char name)"

definition is_template_segment :: "pystr \<Rightarrow> bool" where
  "is_template_segment s =
     (if is_parameter_segment s then True else is_literal_segment s \<and> s \<notin> dot_segments)"

fun is_route_template :: "pyobj \<Rightarrow> bool" where
  "is_route_template (PyStr template) = (case split_on 47 template of
      first # segments \<Rightarrow> first = [] \<and> segments \<noteq> [] \<and> list_all is_template_segment segments
    | [] \<Rightarrow> False)"
| "is_route_template _ = False"

definition is_method_char :: "nat \<Rightarrow> bool" where
  "is_method_char c \<longleftrightarrow> is_digit c \<or> is_upper_ascii c \<or> c \<in> {33, 35, 36, 37, 38, 39, 42, 43, 45, 46, 94, 95, 96, 124, 126}"

fun is_method_token :: "pyobj \<Rightarrow> bool" where
  "is_method_token (PyStr m) = (m \<noteq> [] \<and> list_all is_method_char m)"
| "is_method_token _ = False"

record marked_route =
  mr_method :: pystr
  mr_template :: pystr

definition MarkedRoute :: "pyobj \<Rightarrow> pyobj \<Rightarrow> exn + marked_route" where
  "MarkedRoute m template =
     bindR (check (is_method_token m) ValueError) (\<lambda>_.
     bindR (check (is_route_template template) ValueError) (\<lambda>_.
       Inr \<lparr>mr_method = str_of m, mr_template = str_of template\<rparr>))"

definition segment_matches :: "pystr \<Rightarrow> pystr \<Rightarrow> bool" where
  "segment_matches segment template_segment =
     (if is_parameter_segment template_segment then segment \<notin> insert [] dot_segments else segment = template_segment)"

definition route_matches :: "marked_route \<Rightarrow> pystr \<Rightarrow> pystr \<Rightarrow> bool" where
  "route_matches route m path =
     (if m \<noteq> mr_method route \<or> \<not> startswith path [47] then False
      else let template_segments = tl (split_on 47 (mr_template route)); segments = tl (split_on 47 path)
           in length segments = length template_segments
             \<and> list_all (\<lambda>(segment, template). segment_matches segment template) (zip segments template_segments))"

section \<open>The protected resource\<close>

record 's protected_resource =
  prs_url :: pystr
  prs_scope :: pystr
  prs_required_group :: pystr
  prs_authorized_parties :: authorized_parties
  prs_transaction :: "'s sign_in_transaction"
  prs_marked_routes :: "marked_route set"

definition ProtectedResource ::
    "(nat \<Rightarrow> bool) \<Rightarrow> pyobj \<Rightarrow> pyobj \<Rightarrow> pystr \<Rightarrow> authorized_parties \<Rightarrow> 's sign_in_transaction \<Rightarrow> marked_route set
     \<Rightarrow> exn + 's protected_resource" where
  "ProtectedResource category_forbidden url scope required_group parties tx marked_routes =
     bindR (require_group_path category_forbidden required_group) (\<lambda>_.
     bindR (if is_endpoint_url url then is_resource_url (str_of url) else Inr False) (\<lambda>named.
     bindR (check named ValueError) (\<lambda>_.
     bindR (check (is_scope_token_tuple (PyTuple [scope])) ValueError) (\<lambda>_.
       Inr \<lparr>prs_url = str_of url, prs_scope = str_of scope, prs_required_group = required_group,
         prs_authorized_parties = parties, prs_transaction = tx, prs_marked_routes = marked_routes\<rparr>))))"

definition entry_point :: "'s protected_resource \<Rightarrow> exn + pystr" where
  "entry_point resource = bindR (urlsplit (prs_url resource)) (\<lambda>parts. Inr (up_path parts))"

definition entry_point_rule :: "'s protected_resource \<Rightarrow> exn + path_rules" where
  "entry_point_rule resource = bindR (entry_point resource) (\<lambda>path. Inr (exact_paths {path}))"

definition marks :: "'s protected_resource \<Rightarrow> pystr \<Rightarrow> pystr \<Rightarrow> bool" where
  "marks resource m path \<longleftrightarrow> (\<exists>route\<in>prs_marked_routes resource. route_matches route m path)"

definition METADATA_PREFIX :: pystr where
  "METADATA_PREFIX = py ''/.well-known/oauth-protected-resource''"

definition metadata_path :: "'s protected_resource \<Rightarrow> exn + pystr" where
  "metadata_path resource = bindR (entry_point resource) (\<lambda>path. Inr (METADATA_PREFIX @ path))"

definition metadata_url :: "'s protected_resource \<Rightarrow> exn + pystr" where
  "metadata_url resource =
     bindR (urlsplit (prs_url resource)) (\<lambda>parts.
     bindR (metadata_path resource) (\<lambda>path.
       Inr (up_scheme parts @ py ''://'' @ up_netloc parts @ path)))"

definition metadata_public_rule :: "'s protected_resource \<Rightarrow> exn + public_rule" where
  "metadata_public_rule resource = bindR (metadata_path resource) (\<lambda>path.
     Inr \<lparr>pu_paths = exact_paths {path}, pu_methods = Some {py ''GET''}\<rparr>)"

text \<open>A header parameter with its quoted value.\<close>

definition parameter_of :: "pystr \<Rightarrow> pystr \<Rightarrow> pystr" where
  "parameter_of name v = name @ [61, 34] @ v @ [34]"

definition challenge_parameters :: "'s protected_resource \<Rightarrow> exn + pystr list" where
  "challenge_parameters resource = bindR (metadata_url resource) (\<lambda>url.
     Inr [parameter_of (py ''resource_metadata'') url, parameter_of (py ''scope'') (prs_scope resource)])"

section \<open>The gate's policy\<close>

record ('s, 'k) bearer_gate =
  bg_relying_party :: "('s, 'k) relying_party"
  bg_admission :: admission_config
  bg_machine_paths :: "machine_paths option"
  bg_person_paths :: "'s person_paths option"
  bg_resource :: "'s protected_resource option"

definition BearerGate ::
    "('s, 'k) relying_party \<Rightarrow> admission_config \<Rightarrow> machine_paths option \<Rightarrow> 's person_paths option
     \<Rightarrow> 's protected_resource option \<Rightarrow> exn + ('s, 'k) bearer_gate" where
  "BearerGate rp admission machine person resource =
     bindR (check (\<not> (machine = None \<and> person = None \<and> resource = None)) ValueError) (\<lambda>_.
     bindR (check (\<not> (admin_group admission = NoAdmins \<and> machine \<noteq> None)) ValueError) (\<lambda>_.
     bindR (check (bound_issuer admission = rp_issuer rp) ValueError) (\<lambda>_.
       Inr \<lparr>bg_relying_party = rp, bg_admission = admission, bg_machine_paths = machine,
         bg_person_paths = person, bg_resource = resource\<rparr>)))"

section \<open>Refusals\<close>

datatype bearer_refusal =
    Bearer_NO_CREDENTIALS
  | Bearer_INVALID_REQUEST
  | Bearer_INVALID_TOKEN
  | Bearer_INSUFFICIENT_SCOPE
  | Bearer_RESOURCE_INSUFFICIENT_SCOPE
  | Bearer_RESOURCE_NOT_ADMITTED
  | Bearer_NOT_A_MEMBER
  | Bearer_USERNAME_TAKEN

text \<open>Status, challenge error and detail of each case.\<close>

fun bearer_case :: "bearer_refusal \<Rightarrow> int \<times> pystr option \<times> pystr" where
  "bearer_case Bearer_NO_CREDENTIALS = (401, None, AUTHENTICATION_REQUIRED_DETAIL)"
| "bearer_case Bearer_INVALID_REQUEST = (401, Some (py ''invalid_request''), py ''Invalid request'')"
| "bearer_case Bearer_INVALID_TOKEN = (401, Some (py ''invalid_token''), py ''Invalid token'')"
| "bearer_case Bearer_INSUFFICIENT_SCOPE = (403, Some (py ''insufficient_scope''), ADMIN_REQUIRED_DETAIL)"
| "bearer_case Bearer_RESOURCE_INSUFFICIENT_SCOPE = (403, Some (py ''insufficient_scope''), py ''Insufficient scope'')"
| "bearer_case Bearer_RESOURCE_NOT_ADMITTED = (403, None, py ''Access denied'')"
| "bearer_case Bearer_NOT_A_MEMBER = (403, None, py ''No access'')"
| "bearer_case Bearer_USERNAME_TAKEN = (403, None, py ''Login failed'')"

definition challenge :: "bearer_refusal \<Rightarrow> pystr list \<Rightarrow> pystr option" where
  "challenge refusal kind_parameters =
     (if refusal = Bearer_NOT_A_MEMBER then Some PERSON_PATH_INSUFFICIENT_SCOPE
      else case bearer_case refusal of (_, error, _) \<Rightarrow>
        let parameters = kind_parameters @ (case error of None \<Rightarrow> [] | Some e \<Rightarrow> [parameter_of (py ''error'') e])
        in if parameters = [] then None else Some (py ''Bearer '' @ join_with (py '', '') parameters))"

definition bearer_response :: "bearer_refusal \<Rightarrow> pystr list \<Rightarrow> response" where
  "bearer_response refusal kind_parameters = (case bearer_case refusal of (status, _, detail) \<Rightarrow>
     json_detail status detail (challenge_headers (challenge refusal kind_parameters)))"

definition MACHINE_CHALLENGE :: "pystr list" where
  "MACHINE_CHALLENGE = [parameter_of (py ''realm'') (py ''admin'')]"

fun refusal_of_admission :: "admission_refusal \<Rightarrow> exn + bearer_refusal" where
  "refusal_of_admission NOT_A_MEMBER = Inr Bearer_NOT_A_MEMBER"
| "refusal_of_admission USERNAME_TAKEN = Inr Bearer_USERNAME_TAKEN"
| "refusal_of_admission _ = Inl KeyError"

section \<open>The credential\<close>

definition is_auth_scheme_char :: "nat \<Rightarrow> bool" where
  "is_auth_scheme_char c \<longleftrightarrow> is_method_char c \<or> is_lower_ascii c"

definition is_blank :: "nat \<Rightarrow> bool" where
  "is_blank c \<longleftrightarrow> c = 32 \<or> c = 9"

text \<open>\<open>_ONE_CREDENTIAL.fullmatch\<close> after the scheme: spaces, then one word without blanks or commas.\<close>

definition one_credential :: "pystr \<Rightarrow> pystr option" where
  "one_credential after =
     (let spaces = takeWhile (\<lambda>c. c = 32) after; word = dropWhile (\<lambda>c. c = 32) after
      in if spaces \<noteq> [] \<and> word \<noteq> [] \<and> list_all (\<lambda>c. \<not> is_blank c \<and> c \<noteq> 44) word then Some word else None)"

text \<open>\<open>name in request.query_params\<close>: the names of the query, read as Starlette reads them. Bytes that
  are no UTF-8 never read as an ASCII name, whatever stands in for them.\<close>

definition in_query_params :: "'s scope \<Rightarrow> pystr \<Rightarrow> exn + bool" where
  "in_query_params sc name = bindR (parse_qsl False Surrogate_Escape (sc_query_string sc)) (\<lambda>pairs.
     Inr (name \<in> set (map fst pairs)))"

definition credential_of :: "'s scope \<Rightarrow> exn + (bearer_refusal + pystr)" where
  "credential_of sc =
     (let lines = getlist sc (py ''authorization'') in
      if 1 < length lines then Inr (Inl Bearer_INVALID_REQUEST)
      else let value = (case lines of [] \<Rightarrow> [] | line # _ \<Rightarrow> strip_of is_blank line) in
      if value = [] then Inr (Inl Bearer_NO_CREDENTIALS)
      else let scheme = takeWhile is_auth_scheme_char value in
      if scheme = [] then Inr (Inl Bearer_INVALID_REQUEST)
      else if lower_py scheme \<noteq> py ''bearer'' then Inr (Inl Bearer_NO_CREDENTIALS)
      else case one_credential (drop (length scheme) value) of
        None \<Rightarrow> Inr (Inl Bearer_INVALID_REQUEST)
      | Some credential \<Rightarrow> bindR (in_query_params sc (py ''access_token'')) (\<lambda>second.
          Inr (if second then Inl Bearer_INVALID_REQUEST
               else if \<not> is_access_token_text credential then Inl Bearer_INVALID_TOKEN
               else Inr credential)))"

section \<open>The middleware\<close>

record ('s, 'k) bearer_middleware =
  bm_policy :: "('s, 'k) bearer_gate"
  bm_resource_verifier :: "(pystr \<Rightarrow> ('s, oidc_refusal + verified_access_token) act) option"

definition BearerGateMiddleware ::
    "('s \<Rightarrow> 'k verifier_state) \<Rightarrow> ('k verifier_state \<Rightarrow> 's \<Rightarrow> 's) \<Rightarrow> ('s, 'k) bearer_gate
     \<Rightarrow> exn + ('s, 'k) bearer_middleware" where
  "BearerGateMiddleware get put policy = (case bg_resource policy of
      None \<Rightarrow> Inr \<lparr>bm_policy = policy, bm_resource_verifier = None\<rparr>
    | Some resource \<Rightarrow>
        bindR (resource_token_verifier (bg_relying_party policy) get put (prs_url resource) (prs_scope resource)
            (prs_authorized_parties resource)) (\<lambda>verify.
          Inr \<lparr>bm_policy = policy, bm_resource_verifier = Some verify\<rparr>))"

definition refused :: "bearer_refusal \<Rightarrow> pystr list \<Rightarrow> 's scope \<Rightarrow> ('s, response option \<times> 's scope) act" where
  "refused refusal kind_parameters sc = ret (Some (bearer_response refusal kind_parameters), sc)"

definition admitted :: "'s scope \<Rightarrow> principal \<Rightarrow> pystr option \<Rightarrow> ('s, response option \<times> 's scope) act" where
  "admitted sc caller resource_method =
     bindA (liftR (record_bearer_admission sc caller resource_method)) (\<lambda>sc'. ret (None, sc'))"

definition machine_refusal ::
    "('s, 'k) bearer_gate \<Rightarrow> machine_paths \<Rightarrow> 's scope \<Rightarrow> ('s, response option \<times> 's scope) act" where
  "machine_refusal policy machine sc =
     bindA (liftR (credential_of sc)) (\<lambda>credential. case credential of
       Inl refusal \<Rightarrow> refused refusal MACHINE_CHALLENGE sc
     | Inr token \<Rightarrow>
         bindA (verify_access_token (bg_relying_party policy) token (mp_authorized_parties machine)) (\<lambda>verified.
         case verified of
           Inl _ \<Rightarrow> refused Bearer_INVALID_TOKEN MACHINE_CHALLENGE sc
         | Inr holder \<Rightarrow>
             if app_role (va_groups holder) (bg_admission policy) \<noteq> Some ADMIN
             then refused Bearer_INSUFFICIENT_SCOPE MACHINE_CHALLENGE sc
             else admitted sc (BearerCaller (va_subject holder)) None))"

text \<open>The resource's decision; \<open>None\<close> is \<open>_Continue.AS_UNMARKED\<close>.\<close>

definition resource_refusal ::
    "('s, 'k) bearer_gate \<Rightarrow> 's protected_resource \<Rightarrow> (pystr \<Rightarrow> ('s, oidc_refusal + verified_access_token) act)
     \<Rightarrow> bool \<Rightarrow> 's scope \<Rightarrow> ('s, (response option \<times> 's scope) option) act" where
  "resource_refusal policy resource verify_token on_marked_route sc =
     bindA (liftR (challenge_parameters resource)) (\<lambda>parameters.
     bindA (liftR (credential_of sc)) (\<lambda>credential. case credential of
       Inl refusal \<Rightarrow>
         if on_marked_route \<and> refusal = Bearer_NO_CREDENTIALS then ret None
         else bindA (refused refusal parameters sc) (\<lambda>r. ret (Some r))
     | Inr token \<Rightarrow> bindA (verify_token token) (\<lambda>verified. case verified of
         Inl reason \<Rightarrow>
           if on_marked_route \<and> names_another_audience reason then ret None
           else bindA (refused (if or_reason reason = INSUFFICIENT_SCOPE then Bearer_RESOURCE_INSUFFICIENT_SCOPE
               else Bearer_INVALID_TOKEN) parameters sc) (\<lambda>r. ret (Some r))
       | Inr holder \<Rightarrow>
           bindA (admit_resource_holder (prs_transaction resource) holder (prs_required_group resource) (bg_admission policy))
             (\<lambda>person. case person of
               None \<Rightarrow> bindA (refused Bearer_RESOURCE_NOT_ADMITTED [] sc) (\<lambda>r. ret (Some r))
             | Some p \<Rightarrow> bindA (admitted sc (Account p) (Some (sc_method sc))) (\<lambda>r. ret (Some r))))))"

definition person_refusal ::
    "('s, 'k) bearer_gate \<Rightarrow> 's person_paths \<Rightarrow> 's scope \<Rightarrow> ('s, response option \<times> 's scope) act" where
  "person_refusal policy person sc =
     bindA (liftR (credential_of sc)) (\<lambda>credential. case credential of
       Inl refusal \<Rightarrow>
         if refusal = Bearer_NO_CREDENTIALS then ret (None, sc) else refused refusal [] sc
     | Inr token \<Rightarrow>
         bindA (verify_access_token (bg_relying_party policy) token (pp_authorized_parties person)) (\<lambda>verified.
         case verified of
           Inl _ \<Rightarrow> refused Bearer_INVALID_TOKEN [] sc
         | Inr holder \<Rightarrow>
             bindA (admit_token_holder (pp_transaction person) holder (bg_admission policy)) (\<lambda>account. case account of
               Inl refusal \<Rightarrow> bindA (liftR (refusal_of_admission refusal)) (\<lambda>r. refused r [] sc)
             | Inr p \<Rightarrow> admitted sc (Account p) None)))"

definition on_person_path :: "('s, 'k) bearer_gate \<Rightarrow> 's gate" where
  "on_person_path policy sc = (case bg_person_paths policy of
      None \<Rightarrow> ret (None, sc)
    | Some person \<Rightarrow>
        if rules_match (pp_paths person) (route_path sc)
        then person_refusal policy person (mark_person_path sc)
        else ret (None, sc))"

definition on_resource :: "('s, 'k) bearer_middleware \<Rightarrow> 's gate" where
  "on_resource mw sc =
     (let policy = bm_policy mw; path = route_path sc in
      case (bg_resource policy, bm_resource_verifier mw) of
        (Some resource, Some verify_token) \<Rightarrow>
          bindA (liftR (entry_point_rule resource)) (\<lambda>rule.
          let on_entry_point = rules_match rule path in
          if on_entry_point \<or> marks resource (sc_method sc) path
          then bindA (resource_refusal policy resource verify_token (\<not> on_entry_point) sc) (\<lambda>decided. case decided of
              Some answer \<Rightarrow> ret answer
            | None \<Rightarrow> on_person_path policy sc)
          else on_person_path policy sc)
      | _ \<Rightarrow> on_person_path policy sc)"

definition bearer_gate :: "('s, 'k) bearer_middleware \<Rightarrow> 's gate" where
  "bearer_gate mw sc = (case bg_machine_paths (bm_policy mw) of
      Some machine \<Rightarrow>
        if rules_match (mp_paths machine) (route_path sc) then machine_refusal (bm_policy mw) machine sc
        else on_resource mw sc
    | None \<Rightarrow> on_resource mw sc)"

section \<open>What the routes read\<close>

definition bearer_caller :: "'s scope \<Rightarrow> exn + pystr" where
  "bearer_caller sc = (case bearer_admission sc of
      None \<Rightarrow> Inl RuntimeError
    | Some b \<Rightarrow> (case ba_principal b of BearerCaller subject \<Rightarrow> Inr subject | Account _ \<Rightarrow> Inl RuntimeError))"

definition resource_person :: "'s scope \<Rightarrow> exn + authenticated_user" where
  "resource_person sc = (case bearer_admission sc of
      None \<Rightarrow> Inl RuntimeError
    | Some b \<Rightarrow>
        if \<not> is_resource_admission b then Inl RuntimeError
        else (case ba_principal b of Account u \<Rightarrow> Inr u | BearerCaller _ \<Rightarrow> Inl RuntimeError))"

text \<open>The route \<open>install_resource_metadata\<close> registers: its path, its methods and what it answers.\<close>

definition resource_metadata_route ::
    "'s protected_resource \<Rightarrow> pystr \<Rightarrow> exn + (pystr \<times> pystr set \<times> response)" where
  "resource_metadata_route resource issuer = bindR (metadata_path resource) (\<lambda>path.
     Inr (path, {py ''GET''}, \<lparr>rs_status = 200, rs_body = JsonBody (PyDict
         [(py ''resource'', PyStr (prs_url resource)), (py ''authorization_servers'', PyList [PyStr issuer]),
          (py ''scopes_supported'', PyList [PyStr (prs_scope resource)])]), rs_headers = [], rs_cookies = []\<rparr>))"

section \<open>Without a credential\<close>

lemma credential_of_mark: "credential_of (mark_person_path sc) = credential_of sc"
proof -
  have read: "getlist (mark_person_path sc) n = getlist sc n" "in_query_params (mark_person_path sc) n = in_query_params sc n" for n
    by (simp_all add: getlist_def in_query_params_def mark_person_path_def)
  show ?thesis unfolding credential_of_def read ..
qed

text \<open>The challenge a request without a bearer credential is answered with, where it is: a machine path's,
  or the resource's at its entry point.\<close>

definition bearer_challenge :: "('s, 'k) bearer_gate option \<Rightarrow> 's scope \<Rightarrow> pystr list option" where
  "bearer_challenge bearer sc = (case bearer of
      None \<Rightarrow> None
    | Some g \<Rightarrow>
        if (\<exists>machine. bg_machine_paths g = Some machine \<and> rules_match (mp_paths machine) (route_path sc))
        then Some MACHINE_CHALLENGE
        else (case bg_resource g of
            None \<Rightarrow> None
          | Some resource \<Rightarrow>
              if entry_point resource \<noteq> Inr (route_path sc) then None
              else (case challenge_parameters resource of Inl _ \<Rightarrow> None | Inr parameters \<Rightarrow> Some parameters)))"

lemma challenge_parameters_Inr: "entry_point resource = Inr path \<Longrightarrow> \<exists>parameters. challenge_parameters resource = Inr parameters"
  by (auto simp: challenge_parameters_def metadata_url_def metadata_path_def entry_point_def)

lemma rules_match_entry_point [simp]: "rules_match (exact_paths {path}) other \<longleftrightarrow> other = path"
  by (auto simp: rules_match_def exact_paths_def no_paths_def startswith_any_def)

lemma on_person_path_without_credential:
  assumes "credential_of sc = Inr (Inl Bearer_NO_CREDENTIALS)"
  shows "\<exists>sc'. on_person_path policy sc s = (Inr (None, sc'), s) \<and> sc' \<in> {sc, mark_person_path sc}"
  using assms by (simp add: on_person_path_def person_refusal_def credential_of_mark split: option.split)

lemma bearer_gate_without_credential:
  assumes built: "BearerGateMiddleware get put policy = Inr mw"
    and entry: "\<And>resource. bg_resource policy = Some resource \<Longrightarrow> \<exists>path. entry_point resource = Inr path"
    and none: "credential_of sc = Inr (Inl Bearer_NO_CREDENTIALS)"
  shows "\<exists>sc'. bearer_gate mw sc s
      = (Inr (map_option (bearer_response Bearer_NO_CREDENTIALS) (bearer_challenge (Some policy) sc), sc'), s)
    \<and> sc' \<in> {sc, mark_person_path sc}"
proof -
  have policy: "bm_policy mw = policy"
    and verifier: "bm_resource_verifier mw = None \<longleftrightarrow> bg_resource policy = None"
    using built by (auto simp: BearerGateMiddleware_def split: option.splits)
  note person = on_person_path_without_credential[OF none, of policy s]
  show ?thesis
  proof (cases "\<exists>machine. bg_machine_paths policy = Some machine \<and> rules_match (mp_paths machine) (route_path sc)")
    case True
    then show ?thesis
      by (auto simp: bearer_gate_def policy machine_refusal_def none refused_def bearer_challenge_def)
  next
    case False
    then have gate: "bearer_gate mw sc = on_resource mw sc" by (auto simp: bearer_gate_def policy split: option.split)
    show ?thesis
    proof (cases "bg_resource policy")
      case None
      with person False show ?thesis by (auto simp: gate on_resource_def policy Let_def bearer_challenge_def split: option.split)
    next
      case (Some resource)
      obtain verify_token where verify_token: "bm_resource_verifier mw = Some verify_token" using verifier Some by auto
      obtain path parameters where path: "entry_point resource = Inr path" "challenge_parameters resource = Inr parameters"
        using entry[OF Some] challenge_parameters_Inr by blast
      have decided: "resource_refusal policy resource verify_token m sc s
          = (Inr (if m then None else Some (Some (bearer_response Bearer_NO_CREDENTIALS parameters), sc)), s)" for m
        by (simp add: resource_refusal_def path none refused_def)
      show ?thesis
        using False person
        by (auto simp: gate on_resource_def policy Let_def Some verify_token entry_point_rule_def path bindA_def decided
            bearer_challenge_def)
    qed
  qed
qed

end
