(* ===== verification/SignInStores.thy ===== *)
theory SignInStores
  imports HostStores "HOL-Library.Multiset"
begin

text \<open>
  What the sign-in relies on of the host's accounts and audit (\<open>account_contract\<close>) and of the stores
  one transaction hands over together (\<open>sign_in_contract\<close>, which extends the session contract), and
  the repository's own in-memory host as the provider of both: \<open>UsersInMemory\<close> and
  \<open>SessionRecordsInMemory\<close> over one memory, beside the events of \<open>RecordingAuditSink\<close>.
\<close>

section \<open>The contracts\<close>

text \<open>\<open>account\<close> is the accounts by subject and \<open>events\<close> what was recorded, oldest first.\<close>

locale account_contract =
  fixes users :: "'s subject_user_store"
    and record_event :: "account_event \<Rightarrow> ('s, unit) act"
    and account :: "'s \<Rightarrow> pystr \<Rightarrow> user_record option"
    and events :: "'s \<Rightarrow> account_event list"
    and ok :: "'s \<Rightarrow> bool"
  assumes get: "us_get users u s = (Inr (account s u), s)"
    and create_account: "ok s \<Longrightarrow> account s u = None \<Longrightarrow> us_create_for_subject users u n rl s = (Inr a, s') \<Longrightarrow>
      ok s' \<and> a = \<lparr>ur_id = u, ur_username = n, ur_role = rl\<rparr> \<and> account s' = (account s)(u \<mapsto> a) \<and> events s' = events s"
    and set_role: "ok s \<Longrightarrow> account s u = Some a \<Longrightarrow> us_set_role users u rl s = (Inr b, s') \<Longrightarrow>
      ok s' \<and> b = a\<lparr>ur_role := rl\<rparr> \<and> account s' = (account s)(u \<mapsto> b) \<and> events s' = events s"
    and recorded: "ok s \<Longrightarrow> record_event ev s = (Inr (), s') \<Longrightarrow>
      ok s' \<and> account s' = account s \<and> events s' = events s @ [ev]"
    and account_id: "ok s \<Longrightarrow> account s u = Some a \<Longrightarrow> ur_id a = u"

text \<open>Whose a session is, and the sessions of one account.\<close>

definition owner :: "('s \<Rightarrow> pystr \<Rightarrow> session_record option) \<Rightarrow> 's \<Rightarrow> pystr \<Rightarrow> pystr option" where
  "owner lookup s sid = map_option (\<lambda>r. ur_id (sr_user r)) (lookup s sid)"

definition owned :: "('s \<Rightarrow> pystr \<Rightarrow> session_record option) \<Rightarrow> 's \<Rightarrow> pystr \<Rightarrow> pystr set" where
  "owned lookup s user = {sid. owner lookup s sid = Some user}"

text \<open>What no operation on the accounts changes of a session: its account's id and its two instants.\<close>

definition lifespan ::
    "('s \<Rightarrow> pystr \<Rightarrow> session_record option) \<Rightarrow> 's \<Rightarrow> pystr \<Rightarrow> (pystr \<times> stored_datetime \<times> stored_datetime) option" where
  "lifespan lookup s sid = map_option (\<lambda>r. (ur_id (sr_user r), sr_created_at r, sr_expires_at r)) (lookup s sid)"

lemma owner_lifespan: "owner lookup s sid = map_option fst (lifespan lookup s sid)"
  by (simp add: owner_def lifespan_def option.map_comp comp_def)

lemma lifespan_keeps_owner: "lifespan lookup s' = lifespan lookup s \<Longrightarrow> owner lookup s' = owner lookup s"
  by (rule ext) (simp add: owner_lifespan)

locale sign_in_contract =
  session_contract "sessions stores" lookup ok + account_contract "accounts stores" "audit stores" account events ok
  for stores :: "'s sign_in_stores" and lookup account events ok +
  assumes finite_owned: "finite (owned lookup s user)"
    and replace_present: "ok s \<Longrightarrow> lookup s sid = Some r \<Longrightarrow> \<exists>s'. ss_replace_refresh_token (sessions stores) sid t s = (Inr (BoolAnswer True), s')
      \<and> ok s' \<and> lookup s' = (lookup s)(sid \<mapsto> r\<lparr>sr_refresh_token := Some t\<rparr>)"
    and replace_missing: "lookup s sid = None \<Longrightarrow> ss_replace_refresh_token (sessions stores) sid t s = (Inr (BoolAnswer False), s)"
    and prune: "ok s \<Longrightarrow> 0 \<le> keep \<Longrightarrow> ss_prune_overflow (sessions stores) user keep s = (Inr (), s') \<Longrightarrow>
      ok s' \<and> lookup s' \<subseteq>\<^sub>m lookup s \<and> card (owned lookup s' user) \<le> nat keep
      \<and> (\<forall>sid. sid \<notin> owned lookup s user \<longrightarrow> lookup s' sid = lookup s sid) \<and> account s' = account s \<and> events s' = events s"
    and delete_for_user: "ok s \<Longrightarrow> ss_delete_for_user (sessions stores) user s = (Inr ended, s') \<Longrightarrow>
      ok s' \<and> lookup s' = (lookup s) |` (- owned lookup s user) \<and> ended = int (card (owned lookup s user))
      \<and> account s' = account s \<and> events s' = events s"
    and delete_frame: "ss_delete (sessions stores) sid s = (Inr (), s') \<Longrightarrow> account s' = account s \<and> events s' = events s"
    and create_frame: "ok s \<Longrightarrow> ss_create (sessions stores) user now e rt it s = (Inr r, s') \<Longrightarrow>
      account s' = account s \<and> events s' = events s \<and> sr_refresh_token r = rt \<and> sr_id_token r = it"
    and create_account_frame: "ok s \<Longrightarrow> us_create_for_subject (accounts stores) u n rl s = (Inr a, s') \<Longrightarrow> lifespan lookup s' = lifespan lookup s"
    and set_role_frame: "ok s \<Longrightarrow> us_set_role (accounts stores) u rl s = (Inr a, s') \<Longrightarrow> lifespan lookup s' = lifespan lookup s"
    and touch_frame: "ok s \<Longrightarrow> account (snd (ss_touch (sessions stores) sid e s)) = account s"
    and replace_frame: "ok s \<Longrightarrow> account (snd (ss_replace_refresh_token (sessions stores) sid t s)) = account s"
    and recorded_frame: "audit stores ev s = (Inr (), s') \<Longrightarrow> lookup s' = lookup s"

section \<open>The in-memory host\<close>

type_synonym host = "memory \<times> account_event list"

definition on_memory :: "(memory, 'a) act \<Rightarrow> (host, 'a) act" where
  "on_memory f h = (case f (fst h) of (r, m) \<Rightarrow> (r, (m, snd h)))"

definition recording_audit_sink :: "account_event \<Rightarrow> (host, unit) act" where
  "recording_audit_sink e h = (Inr (), (fst h, snd h @ [e]))"

definition host_sessions :: "host session_store" where
  "host_sessions = \<lparr>ss_create = (\<lambda>u n e rt it. on_memory (mem_create u n e rt it)), ss_load = (\<lambda>sid. on_memory (mem_load sid)),
     ss_touch = (\<lambda>sid e. on_memory (mem_touch sid e)), ss_replace_refresh_token = (\<lambda>sid t. on_memory (mem_replace_refresh_token sid t)),
     ss_delete = (\<lambda>sid. on_memory (mem_delete sid)), ss_delete_for_user = (\<lambda>u. on_memory (mem_delete_for_user u)),
     ss_prune_overflow = (\<lambda>u k. on_memory (mem_prune_overflow u k))\<rparr>"

definition host_users :: "host subject_user_store" where
  "host_users = \<lparr>us_get = (\<lambda>u. on_memory (mem_get u)),
     us_create_for_subject = (\<lambda>u n r. on_memory (mem_create_for_subject u n r)),
     us_set_role = (\<lambda>u r. on_memory (mem_set_role u r))\<rparr>"

definition host_stores :: "host sign_in_stores" where
  "host_stores = \<lparr>accounts = host_users, sessions = host_sessions, audit = recording_audit_sink\<rparr>"

definition host_lookup :: "host \<Rightarrow> pystr \<Rightarrow> session_record option" where
  "host_lookup h = mem_lookup (fst h)"

definition mem_account :: "memory \<Rightarrow> pystr \<Rightarrow> user_record option" where
  "mem_account m u = map_option (\<lambda>i. mem_heap m ! i) (mem_users m u)"

definition host_account :: "host \<Rightarrow> pystr \<Rightarrow> user_record option" where
  "host_account h = mem_account (fst h)"

definition host_ok :: "host \<Rightarrow> bool" where
  "host_ok h \<longleftrightarrow> mem_ok (fst h)"

lemma on_memory_eq: "on_memory f h = (r, h') \<longleftrightarrow> f (fst h) = (r, fst h') \<and> snd h' = snd h"
  by (cases h; cases h') (auto simp: on_memory_def split: prod.splits)

lemmas host_defs = host_sessions_def host_users_def host_stores_def host_lookup_def host_account_def host_ok_def on_memory_eq
  recording_audit_sink_def

section \<open>It meets them\<close>

lemma require_held_lock_ok [simp]: "mem_ok m \<Longrightarrow> require_held_lock m = (Inr (), m)"
  by (simp add: require_held_lock_def mem_ok_def)

lemma foldl_remove:
  "foldl (\<lambda>m (k, r). remove_record k m) m ss = m\<lparr>mem_records := filter (\<lambda>(k, r). k \<notin> fst ` set ss) (mem_records m)\<rparr>"
proof (induction ss arbitrary: m)
  case (Cons kr ss)
  have "foldl (\<lambda>m (k, r). remove_record k m) m (kr # ss) = foldl (\<lambda>m (k, r). remove_record k m) (remove_record (fst kr) m) ss"
    by (simp add: case_prod_unfold)
  also have "\<dots> = (remove_record (fst kr) m)\<lparr>mem_records := filter (\<lambda>(k, r). k \<notin> fst ` set ss) (mem_records (remove_record (fst kr) m))\<rparr>"
    by (rule Cons)
  finally show ?case by (simp add: remove_record_def case_prod_unfold conj_commute cong: filter_cong)
qed simp

lemma mem_lookup_filter:
  "mem_lookup (m\<lparr>mem_records := filter (\<lambda>(k, r). k \<notin> K) (mem_records m)\<rparr>) = (mem_lookup m) |` (- K)"
proof
  fix k
  have "map_of (filter (\<lambda>(k, r). k \<notin> K) rs) k = (if k \<in> K then None else map_of rs k)" for rs :: "(pystr \<times> memory_session) list"
    by (induction rs) auto
  then show "mem_lookup (m\<lparr>mem_records := filter (\<lambda>(k, r). k \<notin> K) (mem_records m)\<rparr>) k = ((mem_lookup m) |` (- K)) k"
    by (simp add: mem_lookup_def restrict_map_def view_session_def)
qed

lemma mem_ok_filter: "mem_ok m \<Longrightarrow> mem_ok (m\<lparr>mem_records := filter P (mem_records m)\<rparr>)"
  by (auto simp: mem_ok_def distinct_map_filter)

lemma owner_host: "owner host_lookup h sid = map_option (\<lambda>r. ur_id (mem_heap (fst h) ! ms_user r)) (map_of (mem_records (fst h)) sid)"
  by (simp add: owner_def host_lookup_def mem_lookup_def option.map_comp comp_def view_session_def)

lemma lifespan_host: "lifespan host_lookup h sid = map_option (\<lambda>r. (ur_id (mem_heap (fst h) ! ms_user r),
    utc_datetime (ms_created_at r), utc_datetime (ms_expires_at r))) (map_of (mem_records (fst h)) sid)"
  by (simp add: lifespan_def host_lookup_def mem_lookup_def option.map_comp comp_def view_session_def)

lemma owned_host:
  assumes "mem_ok (fst h)"
  shows "owned host_lookup h user = fst ` set (sessions_of (fst h) user)"
proof -
  have d: "distinct (map fst (mem_records (fst h)))" using assms by (simp add: mem_ok_def)
  show ?thesis
  proof (intro set_eqI iffI)
    fix sid assume "sid \<in> owned host_lookup h user"
    then obtain r where "map_of (mem_records (fst h)) sid = Some r" "ur_id (mem_heap (fst h) ! ms_user r) = user"
      by (auto simp: owned_def owner_host)
    then have "(sid, r) \<in> set (sessions_of (fst h) user)" by (auto simp: sessions_of_def dest: map_of_SomeD)
    then show "sid \<in> fst ` set (sessions_of (fst h) user)" by force
  next
    fix sid assume "sid \<in> fst ` set (sessions_of (fst h) user)"
    then obtain r where r: "(sid, r) \<in> set (mem_records (fst h))" "ur_id (mem_heap (fst h) ! ms_user r) = user"
      by (auto simp: sessions_of_def)
    then have "map_of (mem_records (fst h)) sid = Some r" using d by (simp add: map_of_eq_Some_iff)
    with r show "sid \<in> owned host_lookup h user" by (simp add: owned_def owner_host)
  qed
qed

lemma finite_owned_host: "finite (owned host_lookup h user)"
proof (rule finite_subset)
  show "owned host_lookup h user \<subseteq> fst ` set (mem_records (fst h))"
    by (auto simp: owned_def owner_host dest!: map_of_SomeD intro: rev_image_eqI)
qed simp

lemma distinct_sessions_of: "mem_ok m \<Longrightarrow> distinct (map fst (sessions_of m user))"
  by (simp add: mem_ok_def sessions_of_def distinct_map_filter)

lemma remove_sessions:
  assumes "mem_ok m" and "set ss \<subseteq> set (mem_records m)"
  defines "m' \<equiv> foldl (\<lambda>m (k, r). remove_record k m) m ss"
  shows "mem_ok m'" "mem_lookup m' = (mem_lookup m) |` (- fst ` set ss)" "mem_users m' = mem_users m" "mem_heap m' = mem_heap m"
    "sessions_of m' user = filter (\<lambda>(k, r). k \<notin> fst ` set ss) (sessions_of m user)"
  unfolding m'_def foldl_remove
  by (simp_all add: mem_ok_filter[OF assms(1)] mem_lookup_filter[unfolded case_prod_unfold] sessions_of_def case_prod_unfold conj_commute)

lemma mem_account_cong: "mem_users m = mem_users n \<Longrightarrow> mem_heap m = mem_heap n \<Longrightarrow> mem_account m = mem_account n"
  by (rule ext) (simp add: mem_account_def)

lemma mem_account_records [simp]: "mem_account (m\<lparr>mem_records := rs\<rparr>) = mem_account m"
  by (rule mem_account_cong) simp_all

lemma mem_account_next_id [simp]: "mem_account (m\<lparr>mem_next_id := k\<rparr>) = mem_account m"
  by (rule mem_account_cong) simp_all

lemma restrict_map_le: "m |` A \<subseteq>\<^sub>m m"
  by (auto simp: map_le_def restrict_map_def split: if_splits)

lemma host_account_contract: "account_contract host_users recording_audit_sink host_account snd host_ok"
proof
  fix h h' :: host and u n rl a b ev
  show "us_get host_users u h = (Inr (host_account h u), h)"
    by (simp add: host_defs mem_get_def mem_account_def)
  show "host_ok h' \<and> a = \<lparr>ur_id = u, ur_username = n, ur_role = rl\<rparr> \<and> host_account h' = (host_account h)(u \<mapsto> a) \<and> snd h' = snd h"
    if ok: "host_ok h" and "host_account h u = None" and c: "us_create_for_subject host_users u n rl h = (Inr a, h')"
  proof -
    let ?m = "fst h" and ?a = "\<lparr>ur_id = u, ur_username = n, ur_role = rl\<rparr>"
    have a: "a = ?a" and m': "fst h' = ?m\<lparr>mem_heap := mem_heap ?m @ [?a],
        mem_users := (mem_users ?m)(u \<mapsto> length (mem_heap ?m)), mem_usernames := insert n (mem_usernames ?m)\<rparr>" and "snd h' = snd h"
      using c ok by (auto simp: host_defs mem_create_for_subject_def bindA_def Let_def split: if_splits)
    have inside: "mem_users ?m v = Some i \<Longrightarrow> i < length (mem_heap ?m)" for v i using ok by (simp add: host_ok_def mem_ok_def)
    have "mem_account (fst h') = (mem_account ?m)(u \<mapsto> a)"
    proof
      fix v
      show "mem_account (fst h') v = ((mem_account ?m)(u \<mapsto> a)) v"
        using inside[of v] by (cases "mem_users ?m v") (auto simp: mem_account_def m' a nth_append)
    qed
    moreover have "mem_ok (fst h')" using ok unfolding m' by (auto simp: host_ok_def mem_ok_def nth_append less_Suc_eq)
    ultimately show ?thesis using a \<open>snd h' = snd h\<close> by (simp add: host_account_def host_ok_def)
  qed
  show "host_ok h' \<and> b = a\<lparr>ur_role := rl\<rparr> \<and> host_account h' = (host_account h)(u \<mapsto> b) \<and> snd h' = snd h"
    if ok: "host_ok h" and present: "host_account h u = Some a" and c: "us_set_role host_users u rl h = (Inr b, h')"
  proof -
    let ?m = "fst h"
    obtain i where i: "mem_users ?m u = Some i" "a = mem_heap ?m ! i" using present by (auto simp: host_account_def mem_account_def)
    have b: "b = a\<lparr>ur_role := rl\<rparr>" and m': "fst h' = ?m\<lparr>mem_heap := (mem_heap ?m)[i := b]\<rparr>" and "snd h' = snd h"
      using c ok i by (auto simp: host_defs mem_set_role_def bindA_def Let_def)
    have ids: "mem_users ?m v = Some j \<Longrightarrow> j < length (mem_heap ?m) \<and> ur_id (mem_heap ?m ! j) = v" for v j
      using ok by (simp add: host_ok_def mem_ok_def)
    then have other: "mem_users ?m v = Some i \<Longrightarrow> v = u" for v using i by metis
    have "mem_account (fst h') = (mem_account ?m)(u \<mapsto> b)"
    proof
      fix v
      show "mem_account (fst h') v = ((mem_account ?m)(u \<mapsto> b)) v"
        using ids[of v] ids[of u] i other[of v]
        by (cases "mem_users ?m v") (auto simp: mem_account_def m' nth_list_update)
    qed
    moreover have "mem_ok (fst h')"
      using ok i(2) ids[OF i(1)] unfolding m' by (auto simp: host_ok_def mem_ok_def nth_list_update b)
    ultimately show ?thesis using b \<open>snd h' = snd h\<close> by (simp add: host_account_def host_ok_def)
  qed
  show "host_ok h' \<and> host_account h' = host_account h \<and> snd h' = snd h @ [ev]"
    if "host_ok h" and "recording_audit_sink ev h = (Inr (), h')"
    using that by (auto simp: host_defs)
  show "ur_id a = u" if "host_ok h" and "host_account h u = Some a"
    using that by (auto simp: host_defs mem_account_def mem_ok_def)
qed

lemma host_session_contract: "session_contract host_sessions host_lookup host_ok"
proof
  fix h h' :: host and sid user now e rt it r
  have parts: "ss_load host_sessions sid = on_memory (ss_load memory_session_store sid)"
    "ss_touch host_sessions sid e = on_memory (ss_touch memory_session_store sid e)"
    "ss_delete host_sessions sid = on_memory (ss_delete memory_session_store sid)"
    "ss_create host_sessions user now e rt it = on_memory (ss_create memory_session_store user now e rt it)"
    by (simp_all add: host_sessions_def memory_session_store_def)
  show "ss_load host_sessions sid h = (Inr (host_lookup h sid), h)"
    using memory.load by (simp add: parts on_memory_eq host_lookup_def)
  show "ss_touch host_sessions sid e h = (Inr (BoolAnswer False), h)" if "host_lookup h sid = None"
    using that memory.touch_missing by (simp add: parts on_memory_eq host_lookup_def)
  show "\<exists>h'. ss_touch host_sessions sid e h = (Inr (BoolAnswer True), h')
      \<and> host_lookup h' = (host_lookup h)(sid \<mapsto> r\<lparr>sr_expires_at := utc_datetime e\<rparr>)" if "host_lookup h sid = Some r"
    using memory.touch_present[OF that[unfolded host_lookup_def]] by (auto simp: parts on_memory_eq host_lookup_def)
  show "host_ok (snd (ss_touch host_sessions sid e h))" if "host_ok h"
    using memory.touch_ok[OF that[unfolded host_ok_def], of sid e]
    by (cases "ss_touch memory_session_store sid e (fst h)") (simp add: parts on_memory_def host_ok_def)
  show "\<exists>h'. ss_delete host_sessions sid h = (Inr (), h') \<and> host_ok h' \<and> host_lookup h' = (host_lookup h)(sid := None)"
    if "host_ok h"
    using memory.delete[OF that[unfolded host_ok_def], of sid] by (auto simp: parts on_memory_eq host_lookup_def host_ok_def)
  show "host_ok h' \<and> host_lookup h (sr_id r) = None \<and> host_lookup h' = (host_lookup h)(sr_id r \<mapsto> r)
      \<and> sr_created_at r = utc_datetime now \<and> sr_expires_at r = utc_datetime e \<and> ur_id (sr_user r) = user"
    if "host_ok h" and "ss_create host_sessions user now e rt it h = (Inr r, h')"
    using that memory.create_fresh[of "fst h" user now e rt it r "fst h'"]
    by (simp add: parts on_memory_eq host_lookup_def host_ok_def)
qed

lemma card_le_take:
  assumes "distinct (map fst ss)" and "mset ss = mset rs"
  shows "card (fst ` (set rs - set (drop k ss))) \<le> k"
proof -
  have "set rs - set (drop k ss) \<subseteq> set (take k ss)"
    using mset_eq_setD[OF assms(2)] set_append[of "take k ss" "drop k ss"] by auto
  then have "card (fst ` (set rs - set (drop k ss))) \<le> card (fst ` set (take k ss))"
    by (intro card_mono image_mono) simp_all
  also have "\<dots> \<le> length (take k ss)" by (metis card_length list.set_map length_map)
  finally show ?thesis by simp
qed

lemma host_prune:
  assumes ok: "host_ok h" and "0 \<le> keep" and prune: "ss_prune_overflow host_sessions user keep h = (Inr (), h')"
  shows "host_ok h' \<and> host_lookup h' \<subseteq>\<^sub>m host_lookup h \<and> card (owned host_lookup h' user) \<le> nat keep
    \<and> (\<forall>sid. sid \<notin> owned host_lookup h user \<longrightarrow> host_lookup h' sid = host_lookup h sid)
    \<and> host_account h' = host_account h \<and> snd h' = snd h"
proof -
  let ?m = "fst h" and ?sorted = "sorted_newest_first (sessions_of (fst h) user)"
  let ?dropped = "drop (nat keep) ?sorted"
  have m: "mem_ok ?m" using ok by (simp add: host_ok_def)
  have h': "fst h' = foldl (\<lambda>m (k, r). remove_record k m) ?m ?dropped" "snd h' = snd h"
    using prune assms(2) m by (auto simp: host_defs mem_prune_overflow_def bindA_def slice_from_def)
  have perm: "mset ?sorted = mset (sessions_of ?m user)" by (simp add: sorted_newest_first_def)
  have sub: "set ?dropped \<subseteq> set (sessions_of ?m user)" using mset_eq_setD[OF perm] set_drop_subset by metis
  moreover have "set (sessions_of ?m user) \<subseteq> set (mem_records ?m)" by (auto simp: sessions_of_def)
  ultimately have "set ?dropped \<subseteq> set (mem_records ?m)" by blast
  note removed = remove_sessions[OF m this, folded h'(1)]
  have distinct: "distinct (map fst ?sorted)"
    using distinct_sessions_of[OF m, of user] mset_eq_imp_distinct_iff[of "map fst ?sorted" "map fst (sessions_of ?m user)"] perm by simp
  have "owned host_lookup h' user = fst ` set (sessions_of (fst h') user)" using removed(1) by (rule owned_host)
  also have "\<dots> \<subseteq> fst ` (set (sessions_of ?m user) - set ?dropped)" unfolding removed(5) by force
  finally have "card (owned host_lookup h' user) \<le> card (fst ` (set (sessions_of ?m user) - set ?dropped))"
    by (intro card_mono) simp_all
  also have "\<dots> \<le> nat keep" by (rule card_le_take[OF distinct perm])
  finally have card: "card (owned host_lookup h' user) \<le> nat keep" .
  have "host_lookup h' sid = host_lookup h sid" if "sid \<notin> owned host_lookup h user" for sid
    using that sub removed(2) by (auto simp: owned_host[OF m] host_lookup_def restrict_map_def)
  moreover have "host_lookup h' \<subseteq>\<^sub>m host_lookup h" by (simp add: host_lookup_def removed(2) restrict_map_le)
  ultimately show ?thesis using card removed(1) mem_account_cong[OF removed(3,4)] h'(2) by (simp add: host_ok_def host_account_def)
qed

lemma host_delete_for_user:
  assumes ok: "host_ok h" and deleted: "ss_delete_for_user host_sessions user h = (Inr ended, h')"
  shows "host_ok h' \<and> host_lookup h' = (host_lookup h) |` (- owned host_lookup h user) \<and> ended = int (card (owned host_lookup h user))
    \<and> host_account h' = host_account h \<and> snd h' = snd h"
proof -
  let ?m = "fst h" and ?ss = "sessions_of (fst h) user"
  have m: "mem_ok ?m" using ok by (simp add: host_ok_def)
  have h': "fst h' = foldl (\<lambda>m (k, r). remove_record k m) ?m ?ss" "snd h' = snd h" "ended = int (length ?ss)"
    using deleted by (auto simp: host_defs mem_delete_for_user_def Let_def)
  have "set ?ss \<subseteq> set (mem_records ?m)" by (auto simp: sessions_of_def)
  note removed = remove_sessions[OF m this, folded h'(1)]
  have "card (fst ` set ?ss) = length ?ss" using distinct_card[OF distinct_sessions_of[OF m], of user] by simp
  with removed(1,2) h' mem_account_cong[OF removed(3,4)] show ?thesis
    by (simp add: owned_host[OF m] host_ok_def host_lookup_def host_account_def)
qed

lemma nth_list_update_inside: "j < length xs \<Longrightarrow> xs[i := x] ! j = (if i = j then x else xs ! j)"
  by (cases "i = j") simp_all

lemma host_frames:
  assumes ok: "host_ok h"
  shows "ss_delete host_sessions sid h = (Inr (), h') \<Longrightarrow> host_account h' = host_account h \<and> snd h' = snd h"
    and "ss_create host_sessions user now e rt it h = (Inr r, h') \<Longrightarrow>
      host_account h' = host_account h \<and> snd h' = snd h \<and> sr_refresh_token r = rt \<and> sr_id_token r = it"
    and "us_create_for_subject host_users u n rl h = (Inr a, h') \<Longrightarrow> lifespan host_lookup h' = lifespan host_lookup h"
    and "us_set_role host_users u rl h = (Inr a, h') \<Longrightarrow> lifespan host_lookup h' = lifespan host_lookup h"
    and "host_account (snd (ss_touch host_sessions sid e h)) = host_account h"
    and "host_account (snd (ss_replace_refresh_token host_sessions sid t h)) = host_account h"
proof -
  show "host_account h' = host_account h \<and> snd h' = snd h" if "ss_delete host_sessions sid h = (Inr (), h')"
    using that ok by (auto simp: host_defs mem_delete_def bindA_def remove_record_def dest!: sym[of _ "fst h'"])
  show "host_account h' = host_account h \<and> snd h' = snd h \<and> sr_refresh_token r = rt \<and> sr_id_token r = it"
    if "ss_create host_sessions user now e rt it h = (Inr r, h')"
    using that ok by (auto simp: host_defs mem_create_def bindA_def Let_def view_session_def dest!: sym[of _ "fst h'"] split: option.splits)
  have inside: "map_of (mem_records (fst h)) sid = Some r \<Longrightarrow> ms_user r < length (mem_heap (fst h))" for sid r
    using ok by (auto simp: host_ok_def mem_ok_def dest!: map_of_SomeD)
  show "lifespan host_lookup h' = lifespan host_lookup h" if "us_create_for_subject host_users u n rl h = (Inr a, h')"
  proof
    fix sid
    show "lifespan host_lookup h' sid = lifespan host_lookup h sid"
      using that ok inside[of sid] by (cases "map_of (mem_records (fst h)) sid")
        (auto simp: lifespan_host host_defs mem_create_for_subject_def bindA_def Let_def nth_append dest!: sym[of _ "fst h'"] split: if_splits)
  qed
  show "lifespan host_lookup h' = lifespan host_lookup h" if "us_set_role host_users u rl h = (Inr a, h')"
  proof
    fix sid
    show "lifespan host_lookup h' sid = lifespan host_lookup h sid"
      using that ok inside[of sid] by (cases "map_of (mem_records (fst h)) sid")
        (auto simp: lifespan_host host_defs mem_set_role_def bindA_def Let_def nth_list_update_inside dest!: sym[of _ "fst h'"] split: option.splits)
  qed
  show "host_account (snd (ss_touch host_sessions sid e h)) = host_account h"
    by (auto simp: host_sessions_def on_memory_def mem_touch_def write_record_def host_account_def split: prod.splits option.splits)
  show "host_account (snd (ss_replace_refresh_token host_sessions sid t h)) = host_account h"
    by (auto simp: host_sessions_def on_memory_def mem_replace_refresh_token_def write_record_def host_account_def
        split: prod.splits option.splits)
qed

lemma host_replace:
  assumes "host_ok h"
  shows "host_lookup h sid = Some r \<Longrightarrow> \<exists>h'. ss_replace_refresh_token host_sessions sid t h = (Inr (BoolAnswer True), h')
      \<and> host_ok h' \<and> host_lookup h' = (host_lookup h)(sid \<mapsto> r\<lparr>sr_refresh_token := Some t\<rparr>)"
proof -
  assume present: "host_lookup h sid = Some r"
  let ?h = "(write_record sid (\<lambda>r. r\<lparr>ms_refresh_token := Some t\<rparr>) (fst h), snd h)"
  obtain q where q: "map_of (mem_records (fst h)) sid = Some q" "r = view_session (fst h) sid q"
    using present by (auto simp: host_lookup_def mem_lookup_def)
  have "ss_replace_refresh_token host_sessions sid t h = (Inr (BoolAnswer True), ?h)"
    using q by (simp add: host_defs mem_replace_refresh_token_def)
  moreover have "host_ok ?h" using assms by (simp add: host_ok_def mem_ok_write)
  moreover have "host_lookup ?h = (host_lookup h)(sid \<mapsto> r\<lparr>sr_refresh_token := Some t\<rparr>)"
    using q by (auto simp: host_lookup_def mem_lookup_write fun_eq_iff view_session_def)
  ultimately show ?thesis by blast
qed

interpretation host: sign_in_contract host_stores host_lookup host_account snd host_ok
proof (intro sign_in_contract.intro sign_in_contract_axioms.intro)
  show "session_contract (sessions host_stores) host_lookup host_ok"
    by (simp add: host_stores_def host_session_contract)
  show "account_contract (accounts host_stores) (audit host_stores) host_account snd host_ok"
    by (simp add: host_stores_def host_account_contract)
  fix h h' :: host and sid t u n rl ev a r user e rt it now keep ended
  show "finite (owned host_lookup h user)" by (rule finite_owned_host)
  show "\<exists>h'. ss_replace_refresh_token (sessions host_stores) sid t h = (Inr (BoolAnswer True), h')
      \<and> host_ok h' \<and> host_lookup h' = (host_lookup h)(sid \<mapsto> r\<lparr>sr_refresh_token := Some t\<rparr>)"
    if "host_ok h" and "host_lookup h sid = Some r"
    using host_replace[OF that] by (simp add: host_stores_def)
  show "ss_replace_refresh_token (sessions host_stores) sid t h = (Inr (BoolAnswer False), h)" if "host_lookup h sid = None"
    using that by (simp add: host_defs mem_replace_refresh_token_def mem_lookup_def)
  show "host_account h' = host_account h \<and> snd h' = snd h" if "ss_delete (sessions host_stores) sid h = (Inr (), h')"
    using that by (auto simp: host_defs mem_delete_def bindA_def remove_record_def require_held_lock_def dest!: sym[of _ "fst h'"] split: if_splits)
  show "host_lookup h' = host_lookup h" if "audit host_stores ev h = (Inr (), h')"
    using that by (auto simp: host_defs)
  have parts: "sessions host_stores = host_sessions" "accounts host_stores = host_users" by (simp_all add: host_stores_def)
  note laws = host_prune host_delete_for_user host_frames(2-6)
  show "host_ok h \<Longrightarrow> 0 \<le> keep \<Longrightarrow> ss_prune_overflow (sessions host_stores) user keep h = (Inr (), h') \<Longrightarrow>
      host_ok h' \<and> host_lookup h' \<subseteq>\<^sub>m host_lookup h \<and> card (owned host_lookup h' user) \<le> nat keep
      \<and> (\<forall>sid. sid \<notin> owned host_lookup h user \<longrightarrow> host_lookup h' sid = host_lookup h sid)
      \<and> host_account h' = host_account h \<and> snd h' = snd h"
    unfolding parts by (rule laws)
  show "host_ok h \<Longrightarrow> ss_delete_for_user (sessions host_stores) user h = (Inr ended, h') \<Longrightarrow>
      host_ok h' \<and> host_lookup h' = (host_lookup h) |` (- owned host_lookup h user) \<and> ended = int (card (owned host_lookup h user))
      \<and> host_account h' = host_account h \<and> snd h' = snd h"
    unfolding parts by (rule laws)
  show "host_ok h \<Longrightarrow> ss_create (sessions host_stores) user now e rt it h = (Inr r, h') \<Longrightarrow>
      host_account h' = host_account h \<and> snd h' = snd h \<and> sr_refresh_token r = rt \<and> sr_id_token r = it"
    unfolding parts by (rule laws)
  show "host_ok h \<Longrightarrow> us_create_for_subject (accounts host_stores) u n rl h = (Inr a, h') \<Longrightarrow> lifespan host_lookup h' = lifespan host_lookup h"
    unfolding parts by (rule laws)
  show "host_ok h \<Longrightarrow> us_set_role (accounts host_stores) u rl h = (Inr a, h') \<Longrightarrow> lifespan host_lookup h' = lifespan host_lookup h"
    unfolding parts by (rule laws)
  show "host_ok h \<Longrightarrow> host_account (snd (ss_touch (sessions host_stores) sid e h)) = host_account h"
    unfolding parts by (rule laws)
  show "host_ok h \<Longrightarrow> host_account (snd (ss_replace_refresh_token (sessions host_stores) sid t h)) = host_account h"
    unfolding parts by (rule laws)
qed

end
