(* ===== verification/SignIn.thy ===== *)
theory SignIn
  imports OidcLogin SignInStores
begin

text \<open>
  What signing in and out does to the host's accounts, sessions and audit: proved once from the
  contracts of \<open>SignInStores\<close> and stated for every host that keeps them; the repository's in-memory
  host is the one the examples run on.
\<close>

section \<open>Accounts\<close>

text \<open>The events one admission records: a creation, a change of role, or none.\<close>

definition admission_events :: "user_record option \<Rightarrow> user_record \<Rightarrow> account_event list" where
  "admission_events before a = (case before of
      None \<Rightarrow> [\<lparr>ae_kind = USER_CREATED, ae_actor_id = None, ae_subject_id = ur_id a, ae_role = Some (ur_role a), ae_previous_role = None\<rparr>]
    | Some b \<Rightarrow> if ur_role b = ur_role a then []
        else [\<lparr>ae_kind = ROLE_CHANGED, ae_actor_id = None, ae_subject_id = ur_id a, ae_role = Some (ur_role a),
               ae_previous_role = Some (ur_role b)\<rparr>])"

definition account_after :: "user_record option \<Rightarrow> claimant \<Rightarrow> pystr \<Rightarrow> user_record" where
  "account_after before cl role = (case before of
      None \<Rightarrow> \<lparr>ur_id = cl_subject cl, ur_username = username_for cl, ur_role = role\<rparr>
    | Some b \<Rightarrow> b\<lparr>ur_role := role\<rparr>)"

context account_contract
begin

lemma provision_effect:
  assumes "ok s" and new: "account s (cl_subject cl) = None" and p: "provision users record_event cl role s = (Inr a, s')"
  shows "ok s' \<and> a = account_after None cl role \<and> account s' = (account s)(cl_subject cl \<mapsto> a)
    \<and> events s' = events s @ admission_events None a"
proof -
  obtain b s1 where c: "us_create_for_subject users (cl_subject cl) (username_for cl) role s = (Inr b, s1)"
    and e: "bindA (record_event \<lparr>ae_kind = USER_CREATED, ae_actor_id = None, ae_subject_id = ur_id b,
         ae_role = Some (ur_role b), ae_previous_role = None\<rparr>) (\<lambda>_. ret b) s1 = (Inr a, s')"
    using p unfolding provision_def by (auto simp: bindA_eq_Inr split: sum.splits prod.splits exn.splits)
  have a: "a = b" and e: "record_event \<lparr>ae_kind = USER_CREATED, ae_actor_id = None, ae_subject_id = ur_id b,
         ae_role = Some (ur_role b), ae_previous_role = None\<rparr> s1 = (Inr (), s')"
    using e by (auto simp: bindA_eq_Inr)
  show ?thesis
    using create_account[OF assms(1) new c] recorded[OF _ e] by (simp add: a account_after_def admission_events_def)
qed

lemma with_role_effect:
  assumes "ok s" and known: "account s u = Some b" and p: "with_role users record_event b role s = (Inr a, s')"
  shows "ok s' \<and> a = b\<lparr>ur_role := role\<rparr> \<and> account s' = (account s)(u \<mapsto> a)
    \<and> events s' = events s @ admission_events (Some b) a"
proof (cases "ur_role b = role")
  case True
  with p known assms(1) show ?thesis by (auto simp: with_role_def admission_events_def)
next
  case False
  obtain c s1 where c: "us_set_role users (ur_id b) role s = (Inr c, s1)"
    and e: "record_event \<lparr>ae_kind = ROLE_CHANGED, ae_actor_id = None, ae_subject_id = ur_id c,
            ae_role = Some role, ae_previous_role = Some (ur_role b)\<rparr> s1 = (Inr (), s')" and a: "a = c"
    using p False unfolding with_role_def by (auto simp: bindA_eq_Inr)
  have "ur_id b = u" by (rule account_id[OF assms(1) known])
  from set_role[OF assms(1) known c[unfolded this]] recorded[OF _ e] False show ?thesis by (simp add: a admission_events_def)
qed

lemma admit_account_effect:
  assumes "ok s" and "admit_account users record_event cl role s = (Inr a, s')"
  shows "ok s' \<and> a = account_after (account s (cl_subject cl)) cl role \<and> account s' = (account s)(cl_subject cl \<mapsto> a)
    \<and> events s' = events s @ admission_events (account s (cl_subject cl)) a"
proof (cases "account s (cl_subject cl)")
  case None
  with assms provision_effect[OF assms(1) None] show ?thesis by (simp add: admit_account_def bindA_eq_Inr get)
next
  case (Some b)
  with assms with_role_effect[OF assms(1) Some] show ?thesis by (simp add: admit_account_def bindA_eq_Inr get account_after_def)
qed

end

text \<open>The steps of a sign-in that was written.\<close>

lemma write_sign_in_steps:
  assumes clock: "\<forall>s. cf_wall_clock cfg s = (Inr t, s)"
    and run: "write_sign_in stores admitted cfg replaced max_sessions keeps_id_token s = (Inr sid, s')"
  defines "now \<equiv> truncate_rat t * SECOND"
  shows "\<exists>a s1 s2 s3 r.
    admit_account (accounts stores) (audit stores) (claimant_of_identity (al_identity admitted)) (al_role admitted) s = (Inr a, s1)
    \<and> (case replaced of None \<Rightarrow> ret () | Some sid \<Rightarrow> ss_delete (sessions stores) sid) s1 = (Inr (), s2)
    \<and> (case max_sessions of None \<Rightarrow> ret () | Some n \<Rightarrow> ss_prune_overflow (sessions stores) (ur_id a) (n - 1)) s2 = (Inr (), s3)
    \<and> ss_create (sessions stores) (ur_id a) now
        (now + min (idle_seconds (cf_session_lifetime cfg)) (absolute_max_age_seconds (cf_session_lifetime cfg)) * SECOND)
        (oi_refresh_token (al_identity admitted)) (if keeps_id_token then Some (oi_id_token (al_identity admitted)) else None) s3 = (Inr r, s')
    \<and> sid = sr_id r"
proof -
  obtain a s1 s2 s3 expires_at r where
    admit: "admit_account (accounts stores) (audit stores) (claimant_of_identity (al_identity admitted)) (al_role admitted) s = (Inr a, s1)"
    and steps: "(case replaced of None \<Rightarrow> ret () | Some sid \<Rightarrow> ss_delete (sessions stores) sid) s1 = (Inr (), s2)"
      "(case max_sessions of None \<Rightarrow> ret () | Some n \<Rightarrow> ss_prune_overflow (sessions stores) (ur_id a) (n - 1)) s2 = (Inr (), s3)"
    and expiry: "renewed_expiry (cf_session_lifetime cfg) now now = Inr expires_at"
    and create: "ss_create (sessions stores) (ur_id a) now expires_at (oi_refresh_token (al_identity admitted))
        (if keeps_id_token then Some (oi_id_token (al_identity admitted)) else None) s3 = (Inr r, s')" "sid = sr_id r"
    using run clock unfolding write_sign_in_def now_def
    by (auto simp: bindA_eq_Inr whole_second_now_def Let_def liftR_def raise_def split: if_splits)
  have "expires_at = now + min (idle_seconds (cf_session_lifetime cfg)) (absolute_max_age_seconds (cf_session_lifetime cfg)) * SECOND"
    using expiry by (auto simp: renewed_expiry_def Let_def datetime_add_def SECOND_def min_mult_distrib_right split: if_splits)
  with admit steps create show ?thesis by blast
qed

context sign_in_contract
begin

lemma admit_account_lifespan:
  assumes "ok s" and "admit_account (accounts stores) (audit stores) cl role s = (Inr a, s')"
  shows "lifespan lookup s' = lifespan lookup s"
proof (cases "account s (cl_subject cl)")
  case None
  obtain b s1 ev where c: "us_create_for_subject (accounts stores) (cl_subject cl) (username_for cl) role s = (Inr b, s1)"
    and e: "audit stores ev s1 = (Inr (), s')"
    using assms(2) None unfolding admit_account_def provision_def
    by (auto simp: bindA_eq_Inr get split: sum.splits prod.splits exn.splits)
  have "lifespan lookup s1 = lifespan lookup s" by (rule create_account_frame[OF assms(1) c])
  moreover have "lookup s' = lookup s1" by (rule recorded_frame[OF e])
  ultimately show ?thesis by (auto simp: lifespan_def fun_eq_iff)
next
  case (Some b)
  show ?thesis
  proof (cases "ur_role b = role")
    case True
    with assms Some show ?thesis by (auto simp: admit_account_def bindA_eq_Inr get with_role_def)
  next
    case False
    obtain c s1 ev where c: "us_set_role (accounts stores) (ur_id b) role s = (Inr c, s1)"
      and e: "audit stores ev s1 = (Inr (), s')"
      using assms(2) Some False unfolding admit_account_def with_role_def by (auto simp: bindA_eq_Inr get)
    have "lifespan lookup s1 = lifespan lookup s" by (rule set_role_frame[OF assms(1) c])
    moreover have "lookup s' = lookup s1" by (rule recorded_frame[OF e])
    ultimately show ?thesis by (auto simp: lifespan_def fun_eq_iff)
  qed
qed

lemmas admit_account_owner = lifespan_keeps_owner[OF admit_account_lifespan]

lemma owned_del: "lookup s' = (lookup s)(sid := None) \<Longrightarrow> owned lookup s' user = owned lookup s user - {sid}"
  by (auto simp: owned_def owner_def)

lemma owned_add:
  "lookup s' = (lookup s)(sid \<mapsto> r) \<Longrightarrow> ur_id (sr_user r) = user \<Longrightarrow> owned lookup s' user = insert sid (owned lookup s user)"
  by (auto simp: owned_def owner_def)

text \<open>The steps of \<open>write_sign_in\<close> after the account is admitted.\<close>

lemma delete_effect:
  assumes "ok s" and "(case replaced of None \<Rightarrow> ret () | Some sid \<Rightarrow> ss_delete (sessions stores) sid) s = (Inr (), s')"
  shows "ok s' \<and> lookup s' = (lookup s) |` (- set_option replaced) \<and> account s' = account s \<and> events s' = events s"
proof (cases replaced)
  case None
  with assms show ?thesis by (auto simp: restrict_map_def)
next
  case (Some sid)
  have "ss_delete (sessions stores) sid s = (Inr (), s')" using assms(2) Some by simp
  moreover obtain s1 where "ss_delete (sessions stores) sid s = (Inr (), s1)" "ok s1" "lookup s1 = (lookup s)(sid := None)"
    using delete[OF assms(1)] by blast
  ultimately have "ok s'" "lookup s' = (lookup s)(sid := None)" "account s' = account s \<and> events s' = events s"
    using delete_frame by auto
  with Some show ?thesis by (auto simp: restrict_map_def fun_eq_iff)
qed

lemma prune_effect:
  assumes "ok s" and "(case max_sessions of None \<Rightarrow> ret () | Some n \<Rightarrow> ss_prune_overflow (sessions stores) user (n - 1)) s = (Inr (), s')"
    and "\<forall>n. max_sessions = Some n \<longrightarrow> 1 \<le> n"
  shows "ok s' \<and> lookup s' \<subseteq>\<^sub>m lookup s \<and> account s' = account s \<and> events s' = events s
    \<and> (\<forall>n. max_sessions = Some n \<longrightarrow> card (owned lookup s' user) \<le> nat (n - 1))
    \<and> (\<forall>sid. sid \<notin> owned lookup s user \<longrightarrow> lookup s' sid = lookup s sid)"
proof (cases max_sessions)
  case None
  with assms show ?thesis by auto
next
  case (Some n)
  have "0 \<le> n - 1" using assms(3) Some by simp
  with Some assms(2) prune[OF assms(1) this, of user s'] show ?thesis by simp
qed

lemma owned_mono: "lookup s' \<subseteq>\<^sub>m lookup s \<Longrightarrow> owned lookup s' user \<subseteq> owned lookup s user"
  by (force simp: owned_def owner_def map_le_def dom_def)

text \<open>What a sign-in that was written leaves of the accounts and of every session.\<close>

lemma write_sign_in_effect:
  assumes "ok s" and clock: "\<forall>s. cf_wall_clock cfg s = (Inr t, s)" and cap: "\<forall>n. max_sessions = Some n \<longrightarrow> 1 \<le> n"
    and run: "write_sign_in stores admitted cfg replaced max_sessions keeps_id_token s = (Inr sid, s')"
  defines "user \<equiv> oi_subject (al_identity admitted)" and "now \<equiv> truncate_rat t * SECOND"
  shows "\<exists>r a. ok s' \<and> lookup s' sid = Some r \<and> ur_id (sr_user r) = user \<and> sr_created_at r = utc_datetime now
    \<and> sr_expires_at r = utc_datetime (now
        + min (idle_seconds (cf_session_lifetime cfg)) (absolute_max_age_seconds (cf_session_lifetime cfg)) * SECOND)
    \<and> sr_refresh_token r = oi_refresh_token (al_identity admitted)
    \<and> sr_id_token r = (if keeps_id_token then Some (oi_id_token (al_identity admitted)) else None)
    \<and> account s' = (account s)(user \<mapsto> a) \<and> ur_role a = al_role admitted
    \<and> (\<forall>n. max_sessions = Some n \<longrightarrow> card (owned lookup s' user) \<le> nat n)
    \<and> (\<forall>k. k \<noteq> sid \<longrightarrow> (if replaced = Some k then lookup s' k = None else lifespan lookup s' k \<in> {None, lifespan lookup s k}))
    \<and> (\<forall>k. owner lookup s k \<noteq> Some user \<and> replaced \<noteq> Some k \<longrightarrow> k \<noteq> sid \<and> lifespan lookup s' k = lifespan lookup s k \<or> k = sid \<and> lookup s k = None)
    \<and> (max_sessions = None \<longrightarrow> (\<forall>k. replaced \<noteq> Some k \<and> lookup s k \<noteq> None \<longrightarrow> k \<noteq> sid \<and> lifespan lookup s' k = lifespan lookup s k))"
proof -
  let ?life = "cf_session_lifetime cfg"
  obtain a s1 s2 s3 r where
    admit: "admit_account (accounts stores) (audit stores) (claimant_of_identity (al_identity admitted)) (al_role admitted) s = (Inr a, s1)"
    and del: "(case replaced of None \<Rightarrow> ret () | Some sid \<Rightarrow> ss_delete (sessions stores) sid) s1 = (Inr (), s2)"
    and prune: "(case max_sessions of None \<Rightarrow> ret () | Some n \<Rightarrow> ss_prune_overflow (sessions stores) (ur_id a) (n - 1)) s2 = (Inr (), s3)"
    and create: "ss_create (sessions stores) (ur_id a) now (now + min (idle_seconds ?life) (absolute_max_age_seconds ?life) * SECOND)
      (oi_refresh_token (al_identity admitted)) (if keeps_id_token then Some (oi_id_token (al_identity admitted)) else None) s3 = (Inr r, s')"
    and sid: "sid = sr_id r"
    using write_sign_in_steps[OF clock run] unfolding now_def by blast
  have cl: "cl_subject (claimant_of_identity (al_identity admitted)) = user" by (simp add: claimant_of_identity_def user_def)
  note admitted = admit_account_effect[OF \<open>ok s\<close> admit, unfolded cl]
  have a: "ur_id a = user" "ur_role a = al_role admitted"
    using admitted account_id[OF \<open>ok s\<close>] by (auto simp: account_after_def cl split: option.splits)
  have span1: "lifespan lookup s1 = lifespan lookup s" by (rule admit_account_lifespan[OF \<open>ok s\<close> admit])
  note d = delete_effect[OF conjunct1[OF admitted] del]
  note p = prune_effect[OF conjunct1[OF d] prune cap, unfolded a]
  note c = create_fresh[OF conjunct1[OF p] create]
  note f = create_frame[OF conjunct1[OF p] create]
  have lookup': "lookup s' = (lookup s3)(sid \<mapsto> r)" using c sid by simp
  have span2: "lifespan lookup s2 k = (if replaced = Some k then None else lifespan lookup s k)" for k
    using d fun_cong[OF span1, of k] by (auto simp: lifespan_def restrict_map_def)
  have span3: "lookup s3 k = None \<or> lookup s3 k = lookup s2 k" for k using p by (auto simp: map_le_def dom_def)
  have frame3: "lookup s3 k = lookup s2 k" if "owner lookup s k \<noteq> Some user" for k
    using p that span2[of k] by (auto simp: owned_def owner_lifespan split: if_splits)
  have card: "card (owned lookup s' user) \<le> nat n" if "max_sessions = Some n" for n
  proof -
    have "owned lookup s' user = insert sid (owned lookup s3 user)" using owned_add[OF lookup'] c a by simp
    then have "card (owned lookup s' user) \<le> Suc (card (owned lookup s3 user))"
      using finite_owned by (simp add: card_insert_if)
    then show ?thesis using p that cap by auto
  qed
  have others: "if replaced = Some k then lookup s' k = None else lifespan lookup s' k \<in> {None, lifespan lookup s k}" if "k \<noteq> sid" for k
    using that span2[of k] span3[of k] by (auto simp: lookup' lifespan_def)
  have kept: "k \<noteq> sid \<and> lifespan lookup s' k = lifespan lookup s k \<or> k = sid \<and> lookup s k = None"
    if "owner lookup s k \<noteq> Some user" "replaced \<noteq> Some k" for k
    using that span2[of k] frame3[of k] c sid by (auto simp: lookup' lifespan_def)
  have uncapped: "k \<noteq> sid \<and> lifespan lookup s' k = lifespan lookup s k" if "max_sessions = None" "replaced \<noteq> Some k" "lookup s k \<noteq> None" for k
    using that span2[of k] prune c sid by (auto simp: lookup' lifespan_def)
  have account: "account s' = (account s)(user \<mapsto> a)" using f p d admitted by simp
  show ?thesis
  proof (rule exI[of _ r], rule exI[of _ a], intro conjI)
    show "ok s'" "lookup s' sid = Some r" "ur_id (sr_user r) = user" "sr_created_at r = utc_datetime now"
      "sr_expires_at r = utc_datetime (now + min (idle_seconds ?life) (absolute_max_age_seconds ?life) * SECOND)"
      using c a(1) sid by simp_all
    show "sr_refresh_token r = oi_refresh_token (al_identity admitted)"
      "sr_id_token r = (if keeps_id_token then Some (oi_id_token (al_identity admitted)) else None)"
      using f by simp_all
    show "account s' = (account s)(user \<mapsto> a)" "ur_role a = al_role admitted" by (fact account a)+
    show "\<forall>n. max_sessions = Some n \<longrightarrow> card (owned lookup s' user) \<le> nat n" using card by blast
    show "\<forall>k. k \<noteq> sid \<longrightarrow> (if replaced = Some k then lookup s' k = None else lifespan lookup s' k \<in> {None, lifespan lookup s k})"
      using others by blast
  qed (use kept uncapped in blast)+
qed

end

section \<open>Properties\<close>

text \<open>C8. The account a sign-in or a token admits, over any host that keeps its accounts: the subject's
  account carries the role the groups gave, whatever role was stored; a known account keeps its name,
  a new one takes the suggested name or, when that is blank, the subject; every other account is as it
  was, and exactly one event is recorded when the account is new or its role changed, none otherwise.\<close>

theorem role_follows_groups:
  assumes "account_contract users record_event account events ok" and "ok s"
    and "admit_account users record_event cl role s = (Inr a, s')"
  shows "ur_id a = cl_subject cl \<and> ur_role a = role \<and> account s' = (account s)(cl_subject cl \<mapsto> a)
    \<and> (case account s (cl_subject cl) of
        None \<Rightarrow> ur_username a = username_for cl
          \<and> events s' = events s @ [\<lparr>ae_kind = USER_CREATED, ae_actor_id = None, ae_subject_id = cl_subject cl,
              ae_role = Some role, ae_previous_role = None\<rparr>]
      | Some b \<Rightarrow> ur_username a = ur_username b
          \<and> events s' = events s @ (if ur_role b = role then [] else [\<lparr>ae_kind = ROLE_CHANGED, ae_actor_id = None,
              ae_subject_id = cl_subject cl, ae_role = Some role, ae_previous_role = Some (ur_role b)\<rparr>]))"
proof -
  note effect = account_contract.admit_account_effect[OF assms]
  show ?thesis
  proof (cases "account s (cl_subject cl)")
    case None
    with effect show ?thesis by (simp add: account_after_def admission_events_def)
  next
    case (Some b)
    have "ur_id b = cl_subject cl" by (rule account_contract.account_id[OF assms(1,2) Some])
    with Some effect show ?thesis by (simp add: account_after_def admission_events_def)
  qed
qed

text \<open>A host that knows the account \<open>u1\<close>, an admin, and holds its sessions \<open>s1\<close> and \<open>b\<close>.\<close>

definition sample_host :: host where
  "sample_host = (\<lparr>mem_lock = None, mem_heap = [\<lparr>ur_id = py ''u1'', ur_username = py ''ann'', ur_role = py ''admin''\<rparr>],
     mem_users = [py ''u1'' \<mapsto> 0], mem_usernames = {py ''ann''},
     mem_records = [(py ''s1'', \<lparr>ms_user = 0, ms_created_at = 900 * SECOND, ms_expires_at = 2000 * SECOND,
          ms_refresh_token = Some (py ''t1''), ms_id_token = Some (py ''id'')\<rparr>),
        (py ''b'', \<lparr>ms_user = 0, ms_created_at = 950 * SECOND, ms_expires_at = 2000 * SECOND,
          ms_refresh_token = None, ms_id_token = None\<rparr>)],
     mem_next_id = 0\<rparr>, [])"

lemma sample_host_ok: "host_ok sample_host"
  by (simp add: host_ok_def mem_ok_def sample_host_def)

lemma role_follows_groups_witness:
  "\<exists>a h. admit_account host_users recording_audit_sink \<lparr>cl_subject = py ''u1'', cl_preferred_username = None\<rparr> (py ''user'') sample_host
      = (Inr a, h) \<and> ur_role a = py ''user'' \<and> ur_username a = py ''ann'' \<and> length (snd h) = 1"
proof -
  let ?cl = "\<lparr>cl_subject = py ''u1'', cl_preferred_username = None\<rparr>"
  obtain a h where run: "admit_account host_users recording_audit_sink ?cl (py ''user'') sample_host = (Inr a, h)"
    by (simp add: admit_account_def with_role_def bindA_def host_users_def on_memory_def mem_get_def mem_set_role_def Let_def
        require_held_lock_def recording_audit_sink_def sample_host_def)
  have "host_account sample_host (py ''u1'') = Some \<lparr>ur_id = py ''u1'', ur_username = py ''ann'', ur_role = py ''admin''\<rparr>"
    by (simp add: host_account_def mem_account_def sample_host_def)
  with role_follows_groups[OF host_account_contract sample_host_ok run] run show ?thesis
    by (auto simp: sample_host_def)
qed

text \<open>C4. What a sign-in leaves, over any host that keeps its contracts: one session of the subject's account
  under the returned id, opened at the whole second of the clock, expiring one idle period later within
  the absolute age, holding the login's refresh token and its ID token only when the host keeps it; the
  session the browser came with is gone, whoever it belonged to; the account has at most the capped
  number of sessions and none it did not have before; and nobody else's session is gone or has another
  owner, opening or expiry.\<close>

theorem sign_in_opens_one_session:
  assumes contract: "sign_in_contract stores lookup account events ok" and "ok s"
    and clock: "\<forall>s. cf_wall_clock cfg s = (Inr t, s)" and cap: "\<forall>n. max_sessions = Some n \<longrightarrow> 1 \<le> n"
    and run: "write_sign_in stores admitted cfg replaced max_sessions keeps_id_token s = (Inr sid, s')"
  shows "\<exists>r. lookup s' sid = Some r \<and> ur_id (sr_user r) = oi_subject (al_identity admitted)
    \<and> sr_created_at r = utc_datetime (truncate_rat t * SECOND)
    \<and> sr_expires_at r = utc_datetime (truncate_rat t * SECOND
        + min (idle_seconds (cf_session_lifetime cfg)) (absolute_max_age_seconds (cf_session_lifetime cfg)) * SECOND)
    \<and> sr_refresh_token r = oi_refresh_token (al_identity admitted)
    \<and> sr_id_token r = (if keeps_id_token then Some (oi_id_token (al_identity admitted)) else None)
    \<and> (\<forall>old. replaced = Some old \<and> old \<noteq> sid \<longrightarrow> lookup s' old = None)
    \<and> (\<forall>n. max_sessions = Some n \<longrightarrow> card (owned lookup s' (oi_subject (al_identity admitted))) \<le> nat n)
    \<and> owned lookup s' (oi_subject (al_identity admitted)) \<subseteq> insert sid (owned lookup s (oi_subject (al_identity admitted)))
    \<and> (\<forall>k. owner lookup s k \<notin> {None, Some (oi_subject (al_identity admitted))} \<and> replaced \<noteq> Some k
        \<longrightarrow> lifespan lookup s' k = lifespan lookup s k)
    \<and> map_option ur_role (account s' (oi_subject (al_identity admitted))) = Some (al_role admitted)"
proof -
  let ?user = "oi_subject (al_identity admitted)"
  from sign_in_contract.write_sign_in_effect[OF contract \<open>ok s\<close> clock cap run] obtain r a where
    r: "lookup s' sid = Some r" "ur_id (sr_user r) = ?user" "sr_created_at r = utc_datetime (truncate_rat t * SECOND)"
      "sr_expires_at r = utc_datetime (truncate_rat t * SECOND
        + min (idle_seconds (cf_session_lifetime cfg)) (absolute_max_age_seconds (cf_session_lifetime cfg)) * SECOND)"
      "sr_refresh_token r = oi_refresh_token (al_identity admitted)"
      "sr_id_token r = (if keeps_id_token then Some (oi_id_token (al_identity admitted)) else None)"
    and account: "account s' = (account s)(?user \<mapsto> a)" "ur_role a = al_role admitted"
    and capped: "\<forall>n. max_sessions = Some n \<longrightarrow> card (owned lookup s' ?user) \<le> nat n"
    and others: "\<forall>k. k \<noteq> sid \<longrightarrow> (if replaced = Some k then lookup s' k = None else lifespan lookup s' k \<in> {None, lifespan lookup s k})"
    and kept: "\<forall>k. owner lookup s k \<noteq> Some ?user \<and> replaced \<noteq> Some k \<longrightarrow>
        k \<noteq> sid \<and> lifespan lookup s' k = lifespan lookup s k \<or> k = sid \<and> lookup s k = None"
    by blast
  have "owned lookup s' ?user \<subseteq> insert sid (owned lookup s ?user)"
  proof
    fix k assume k: "k \<in> owned lookup s' ?user"
    from k have present: "lookup s' k \<noteq> None" by (auto simp: owned_def owner_def)
    then have "lifespan lookup s' k \<noteq> None" by (simp add: lifespan_def)
    with present have "k = sid \<or> lifespan lookup s' k = lifespan lookup s k"
      using others[rule_format, of k] by (cases "k = sid"; cases "replaced = Some k") auto
    with k show "k \<in> insert sid (owned lookup s ?user)" by (auto simp: owned_def owner_lifespan)
  qed
  moreover have "lifespan lookup s' k = lifespan lookup s k" if "owner lookup s k \<notin> {None, Some ?user}" "replaced \<noteq> Some k" for k
  proof -
    have "lookup s k \<noteq> None" "owner lookup s k \<noteq> Some ?user" using that by (auto simp: owner_def)
    with kept[rule_format, of k] that(2) show ?thesis by auto
  qed
  moreover have "lookup s' old = None" if "replaced = Some old" "old \<noteq> sid" for old using others that by auto
  ultimately show ?thesis
    using r account capped by (intro exI[of _ r] conjI) simp_all
qed

text \<open>A login of \<open>u1\<close> the admission made a plain user.\<close>

definition sample_admitted :: admitted_login where
  "sample_admitted = \<lparr>al_identity = \<lparr>oi_subject = py ''u1'', oi_issuer = [], oi_groups = [], oi_session_id = None,
        oi_preferred_username = None, oi_id_token = py ''i'', oi_refresh_token = None\<rparr>, al_role = py ''user''\<rparr>"

lemma sign_in_opens_one_session_witness:
  "\<exists>sid h. write_sign_in host_stores sample_admitted sample_config (Some (py ''s1'')) (Some 2) False sample_host = (Inr sid, h)
    \<and> card (owned host_lookup h (py ''u1'')) \<le> 2"
proof -
  have now: "whole_second_now sample_config h = (Inr (1000 * SECOND), h)" for h :: host
    by (simp add: whole_second_now_def sample_config_def bindA_def Let_def truncate_rat_def in_calendar_def SECOND_def)
  have expiry: "renewed_expiry (cf_session_lifetime (sample_config :: host web_auth_config)) (1000 * SECOND) (1000 * SECOND) = Inr (4600 * SECOND)"
    by (simp add: renewed_expiry_def sample_config_def datetime_add_def in_calendar_def Let_def SECOND_def)
  obtain sid h where run: "write_sign_in host_stores sample_admitted sample_config (Some (py ''s1'')) (Some 2) False sample_host = (Inr sid, h)"
    by (simp add: sample_admitted_def write_sign_in_def admit_account_def with_role_def host_defs on_memory_def mem_get_def mem_set_role_def
        sample_host_def bindA_def Let_def claimant_of_identity_def require_held_lock_def now expiry
        mem_delete_def remove_record_def mem_prune_overflow_def slice_from_def sorted_newest_first_def sessions_of_def
        liftR_def mem_create_def view_session_def)
  have subject: "oi_subject (al_identity sample_admitted) = py ''u1''" by (simp add: sample_admitted_def)
  have clock: "\<forall>s. cf_wall_clock sample_config s = (Inr 1000, s)" by (simp add: sample_config_def)
  have cap: "\<forall>n. Some (2::int) = Some n \<longrightarrow> 1 \<le> n" by simp
  show ?thesis
    using sign_in_opens_one_session[OF host.sign_in_contract_axioms sample_host_ok clock cap run] run
    by (auto simp: subject)
qed

end
