(* ===== verification/Logins.thy ===== *)
theory Logins
  imports RelyingParty
begin

text \<open>
  What the relying party's answers establish: which login a callback proves, what a callback that
  proves none costs, what the groups of a refresh, an access token and a logout token stand for, and
  that the authorization URL reads back as the parameters it was made of.
\<close>

section \<open>Steps of a login\<close>

lemma is_same_secret_True: "is_same_secret received expected = Inr True \<Longrightarrow> received = Some (PyStr expected) \<and> expected \<noteq> []"
  by (auto simp: is_same_secret_def bindR_eq_Inl dest: utf8_encode_inj split: option.splits pyobj.splits if_splits)

lemma is_same_secret_eval:
  "is_utf8 expected \<Longrightarrow> is_same_secret received expected = Inr (received = Some (PyStr expected) \<and> expected \<noteq> [])"
  by (cases "utf8_encode expected")
    (auto simp: is_same_secret_def is_utf8_def bindR_def dest: utf8_encode_inj split: option.splits pyobj.splits sum.splits)

lemma authorization_code_held:
  assumes "authorization_code rp pending callback s = (Inr (Inr code), s')"
  shows "map_of callback (py ''state'') = Some (pl_state pending)" "pl_state pending \<noteq> []"
    "\<exists>now. rp_wall_clock rp s = (Inr now, s') \<and> of_int (pl_issued_at pending) \<le> now \<and> now \<le> of_int (pl_issued_at pending) + 600"
    "map_of callback (py ''iss'') \<in> {None, Some (rp_issuer rp)}" "map_of callback (py ''error'') = None"
    "map_of callback (py ''code'') = Some code" "code \<noteq> []" "length code \<le> 2048"
proof -
  obtain same unexpired s1 where same: "is_same_secret (map_option PyStr (map_of callback (py ''state''))) (pl_state pending) = Inr same"
    and clock: "same \<Longrightarrow> is_unexpired rp pending s = (Inr unexpired, s1)"
    and rest: "(if \<not> same then refuse (refusal_for STATE_MISMATCH) s else
       if \<not> unexpired then refuse (refusal_for PENDING_LOGIN_EXPIRED) s1
     else if (case map_of callback (py ''iss'') of None \<Rightarrow> False | Some iss \<Rightarrow> iss \<noteq> cc_issuer (rp_config rp))
       then refuse (refusal_for ISSUER_MISMATCH) s1
     else (case map_of callback (py ''error'') of
       Some error \<Rightarrow> refuse ((refusal_for AUTHORIZATION_DENIED)\<lparr>or_idp_error := idp_error_code error\<rparr>) s1
     | None \<Rightarrow> (case map_of callback (py ''code'') of
         None \<Rightarrow> refuse (refusal_for MALFORMED_CALLBACK) s1
       | Some code \<Rightarrow>
           (if code = [] \<or> MAX_AUTHORIZATION_CODE_CHARS < length code then refuse (refusal_for MALFORMED_CALLBACK)
           else ret (Inr code)) s1))) = (Inr (Inr code), s')"
    using assms unfolding authorization_code_def bindA_eq_Inr
    by (auto simp: liftR_def bindA_eq_Inr split: if_splits option.splits)
  have s: "same" using rest by (auto simp: refuse_def split: if_splits)
  note rest1 = rest[simplified s, simplified]
  have u: "unexpired" using rest1 by (auto simp: refuse_def split: if_splits)
  show "map_of callback (py ''state'') = Some (pl_state pending)" "pl_state pending \<noteq> []"
    using is_same_secret_True[OF same[unfolded eqTrueI[OF s]]] by auto
  have r: "map_of callback (py ''iss'') \<in> {None, Some (rp_issuer rp)}" "map_of callback (py ''error'') = None"
    "map_of callback (py ''code'') = Some code" "code \<noteq> []" "length code \<le> 2048" "s1 = s'"
    using rest1 u by (auto simp: refuse_def rp_issuer_def MAX_AUTHORIZATION_CODE_CHARS_def split: if_splits option.splits)
  then show "map_of callback (py ''iss'') \<in> {None, Some (rp_issuer rp)}" "map_of callback (py ''error'') = None"
    "map_of callback (py ''code'') = Some code" "code \<noteq> []" "length code \<le> 2048" by blast+
  show "\<exists>now. rp_wall_clock rp s = (Inr now, s') \<and> of_int (pl_issued_at pending) \<le> now \<and> now \<le> of_int (pl_issued_at pending) + 600"
    using clock[OF s] u r(6) by (auto simp: is_unexpired_def bindA_eq_Inr Let_def PENDING_LOGIN_MAX_AGE_SECONDS_def)
qed

lemma token_answer_held:
  assumes "token_answer rp request s = (Inr (Inr document), s')"
  shows "\<exists>answer. rp_post_token_request rp request s = (Inr answer, s') \<and> ta_status answer = 200
    \<and> document = token_answer_document (rp_library rp) (ta_body answer)"
proof (cases "rp_post_token_request rp request s")
  case (Pair r s1)
  then show ?thesis
  proof (cases r)
    case (Inl e)
    with Pair assms show ?thesis by (cases e) (auto simp: token_answer_def refuse_def)
  next
    case (Inr answer)
    with Pair assms show ?thesis
      by (auto simp: token_answer_def judged_token_answer_def Let_def split: if_splits bool.splits option.splits pyobj.splits)
  qed
qed

lemma raw_id_token_of_Inr: "raw_id_token_of document = Inr t \<longleftrightarrow> map_of document (py ''id_token'') = Some (PyStr t)"
  by (auto simp: raw_id_token_of_def split: option.splits pyobj.splits)

lemma verified_id_token_held:
  "verified_id_token rp t s = (Inr (Inr c), s') \<Longrightarrow> verify (rp_library rp) (rp_jwt_verifier rp) t None None s = (Inr (Inr c), s')"
  by (simp add: verified_id_token_def refusing_held)

lemma exchanged_tokens_held:
  assumes "exchanged_tokens rp pending code s = (Inr (Inr (raw, refresh)), s')"
  shows "\<exists>answer. rp_post_token_request rp (code_grant rp pending code) s = (Inr answer, s') \<and> ta_status answer = 200
    \<and> map_of (token_answer_document (rp_library rp) (ta_body answer)) (py ''id_token'') = Some (PyStr raw)
    \<and> issued_refresh_token (token_answer_document (rp_library rp) (ta_body answer)) = Inr refresh"
  using assms unfolding exchanged_tokens_def bindV_eq_Inr by (auto simp: raw_id_token_of_Inr dest!: token_answer_held)

lemma identity_of_Inr:
  assumes "identity_of c raw refresh = Inr identity"
  shows "vc_subject c = Some (oi_subject identity)" "oi_issuer identity = vc_issuer c"
    "group_paths (vc_claims c) = Some (oi_groups identity)" "oi_id_token identity = raw" "oi_refresh_token identity = refresh"
  using assms by (auto simp: identity_of_def split: option.splits)

lemma issued_refresh_token_Some: "issued_refresh_token document = Inr (Some t) \<Longrightarrow> is_refresh_token_text t"
  by (auto simp: issued_refresh_token_def split: option.splits pyobj.splits if_splits)

lemma verify_access_jwt_held:
  "verify_access_jwt lib v t s = (Inr (Inr c), s') \<Longrightarrow> verify lib v t None (Some ACCESS_TOKEN_MEDIA_TYPES) s = (Inr (Inr c), s')"
  by (simp add: verify_access_jwt_def refusing_held)

lemma access_token_profile_Inr:
  assumes "access_token_profile c parties audience = Inr accepted"
  shows "vc_subject c = Some (va_subject accepted)" "vc_audiences c = [PyStr audience]"
    "\<exists>azp. map_of (vc_claims c) (py ''azp'') = Some (PyStr azp) \<and> azp \<in> client_ids parties"
    "group_paths (vc_claims c) = Some (va_groups accepted)"
  using assms by (auto simp: access_token_profile_def admits_party_iff split: option.splits if_splits)

lemma expected_media_type_held:
  assumes "has_expected_type header None (Some types)"
  shows "\<exists>declared. map_of header (py ''typ'') = Some (PyStr declared) \<and> PyStr (lower_py declared) \<in> set types"
proof (cases "map_of header (py ''typ'')")
  case (Some v)
  with assms show ?thesis by (cases v) (simp_all add: has_expected_type_def)
qed (use assms in \<open>simp add: has_expected_type_def\<close>)

lemma is_backchannel_logout_events_held:
  assumes "is_backchannel_logout_events events"
  shows "\<exists>members. events = Some (PyDict members) \<and> fst ` set members = {BACKCHANNEL_LOGOUT_EVENT}"
proof (cases events)
  case (Some v)
  with assms show ?thesis by (cases v) (simp_all add: is_backchannel_logout_events_def)
qed (use assms in \<open>simp add: is_backchannel_logout_events_def\<close>)

lemma holds_scope_held:
  assumes "holds_scope claims scope"
  shows "\<exists>granted. map_of claims (py ''scope'') = Some (PyStr granted) \<and> scope \<in> set (split_on 32 granted)"
proof (cases "map_of claims (py ''scope'')")
  case (Some v)
  with assms show ?thesis by (cases v) (simp_all add: holds_scope_def)
qed (use assms in \<open>simp add: holds_scope_def\<close>)

section \<open>A relying party to evaluate\<close>

text \<open>In the world of \<open>sample_verifier\<close>: the token endpoint answers the code grant with the ID token
  \<open>id\<close> and any other grant with \<open>rf\<close>; \<open>at\<close> is an access token and \<open>lo\<close> a logout token.\<close>

definition sample_claims :: "pystr \<Rightarrow> json_object" where
  "sample_claims token =
     [(py ''exp'', PyInt 200), (py ''iat'', PyInt 148), (py ''aud'', PyStr (py ''app'')), (py ''sub'', PyStr (py ''u1''))]
     @ (if token = py ''id'' then [(py ''nonce'', PyStr (py ''n1''))]
        else if token = py ''at'' then [(py ''azp'', PyStr (py ''cli'')), (py ''scope'', PyStr (py ''openid mcp''))]
        else if token = py ''lo'' then [(py ''events'', PyDict [(BACKCHANNEL_LOGOUT_EVENT, PyDict [])])]
        else [])"

definition sample_login_library :: "unit jwt_library" where
  "sample_login_library = \<lparr>jl_unverified_header = (\<lambda>token. Some [(py ''alg'', PyStr (py ''RS256'')),
       (py ''typ'', PyStr (if token = py ''at'' then py ''AT+jwt'' else py ''logout+jwt''))]),
     jl_decode = (\<lambda>token _ _ _. Inr (sample_claims token)),
     jl_public_key = (\<lambda>_ _. Some ()), jl_key_size = (\<lambda>_. 2048),
     jl_json = (\<lambda>body. Some (PyDict [(py ''id_token'', PyStr (if body = [1] then py ''id'' else py ''rf''))]))\<rparr>"

definition sample_client :: oidc_client_config where
  "sample_client = \<lparr>cc_issuer = py ''https://id.example'', cc_authorization_endpoint = py ''https://id.example/auth'',
     cc_token_endpoint = py ''https://id.example/token'', cc_jwks_url = py ''https://id.example/keys'',
     cc_end_session_endpoint = py ''https://id.example/out'', cc_client_id = py ''app'', cc_client_secret = py ''s'',
     cc_redirect_uri = py ''https://app.example/cb'', cc_post_logout_redirect_uri = py ''https://app.example/'',
     cc_scopes = [py ''openid''], cc_leeway_seconds = PyInt 5\<rparr>"

definition sample_rp :: "(unit verifier_world, unit) relying_party" where
  "sample_rp = \<lparr>rp_config = sample_client, rp_library = sample_login_library,
     rp_post_token_request = (\<lambda>request. ret \<lparr>ta_status = 200,
       ta_body = (if snd (hd (tr_form request)) = py ''authorization_code'' then [1] else [2])\<rparr>),
     rp_fetch_key_set = (\<lambda>_. raise KeySetFetchError), rp_wall_clock = readA vw_wall, rp_monotonic_clock = readA vw_monotonic,
     rp_token_urlsafe = ret (py ''r1''), rp_client_authorization = py ''Basic x'', rp_jwt_verifier = sample_verifier\<rparr>"

definition sample_begun :: pending_login where
  "sample_begun = \<lparr>pl_state = py ''s1'', pl_nonce = py ''n1'', pl_code_verifier = py ''v1'', pl_issued_at = 100, pl_return_to = None\<rparr>"

definition sample_callback :: pystr where "sample_callback = py ''state=s1&code=c1''"

definition sample_verified_claims :: "pystr \<Rightarrow> verified_claims" where
  "sample_verified_claims token = \<lparr>vc_subject = Some (py ''u1''), vc_issuer = py ''https://id.example'', vc_audiences = [PyStr (py ''app'')],
     vc_expires_at = 200, vc_issued_at = 148, vc_claims = sample_claims token\<rparr>"

lemma sample_claims_lookup [simp]:
  "map_of (sample_claims token) (py ''exp'') = Some (PyInt 200)" "map_of (sample_claims token) (py ''iat'') = Some (PyInt 148)"
  "map_of (sample_claims token) (py ''nbf'') = None" "subject_of (sample_claims token) = Inr (Some (py ''u1''))"
  "audiences_of (sample_claims token) = Inr [PyStr (py ''app'')]" "group_paths (sample_claims token) = Some []"
  "optional_string_claim (sample_claims token) (py ''sid'') = Inr None"
  "optional_string_claim (sample_claims token) (py ''preferred_username'') = Inr None"
  by (simp_all add: sample_claims_def subject_of_def audiences_of_def group_paths_def groups_claim_def optional_string_claim_def
      map_of_append map_add_def)

lemma sample_tokens_verify:
  "verify sample_login_library sample_verifier (py ''id'') None None sample_world = (Inr (Inr (sample_verified_claims (py ''id''))), sample_world)"
  "verify sample_login_library sample_verifier (py ''rf'') None None sample_world = (Inr (Inr (sample_verified_claims (py ''rf''))), sample_world)"
  "verify sample_login_library sample_verifier (py ''at'') None (Some ACCESS_TOKEN_MEDIA_TYPES) sample_world
    = (Inr (Inr (sample_verified_claims (py ''at''))), sample_world)"
  "verify sample_login_library sample_verifier (py ''lo'') (Some (py ''logout+jwt'')) None sample_world
    = (Inr (Inr (sample_verified_claims (py ''lo''))), sample_world)"
proof -
  have "jl_decode sample_login_library t () auds iss = Inr (sample_claims t)" for t auds iss by (simp add: sample_login_library_def)
  moreover have "judged_header sample_login_library (py ''id'') None None = Inr None"
    "judged_header sample_login_library (py ''rf'') None None = Inr None"
    "judged_header sample_login_library (py ''at'') None (Some ACCESS_TOKEN_MEDIA_TYPES) = Inr None"
    "judged_header sample_login_library (py ''lo'') (Some (py ''logout+jwt'')) None = Inr None"
    "require_comparable_types None (Some ACCESS_TOKEN_MEDIA_TYPES) = Inr ()"
    by (simp_all add: judged_header_def sample_login_library_def has_expected_type_def header_key_id_def RS256_def
        MAX_TOKEN_CHARACTERS_def MAX_HEADER_SEGMENT_CHARACTERS_def require_comparable_types_def ACCESS_TOKEN_MEDIA_TYPES_def text_eval)
  moreover have "require_comparable_types et None = Inr ()" for et by (simp add: require_comparable_types_def)
  ultimately show
    "verify sample_login_library sample_verifier (py ''id'') None None sample_world = (Inr (Inr (sample_verified_claims (py ''id''))), sample_world)"
    "verify sample_login_library sample_verifier (py ''rf'') None None sample_world = (Inr (Inr (sample_verified_claims (py ''rf''))), sample_world)"
    "verify sample_login_library sample_verifier (py ''at'') None (Some ACCESS_TOKEN_MEDIA_TYPES) sample_world
      = (Inr (Inr (sample_verified_claims (py ''at''))), sample_world)"
    "verify sample_login_library sample_verifier (py ''lo'') (Some (py ''logout+jwt'')) None sample_world
      = (Inr (Inr (sample_verified_claims (py ''lo''))), sample_world)"
    unfolding sample_verified_claims_def by (intro sample_world_verifies; simp)+
qed

lemma sample_callback_parameters:
  "callback_parameters sample_callback = Inr [(py ''state'', py ''s1''), (py ''code'', py ''c1'')]"
  by (simp add: callback_parameters_def sample_callback_def parse_qsl_def parse_field_def unquote_plus_def utf8_encode_ascii text_eval)

lemma sample_rp_parts [simp]:
  "rp_library sample_rp = sample_login_library" "rp_jwt_verifier sample_rp = sample_verifier" "rp_wall_clock sample_rp = readA vw_wall"
  "cc_client_id (rp_config sample_rp) = py ''app''" "rp_leeway sample_rp = 5"
  by (simp_all add: sample_rp_def sample_client_def rp_leeway_def sample_verifier_def world_verifier_def)

lemma sample_completed:
  "\<exists>identity. complete_login sample_rp sample_begun sample_callback sample_world = (Inr (Inr identity), sample_world)
    \<and> oi_subject identity = py ''u1''"
proof -
  have utf8: "is_utf8 (py ''s1'')" "is_utf8 (py ''n1'')" by (simp_all add: is_utf8_def utf8_encode_ascii text_eval)
  have code: "authorization_code sample_rp sample_begun [(py ''state'', py ''s1''), (py ''code'', py ''c1'')] sample_world
      = (Inr (Inr (py ''c1'')), sample_world)"
    by (simp add: authorization_code_def sample_begun_def is_same_secret_eval utf8 is_unexpired_def sample_rp_def readA_def bindA_def
        PENDING_LOGIN_MAX_AGE_SECONDS_def MAX_AUTHORIZATION_CODE_CHARS_def sample_world_def)
  have tokens: "exchanged_tokens sample_rp sample_begun (py ''c1'') sample_world = (Inr (Inr (py ''id'', None)), sample_world)"
    by (simp add: exchanged_tokens_def token_answer_def code_grant_def grant_request_def sample_rp_def judged_token_answer_def
        token_answer_document_def json_object_def sample_login_library_def raw_id_token_of_def issued_refresh_token_def bindV_def bindA_def
        MAX_TOKEN_RESPONSE_BYTES_def)
  have id_token: "verified_id_token sample_rp (py ''id'') sample_world = (Inr (Inr (sample_verified_claims (py ''id''))), sample_world)"
    by (simp add: verified_id_token_def sample_rp_def bindA_def sample_tokens_verify)
  have begun: "pl_nonce sample_begun = py ''n1''" by (simp add: sample_begun_def)
  have nonce: "map_of (sample_claims (py ''id'')) (py ''nonce'') = Some (PyStr (py ''n1''))"
    "map_of (sample_claims (py ''id'')) (py ''azp'') = None"
    by (simp_all add: sample_claims_def)
  show ?thesis
    by (simp add: complete_login_def sample_callback_parameters)
      (simp add: bindV_def bindA_def code tokens id_token nonce sample_verified_claims_def is_same_secret_eval utf8 begun
        is_authorized_party_def identity_of_def)
qed

section \<open>Properties\<close>

text \<open>C1. A completed login was proven, step by step: the callback names each parameter once and carries this
  pending login's state; by the wall clock the login was begun at most 600 seconds ago and not in the
  future; an issuer the callback names is the configured one, it reports no error and has a code of at
  most 2048 characters; the token endpoint answered 200 to the grant of that very code under this
  login's code verifier; the ID token in the answer verified, its nonce is this login's and it was issued
  to this client; subject, issuer and groups are the token's, and a refresh token handed on is
  printable.\<close>

theorem completed_login_is_proven:
  assumes "complete_login rp pending callback_query s = (Inr (Inr identity), s')"
  shows "\<exists>callback code now s1 answer s2 c. callback_parameters callback_query = Inr callback
    \<and> map_of callback (py ''state'') = Some (pl_state pending) \<and> pl_state pending \<noteq> []
    \<and> rp_wall_clock rp s = (Inr now, s1)
    \<and> of_int (pl_issued_at pending) \<le> now \<and> now \<le> of_int (pl_issued_at pending) + 600
    \<and> map_of callback (py ''iss'') \<in> {None, Some (rp_issuer rp)} \<and> map_of callback (py ''error'') = None
    \<and> map_of callback (py ''code'') = Some code \<and> code \<noteq> [] \<and> length code \<le> 2048
    \<and> rp_post_token_request rp (code_grant rp pending code) s1 = (Inr answer, s2) \<and> ta_status answer = 200
    \<and> map_of (token_answer_document (rp_library rp) (ta_body answer)) (py ''id_token'') = Some (PyStr (oi_id_token identity))
    \<and> verify (rp_library rp) (rp_jwt_verifier rp) (oi_id_token identity) None None s2 = (Inr (Inr c), s')
    \<and> map_of (vc_claims c) (py ''nonce'') = Some (PyStr (pl_nonce pending)) \<and> pl_nonce pending \<noteq> []
    \<and> is_authorized_party (cc_client_id (rp_config rp)) c
    \<and> vc_subject c = Some (oi_subject identity) \<and> oi_issuer identity = vc_issuer c
    \<and> group_paths (vc_claims c) = Some (oi_groups identity)
    \<and> (\<forall>t. oi_refresh_token identity = Some t \<longrightarrow> is_refresh_token_text t)"
proof -
  obtain callback code raw refresh s1 s2 c s3 same where cb: "callback_parameters callback_query = Inr callback"
    and code: "authorization_code rp pending callback s = (Inr (Inr code), s1)"
    and tokens: "exchanged_tokens rp pending code s1 = (Inr (Inr (raw, refresh)), s2)"
    and id_token: "verified_id_token rp raw s2 = (Inr (Inr c), s3)"
    and same: "is_same_secret (map_of (vc_claims c) (py ''nonce'')) (pl_nonce pending) = Inr same"
    and rest: "(if \<not> same then refuse (refusal_for NONCE_MISMATCH)
     else if \<not> is_authorized_party (cc_client_id (rp_config rp)) c
       then refuse (refusal_for AUTHORIZED_PARTY_MISMATCH)
     else ret (identity_of c raw refresh)) s3 = (Inr (Inr identity), s')"
    using assms unfolding complete_login_def by (auto simp: liftR_def bindV_eq_Inr bindA_eq_Inr)
  have r: "same" "is_authorized_party (cc_client_id (rp_config rp)) c" "identity_of c raw refresh = Inr identity" "s3 = s'"
    using rest by (auto simp: refuse_def split: if_splits)
  note nonce = is_same_secret_True[OF same[unfolded eqTrueI[OF r(1)]]] and identity = identity_of_Inr[OF r(3)]
  have v: "verify (rp_library rp) (rp_jwt_verifier rp) (oi_id_token identity) None None s2 = (Inr (Inr c), s')"
    using verified_id_token_held[OF id_token] r(4) identity(4) by simp
  obtain answer where answer: "rp_post_token_request rp (code_grant rp pending code) s1 = (Inr answer, s2)" "ta_status answer = 200"
      "map_of (token_answer_document (rp_library rp) (ta_body answer)) (py ''id_token'') = Some (PyStr (oi_id_token identity))"
      "issued_refresh_token (token_answer_document (rp_library rp) (ta_body answer)) = Inr refresh"
    using exchanged_tokens_held[OF tokens] identity(4) by auto
  have t: "\<forall>t. oi_refresh_token identity = Some t \<longrightarrow> is_refresh_token_text t"
    using answer(4) identity(5) by (auto dest: issued_refresh_token_Some)
  obtain now where now: "rp_wall_clock rp s = (Inr now, s1)" "of_int (pl_issued_at pending) \<le> now" "now \<le> of_int (pl_issued_at pending) + 600"
    using authorization_code_held(3)[OF code] by blast
  note a = authorization_code_held(1,2)[OF code] authorization_code_held(4-8)[OF code]
  show ?thesis
    by (rule exI[of _ callback], rule exI[of _ code], rule exI[of _ now], rule exI[of _ s1], rule exI[of _ answer],
        rule exI[of _ s2], rule exI[of _ c]) (use cb a now answer(1-3) v nonce r(2) identity(1-3) t in blast)
qed

lemma completed_login_is_proven_witness:
  "\<exists>identity (c :: verified_claims). complete_login sample_rp sample_begun sample_callback sample_world = (Inr (Inr identity), sample_world)
    \<and> map_of (vc_claims c) (py ''nonce'') = Some (PyStr (pl_nonce sample_begun))
    \<and> vc_subject c = Some (oi_subject identity)"
proof -
  obtain identity where login: "complete_login sample_rp sample_begun sample_callback sample_world = (Inr (Inr identity), sample_world)"
    using sample_completed by blast
  obtain c :: verified_claims where "map_of (vc_claims c) (py ''nonce'') = Some (PyStr (pl_nonce sample_begun))" "vc_subject c = Some (oi_subject identity)"
    using completed_login_is_proven[OF login] by (elim exE conjE) (rule that, assumption+)
  with login show ?thesis by blast
qed

text \<open>C38. A callback that proves nothing costs nothing. Unless it carries this login's state, within its 600
  seconds, from the configured issuer, without an error and with a code, the answer is a refusal that
  names which, nothing is posted and no key is fetched: the host's state is as it was. A callback whose
  state is another's is refused as such, whatever else it says.\<close>

theorem unproven_callback_costs_nothing:
  assumes "rp_wall_clock rp = readA clock" and "is_utf8 (pl_state pending)"
    and "\<not> (\<exists>callback code. callback_parameters callback_query = Inr callback
      \<and> map_of callback (py ''state'') = Some (pl_state pending) \<and> pl_state pending \<noteq> []
      \<and> 0 \<le> clock s - of_int (pl_issued_at pending) \<and> clock s - of_int (pl_issued_at pending) \<le> 600
      \<and> map_of callback (py ''iss'') \<in> {None, Some (rp_issuer rp)} \<and> map_of callback (py ''error'') = None
      \<and> map_of callback (py ''code'') = Some code \<and> code \<noteq> [] \<and> length code \<le> 2048)"
  shows "\<exists>refusal. complete_login rp pending callback_query s = (Inr (Inl refusal), s)
    \<and> or_reason refusal \<in> {MALFORMED_CALLBACK, STATE_MISMATCH, PENDING_LOGIN_EXPIRED, ISSUER_MISMATCH, AUTHORIZATION_DENIED}
    \<and> (\<forall>callback. callback_parameters callback_query = Inr callback \<and> map_of callback (py ''state'') \<noteq> Some (pl_state pending)
        \<longrightarrow> or_reason refusal = STATE_MISMATCH)"
proof (cases "callback_parameters callback_query")
  case (Inl refusal)
  then have "refusal = refusal_for MALFORMED_CALLBACK"
    by (auto simp: callback_parameters_def split: sum.splits if_splits)
  with Inl show ?thesis by (simp add: complete_login_def refusal_for_def)
next
  case (Inr callback)
  let ?early = "{MALFORMED_CALLBACK, STATE_MISMATCH, PENDING_LOGIN_EXPIRED, ISSUER_MISMATCH, AUTHORIZATION_DENIED}"
  have "\<exists>refusal. authorization_code rp pending callback s = (Inr (Inl refusal), s) \<and> or_reason refusal \<in> ?early
      \<and> (map_of callback (py ''state'') \<noteq> Some (pl_state pending) \<longrightarrow> or_reason refusal = STATE_MISMATCH)"
    using assms(3) Inr
    by (auto simp: authorization_code_def is_same_secret_eval[OF assms(2)] is_unexpired_def assms(1) readA_def refuse_def refusal_for_def
        bindA_def Let_def rp_issuer_def PENDING_LOGIN_MAX_AGE_SECONDS_def MAX_AUTHORIZATION_CODE_CHARS_def
        split: option.split)
  with Inr show ?thesis by (auto simp: complete_login_def bindV_def bindA_def)
qed

lemma unproven_callback_costs_nothing_witness:
  "\<exists>refusal. complete_login sample_rp sample_begun (py ''state=s2&error=x'') sample_world = (Inr (Inl refusal), sample_world)"
proof -
  have other: "callback_parameters (py ''state=s2&error=x'') = Inr [(py ''state'', py ''s2''), (py ''error'', py ''x'')]"
    by (simp add: callback_parameters_def parse_qsl_def parse_field_def unquote_plus_def utf8_encode_ascii text_eval)
  have "is_utf8 (pl_state sample_begun)" by (simp add: sample_begun_def is_utf8_def utf8_encode_ascii text_eval)
  moreover have "rp_wall_clock sample_rp = readA vw_wall" by (simp add: sample_rp_def)
  ultimately show ?thesis
    using unproven_callback_costs_nothing[of sample_rp vw_wall sample_begun "py ''state=s2&error=x''" sample_world]
    by (auto simp: other sample_begun_def)
qed

text \<open>An access token a protected resource accepts was verified as RFC 9068 asks and more: its header
  declares an access-token type, it was issued for this resource alone, by a client the host admits, it
  names a subject, grants the resource's scope, and its groups are a list of texts or absent.\<close>

theorem resource_token_holds:
  assumes "verify_resource_token lib verifier resource_url scope parties access_token s = (Inr (Inr accepted), s')"
  shows "\<exists>c header declared. verify lib verifier access_token None (Some ACCESS_TOKEN_MEDIA_TYPES) s = (Inr (Inr c), s')
    \<and> jl_unverified_header lib access_token = Some header \<and> map_of header (py ''typ'') = Some (PyStr declared)
    \<and> lower_py declared \<in> {py ''at+jwt'', py ''application/at+jwt''}
    \<and> vc_subject c = Some (va_subject accepted) \<and> va_subject accepted \<noteq> []
    \<and> vc_audiences c = [PyStr resource_url]
    \<and> (\<exists>azp. map_of (vc_claims c) (py ''azp'') = Some (PyStr azp) \<and> azp \<in> client_ids parties)
    \<and> (\<exists>granted. map_of (vc_claims c) (py ''scope'') = Some (PyStr granted) \<and> scope \<in> set (split_on 32 granted))
    \<and> group_paths (vc_claims c) = Some (va_groups accepted)"
proof -
  obtain c s1 where c: "verify_access_jwt lib verifier access_token s = (Inr (Inr c), s1)"
    and rest: "(case access_token_profile c parties resource_url of
         Inl refusal \<Rightarrow> refuse refusal
       | Inr profile \<Rightarrow>
           if \<not> holds_scope (vc_claims c) scope then refuse (refusal_for INSUFFICIENT_SCOPE)
           else ret (Inr profile)) s1 = (Inr (Inr accepted), s')"
    using assms unfolding verify_resource_token_def bindV_eq_Inr by blast
  have profile: "access_token_profile c parties resource_url = Inr accepted" and scope: "holds_scope (vc_claims c) scope" and "s1 = s'"
    using rest by (auto simp: refuse_def split: sum.splits if_splits)
  have v: "verify lib verifier access_token None (Some ACCESS_TOKEN_MEDIA_TYPES) s = (Inr (Inr c), s')"
    using verify_access_jwt_held[OF c] \<open>s1 = s'\<close> by simp
  note claims = verified_claims_held[OF v] and p = access_token_profile_Inr[OF profile]
  obtain header declared where header: "jl_unverified_header lib access_token = Some header" "map_of header (py ''typ'') = Some (PyStr declared)"
      "lower_py declared \<in> {py ''at+jwt'', py ''application/at+jwt''}"
    using claims(1) expected_media_type_held unfolding ACCESS_TOKEN_MEDIA_TYPES_def by fastforce
  have "va_subject accepted \<noteq> []" using claims(4) p(1) by auto
  have "\<exists>granted. map_of (vc_claims c) (py ''scope'') = Some (PyStr granted) \<and> scope \<in> set (split_on 32 granted)"
    by (rule holds_scope_held[OF scope])
  show ?thesis by (rule exI[of _ c], rule exI[of _ header], rule exI[of _ declared], intro conjI) fact+
qed

lemma resource_token_holds_witness:
  "\<exists>accepted. verify_resource_token sample_login_library sample_verifier (py ''app'') (py ''mcp'') \<lparr>client_ids = {py ''cli''}\<rparr> (py ''at'')
      sample_world = (Inr (Inr accepted), sample_world) \<and> va_subject accepted \<noteq> []"
proof -
  have claims: "map_of (sample_claims (py ''at'')) (py ''azp'') = Some (PyStr (py ''cli''))"
    "map_of (sample_claims (py ''at'')) (py ''scope'') = Some (PyStr (py ''openid mcp''))"
    "map_of (sample_claims (py ''at'')) (py ''preferred_username'') = None"
    by (simp_all add: sample_claims_def)
  have scope: "py ''mcp'' \<in> set (split_on 32 (py ''openid mcp''))" by (simp add: text_eval)
  have "verify_resource_token sample_login_library sample_verifier (py ''app'') (py ''mcp'') \<lparr>client_ids = {py ''cli''}\<rparr> (py ''at'') sample_world
      = (Inr (Inr \<lparr>va_subject = py ''u1'', va_groups = [], va_preferred_username = None\<rparr>), sample_world)"
    by (simp add: verify_resource_token_def verify_access_jwt_def bindV_def bindA_def sample_tokens_verify access_token_profile_def
        sample_verified_claims_def claims holds_scope_def scope)
  with resource_token_holds[OF this] show ?thesis by auto
qed

text \<open>A logout token that ends a subject's sessions was verified as a \<open>logout+jwt\<close> for this client alone,
  was issued, by the wall clock, no more than 120 seconds and the leeway ago, expires after it was issued,
  carries no nonce, and its one event is the back-channel logout event with an object.\<close>

theorem logout_token_holds:
  assumes "verify_logout_token rp logout_token s = (Inr (Inr subject), s')"
  shows "\<exists>c s1 now members. verify (rp_library rp) (rp_jwt_verifier rp) logout_token (Some (py ''logout+jwt'')) None s = (Inr (Inr c), s1)
    \<and> vc_subject c = Some subject \<and> subject \<noteq> [] \<and> vc_audiences c = [PyStr (cc_client_id (rp_config rp))]
    \<and> rp_wall_clock rp s1 = (Inr now, s') \<and> now \<le> of_int (vc_issued_at c + 120 + rp_leeway rp)
    \<and> vc_issued_at c < vc_expires_at c \<and> map_of (vc_claims c) (py ''nonce'') = None
    \<and> map_of (vc_claims c) (py ''events'') = Some (PyDict members)
    \<and> fst ` set members = {py ''http://schemas.openid.net/event/backchannel-logout''}"
proof -
  obtain outcome s1 where outcome: "verify (rp_library rp) (rp_jwt_verifier rp) logout_token (Some (py ''logout+jwt'')) None s = (Inr outcome, s1)"
    and rest: "(case outcome of
       Inl reason \<Rightarrow> refuse ((refusal_for LOGOUT_TOKEN_REJECTED)\<lparr>or_token_rejection := Some reason\<rparr>)
     | Inr token \<Rightarrow> bindA (is_logout_profile rp token) (\<lambda>holds.
         case (holds, vc_subject token) of
           (True, Some subject) \<Rightarrow> ret (Inr subject)
         | _ \<Rightarrow> refuse (refusal_for INVALID_LOGOUT_CLAIM))) s1 = (Inr (Inr subject), s')"
    using assms unfolding verify_logout_token_def bindA_eq_Inr by blast
  obtain c where c: "outcome = Inr c" using rest by (cases outcome) (auto simp: refuse_def)
  obtain holds s2 where holds: "is_logout_profile rp c s1 = (Inr holds, s2)"
    and last: "(case (holds, vc_subject c) of (True, Some subject) \<Rightarrow> ret (Inr subject)
         | _ \<Rightarrow> refuse (refusal_for INVALID_LOGOUT_CLAIM)) s2 = (Inr (Inr subject), s')"
    using rest unfolding c by (auto simp: bindA_eq_Inr)
  have h: "holds" "vc_subject c = Some subject" "s2 = s'"
    using last by (auto simp: refuse_def split: bool.splits option.splits)
  obtain now where now: "rp_wall_clock rp s1 = (Inr now, s')" "now - of_int (vc_issued_at c) \<le> of_int (120 + rp_leeway rp)"
    and p: "vc_audiences c = [PyStr (cc_client_id (rp_config rp))]" "vc_issued_at c < vc_expires_at c"
      "map_of (vc_claims c) (py ''nonce'') = None" "is_backchannel_logout_events (map_of (vc_claims c) (py ''events''))"
    using holds h by (auto simp: is_logout_profile_def bindA_eq_Inr Let_def LOGOUT_TOKEN_MAX_AGE_SECONDS_def)
  obtain members where m: "map_of (vc_claims c) (py ''events'') = Some (PyDict members)"
      "fst ` set members = {py ''http://schemas.openid.net/event/backchannel-logout''}"
    using is_backchannel_logout_events_held[OF p(4)] unfolding BACKCHANNEL_LOGOUT_EVENT_def by blast
  have "now \<le> of_int (vc_issued_at c + 120 + rp_leeway rp)" using now(2) by simp
  have "subject \<noteq> []" using verified_claims_held(4)[OF outcome[unfolded c]] h(2) by auto
  show ?thesis
    by (rule exI[of _ c], rule exI[of _ s1], rule exI[of _ now], rule exI[of _ members], intro conjI)
      (fact outcome[unfolded c] | fact)+
qed

lemma logout_token_holds_witness:
  "\<exists>subject. verify_logout_token sample_rp (py ''lo'') sample_world = (Inr (Inr subject), sample_world) \<and> subject \<noteq> []"
proof -
  have claims: "map_of (sample_claims (py ''lo'')) (py ''nonce'') = None"
    "map_of (sample_claims (py ''lo'')) (py ''events'') = Some (PyDict [(BACKCHANNEL_LOGOUT_EVENT, PyDict [])])"
    by (simp_all add: sample_claims_def)
  have "vw_wall sample_world = 150" by (simp add: sample_world_def)
  then have "verify_logout_token sample_rp (py ''lo'') sample_world = (Inr (Inr (py ''u1'')), sample_world)"
    by (simp add: verify_logout_token_def bindA_def sample_tokens_verify is_logout_profile_def sample_verified_claims_def
        claims is_backchannel_logout_events_def readA_def LOGOUT_TOKEN_MAX_AGE_SECONDS_def)
  with logout_token_holds[OF this] show ?thesis by auto
qed

text \<open>The groups a refresh answers are this subject's and fresh: the refresh token sent was printable, the
  ID token in the 200 answer verified, carries no nonce, was issued to this client for this very subject
  and, within the leeway, not before the whole second the grant began at.\<close>

theorem refreshed_groups_hold:
  assumes "refreshed_groups_of rp refresh_token subject s = (Inr (Inr refreshed), s')" and "rg_groups refreshed = Inr paths"
  shows "\<exists>now s1 answer s2 raw c. is_refresh_token_text refresh_token
    \<and> rp_wall_clock rp s = (Inr now, s1)
    \<and> rp_post_token_request rp (refresh_grant rp refresh_token) s1 = (Inr answer, s2) \<and> ta_status answer = 200
    \<and> map_of (token_answer_document (rp_library rp) (ta_body answer)) (py ''id_token'') = Some (PyStr raw)
    \<and> verify (rp_library rp) (rp_jwt_verifier rp) raw None None s2 = (Inr (Inr c), s')
    \<and> map_of (vc_claims c) (py ''nonce'') = None \<and> is_authorized_party (cc_client_id (rp_config rp)) c
    \<and> vc_subject c = Some subject \<and> truncate_rat now \<le> vc_issued_at c + rp_leeway rp
    \<and> group_paths (vc_claims c) = Some paths"
proof -
  obtain now s1 document s2 rotated r s3 where clock: "rp_wall_clock rp s = (Inr now, s1)"
    and answer: "refresh_answer rp refresh_token s1 = (Inr (Inr document), s2)"
    and last: "refreshed_id_token_groups rp document subject (truncate_rat now) s2 = (Inr r, s')"
    and refreshed: "refreshed = \<lparr>rg_refresh_token = rotated, rg_groups = r\<rparr>"
    using assms(1) unfolding refreshed_groups_of_def by (auto simp: bindV_eq_Inr bindA_eq_Inr)
  have r: "r = Inr paths" using refreshed assms(2) by simp
  have sent: "is_refresh_token_text refresh_token" and token: "token_answer rp (refresh_grant rp refresh_token) s1 = (Inr (Inr document), s2)"
    using answer by (auto simp: refresh_answer_def refuse_def split: if_splits)
  obtain raw c s4 where raw: "map_of document (py ''id_token'') = Some (PyStr raw)"
    and id_token: "verified_id_token rp raw s2 = (Inr (Inr c), s4)"
    and rest: "(if map_of (vc_claims c) (py ''nonce'') \<noteq> None then refuse (refusal_for NONCE_MISMATCH)
       else if \<not> is_authorized_party (cc_client_id (rp_config rp)) c
         then refuse (refusal_for AUTHORIZED_PARTY_MISMATCH)
       else if vc_subject c \<noteq> Some subject then refuse (refusal_for SUBJECT_MISMATCH)
       else if vc_issued_at c + rp_leeway rp < truncate_rat now then refuse (refusal_for STALE_ID_TOKEN)
       else case group_paths (vc_claims c) of
         None \<Rightarrow> refuse (refusal_for INVALID_IDENTITY_CLAIM)
       | Some paths \<Rightarrow> ret (Inr paths)) s4 = (Inr (Inr paths), s')"
    using last[unfolded r] unfolding refreshed_id_token_groups_def by (auto simp: bindV_eq_Inr raw_id_token_of_Inr)
  have h: "map_of (vc_claims c) (py ''nonce'') = None" "is_authorized_party (cc_client_id (rp_config rp)) c"
      "vc_subject c = Some subject" "truncate_rat now \<le> vc_issued_at c + rp_leeway rp" "group_paths (vc_claims c) = Some paths" "s4 = s'"
    using rest by (auto simp: refuse_def split: if_splits option.splits)
  obtain reply where "rp_post_token_request rp (refresh_grant rp refresh_token) s1 = (Inr reply, s2)" "ta_status reply = 200"
      "document = token_answer_document (rp_library rp) (ta_body reply)"
    using token_answer_held[OF token] by blast
  with sent clock raw verified_id_token_held[OF id_token] h show ?thesis by blast
qed

lemma refreshed_groups_hold_witness:
  "\<exists>refreshed (c :: verified_claims). refreshed_groups_of sample_rp (py ''t1'') (py ''u1'') sample_world = (Inr (Inr refreshed), sample_world)
    \<and> rg_groups refreshed = Inr [] \<and> vc_subject c = Some (py ''u1'') \<and> group_paths (vc_claims c) = Some []"
proof -
  have claims: "map_of (sample_claims (py ''rf'')) (py ''nonce'') = None" "map_of (sample_claims (py ''rf'')) (py ''azp'') = None"
    by (simp_all add: sample_claims_def)
  have document: "refresh_answer sample_rp (py ''t1'') sample_world = (Inr (Inr [(py ''id_token'', PyStr (py ''rf''))]), sample_world)"
    by (simp add: refresh_answer_def is_refresh_token_text_def token_answer_def refresh_grant_def grant_request_def sample_rp_def
        judged_token_answer_def token_answer_document_def json_object_def sample_login_library_def MAX_TOKEN_RESPONSE_BYTES_def text_eval)
  have id_token: "verified_id_token sample_rp (py ''rf'') sample_world = (Inr (Inr (sample_verified_claims (py ''rf''))), sample_world)"
    by (simp add: verified_id_token_def sample_rp_def bindA_def sample_tokens_verify)
  have wall: "vw_wall sample_world = 150" by (simp add: sample_world_def)
  have "refreshed_groups_of sample_rp (py ''t1'') (py ''u1'') sample_world
      = (Inr (Inr \<lparr>rg_refresh_token = None, rg_groups = Inr []\<rparr>), sample_world)"
    by (simp add: refreshed_groups_of_def) (simp add: bindV_def bindA_def document issued_refresh_token_def raw_id_token_of_def
        refreshed_id_token_groups_def id_token claims is_authorized_party_def sample_verified_claims_def truncate_rat_def
        readA_def wall)
  with refreshed_groups_hold[OF this] show ?thesis by fastforce
qed

text \<open>C39. The authorization URL reads back: a strict reader of the query the browser is sent with finds exactly the
  eight parameters, once each and in order, whatever characters the configuration holds; state and nonce
  are those the browser keeps in its pending login, and the challenge is the unpadded base64url of the
  SHA-256 of the code verifier kept there, which never appears itself.\<close>

theorem authorization_url_reads_back:
  assumes "begin_login rp s = (Inr request, s')"
  shows "\<exists>query challenge. ar_url request = cc_authorization_endpoint (rp_config rp) @ 63 # query
    \<and> parse_qsl True Strict_Errors query = Inr [(py ''response_type'', py ''code''), (py ''client_id'', cc_client_id (rp_config rp)),
        (py ''redirect_uri'', cc_redirect_uri (rp_config rp)), (py ''scope'', join_with [32] (cc_scopes (rp_config rp))),
        (py ''state'', pl_state (ar_pending request)), (py ''nonce'', pl_nonce (ar_pending request)),
        (py ''code_challenge'', challenge), (py ''code_challenge_method'', py ''S256'')]
    \<and> b64_decode challenge = Inr (sha256_digest (pl_code_verifier (ar_pending request))) \<and> length challenge = 43"
proof -
  obtain pending challenge query where challenge: "s256_code_challenge (pl_code_verifier pending) = Inr challenge"
    and query: "urlencode (authorization_parameters (rp_config rp) pending challenge) = Inr query"
    and request: "request = \<lparr>ar_url = cc_authorization_endpoint (rp_config rp) @ 63 # query, ar_pending = pending\<rparr>"
  proof -
    assume holds: "\<And>pending challenge query. \<lbrakk>s256_code_challenge (pl_code_verifier pending) = Inr challenge;
      urlencode (authorization_parameters (rp_config rp) pending challenge) = Inr query;
      request = \<lparr>ar_url = cc_authorization_endpoint (rp_config rp) @ 63 # query, ar_pending = pending\<rparr>\<rbrakk> \<Longrightarrow> thesis"
    from assms show thesis
      unfolding begin_login_def by (auto simp: bindA_eq_Inr liftR_def Let_def intro!: holds)
  qed
  have c: "challenge = b64_encode (sha256_digest (pl_code_verifier pending))"
    using challenge by (auto simp: s256_code_challenge_def split: if_splits)
  then have "b64_decode challenge = Inr (sha256_digest (pl_code_verifier pending))"
    using sha256_digest_bytes by (auto intro: b64_decode_encode)
  then show ?thesis
    using parse_qsl_urlencode[OF query] request c by (simp add: authorization_parameters_def b64_encode_length)
qed

lemma authorization_url_reads_back_witness:
  "\<exists>request query. begin_login sample_rp sample_world = (Inr request, sample_world)
    \<and> ar_url request = py ''https://id.example/auth'' @ 63 # query"
proof -
  have quoted: "\<exists>q. quote_plus v = Inr q" if "isascii v" for v
    using utf8_encode_ascii[OF that] by (simp add: quote_plus_def)
  have "\<exists>p. urlencode_pair k v = Inr p" if "isascii k" "isascii v" for k v
    using quoted[OF that(1)] quoted[OF that(2)] by (auto simp: urlencode_pair_def)
  then have "\<exists>ps. mapR (\<lambda>(k, v). urlencode_pair k v) form = Inr ps" if "list_all (\<lambda>(k, v). isascii k \<and> isascii v) form" for form
    using that by (induction form) fastforce+
  then have encoded: "\<exists>q. urlencode form = Inr q" if "list_all (\<lambda>(k, v). isascii k \<and> isascii v) form" for form
    using that by (fastforce simp: urlencode_def)
  let ?pending = "\<lparr>pl_state = py ''r1'', pl_nonce = py ''r1'', pl_code_verifier = py ''r1'', pl_issued_at = 150, pl_return_to = None\<rparr>"
  let ?challenge = "b64_encode (sha256_digest (py ''r1''))"
  have "isascii ?challenge"
    using b64_encode_chars[of "sha256_digest (py ''r1'')"] sha256_digest_bytes
    by (fastforce simp: isascii_def list_all_iff is_b64_char_def char_class_defs)
  then have "list_all (\<lambda>(k, v). isascii k \<and> isascii v) (authorization_parameters sample_client ?pending ?challenge)"
    by (simp add: authorization_parameters_def sample_client_def isascii_def list_all_iff py_eval)
  from encoded[OF this] obtain query where query: "urlencode (authorization_parameters sample_client ?pending ?challenge) = Inr query" ..
  have "isascii (py ''r1'')" by (simp add: isascii_def py_eval)
  then have "begin_login sample_rp sample_world
      = (Inr \<lparr>ar_url = cc_authorization_endpoint sample_client @ 63 # query, ar_pending = ?pending\<rparr>, sample_world)"
    using query by (simp add: begin_login_def) (simp add: sample_rp_def bindA_def readA_def sample_world_def truncate_rat_def s256_code_challenge_def)
  with authorization_url_reads_back[OF this] show ?thesis by (auto simp: sample_client_def)
qed

end
