(* ===== verification/SignOut.thy ===== *)
theory SignOut
  imports SignIn Logins
begin

text \<open>
  What ending a session does (the logout, the issuer's back-channel logout) and what a standing session
  is good for (an access token handed out beside it), over every host that keeps its contracts.
\<close>

section \<open>A session at two looks\<close>

context sign_in_contract
begin

abbreviation (input) stands :: "'s web_auth_config \<Rightarrow> ('s \<Rightarrow> rat) \<Rightarrow> 's \<Rightarrow> pystr \<Rightarrow> bool" where
  "stands cfg clock s sid \<equiv> (\<exists>r. lookup s sid = Some r
     \<and> session_window (cf_session_lifetime cfg) (truncate_rat (clock s) * SECOND) r)"

lemma stands_now_window:
  assumes "cf_wall_clock cfg = readA clock" and "\<forall>s. usable_now (truncate_rat (clock s) * SECOND)"
  shows "stands_now cfg (lookup s sid) s = (Inr (stands cfg clock s sid), s)"
proof -
  have now: "whole_second_now cfg s = (Inr (truncate_rat (clock s) * SECOND), s)"
    using assms by (intro now_read) (simp_all add: readA_def)
  have u: "usable_now (truncate_rat (clock s) * SECOND)" using assms(2) by blast
  show ?thesis
    by (cases "lookup s sid") (simp_all add: stands_now_def bindA_def now is_admitted_window[OF u])
qed

lemma kept_after_grant_run:
  assumes "cf_wall_clock cfg = readA clock" and "\<forall>s. usable_now (truncate_rat (clock s) * SECOND)"
    and "st_context tx = rollback_tx" and "st_store tx = sessions stores" and "ok s"
  shows "\<exists>s'. kept_after_grant sid tx cfg sent_token rotated s = (Inr (stands cfg clock s sid), s') \<and> ok s'
    \<and> (if stands cfg clock s sid
       then (case rotated of
           None \<Rightarrow> s' = s
         | Some t \<Rightarrow> if t = sent_token then s' = s
             else lookup s' = (lookup s)(sid \<mapsto> (the (lookup s sid))\<lparr>sr_refresh_token := Some t\<rparr>))
       else s' = s)"
proof (cases "\<exists>t r. stands cfg clock s sid \<and> rotated = Some t \<and> t \<noteq> sent_token \<and> lookup s sid = Some r")
  case True
  then obtain t r where t: "stands cfg clock s sid" "rotated = Some t" "t \<noteq> sent_token" "lookup s sid = Some r" by blast
  obtain s' where "ss_replace_refresh_token (sessions stores) sid t s = (Inr (BoolAnswer True), s')" "ok s'"
      "lookup s' = (lookup s)(sid \<mapsto> r\<lparr>sr_refresh_token := Some t\<rparr>)"
    using replace_present[OF assms(5) t(4)] by blast
  with t assms(3,4) stands_now_window[OF assms(1,2), of s sid] show ?thesis
    by (simp add: kept_after_grant_def in_rollback_tx bindA_def load stored_def)
next
  case False
  with assms(3-5) stands_now_window[OF assms(1,2), of s sid] show ?thesis
    by (auto simp: kept_after_grant_def in_rollback_tx bindA_def load split: option.splits)
qed

end

section \<open>A browser and an issuer to evaluate\<close>

text \<open>A relying party over any host, at 150: its verifier holds one key without a name, and the token
  endpoint answers every grant with a new access token, a rotated refresh token and an ID token.\<close>

definition still_verifier :: "('s, unit) jwt_verifier" where
  "still_verifier = \<lparr>jv_issuer = py ''https://id.example'', jv_audiences = [py ''app''], jv_jwks_url = py ''https://id.example/keys'',
     jv_leeway_seconds = 5, jv_fetch_key_set = (\<lambda>_. raise KeySetFetchError), jv_wall_clock = ret 150, jv_monotonic_clock = ret 10,
     jv_state = (\<lambda>_. vw_verifier sample_world), jv_set_state = (\<lambda>_ s. s)\<rparr>"

definition still_library :: "unit jwt_library" where
  "still_library = sample_login_library\<lparr>jl_json := (\<lambda>body. Some (PyDict [(py ''token_type'', PyStr (py ''Bearer'')),
     (py ''access_token'', PyStr (py ''acc'')), (py ''refresh_token'', PyStr (py ''t2'')), (py ''id_token'', PyStr (py ''id''))]))\<rparr>"

definition still_rp :: "('s, unit) relying_party" where
  "still_rp = \<lparr>rp_config = sample_client, rp_library = still_library,
     rp_post_token_request = (\<lambda>_. ret \<lparr>ta_status = 200, ta_body = [1]\<rparr>),
     rp_fetch_key_set = (\<lambda>_. raise KeySetFetchError), rp_wall_clock = ret 150, rp_monotonic_clock = ret 10,
     rp_token_urlsafe = ret (py ''r1''), rp_client_authorization = py ''Basic x'', rp_jwt_verifier = still_verifier\<rparr>"

lemma still_rp_parts:
  "rp_library still_rp = still_library" "rp_jwt_verifier still_rp = still_verifier" "rp_wall_clock still_rp = ret 150"
  "cc_client_id (rp_config still_rp) = py ''app''" "rp_leeway still_rp = 5"
  by (simp_all add: still_rp_def sample_client_def rp_leeway_def still_verifier_def)

lemma still_verifies:
  assumes "judged_header lib token et mt = Inr None" and "require_comparable_types et mt = Inr ()"
    and "jl_decode lib token () auds (py ''https://id.example'') = Inr claims"
    and "map_of claims (py ''exp'') = Some (PyInt 200)" and "map_of claims (py ''iat'') = Some (PyInt 148)"
    and "map_of claims (py ''nbf'') = None" and "subject_of claims = Inr subject" and "audiences_of claims = Inr audiences"
  shows "verify lib (still_verifier\<lparr>jv_audiences := auds\<rparr>) token et mt s
    = (Inr (Inr \<lparr>vc_subject = subject, vc_issuer = py ''https://id.example'', vc_audiences = audiences,
        vc_expires_at = 200, vc_issued_at = 148, vc_claims = claims\<rparr>), s)"
proof -
  let ?v = "still_verifier\<lparr>jv_audiences := auds\<rparr>"
  have key: "jwt_signing_key lib ?v None s = (Inr (Inr ()), s)"
    by (simp add: jwt_signing_key_def is_current_def key_of_def readA_def bindA_def still_verifier_def sample_world_def KEY_SET_TTL_SECONDS_def)
  have payload: "verified_payload lib ?v token () = Inr claims"
    using assms(3) by (simp add: verified_payload_def still_verifier_def)
  have times: "checked_time_claims ?v claims s = (Inr (Inr (200, 148)), s)"
    using assms(4-6) by (simp add: checked_time_claims_def integer_claim_def still_verifier_def bindA_def bindV_def ret_def)
  have "jv_issuer ?v = py ''https://id.example''" by (simp add: still_verifier_def)
  then show ?thesis
    by (simp add: verify_def verified_claims_of_def assms(1,2))
      (simp add: bindV_def bindA_def key payload times ret_def liftR_def assms(7,8))
qed

lemma still_audience: "still_verifier\<lparr>jv_audiences := [py ''app'']\<rparr> = still_verifier"
  by (simp add: still_verifier_def)

lemma still_logout_token:
  "verify_logout_token still_rp (py ''lo'') s = (Inr (Inr (py ''u1'')), s)"
proof -
  have "judged_header still_library (py ''lo'') (Some (py ''logout+jwt'')) None = Inr None"
    by (simp add: judged_header_def still_library_def sample_login_library_def has_expected_type_def header_key_id_def RS256_def
        MAX_TOKEN_CHARACTERS_def MAX_HEADER_SEGMENT_CHARACTERS_def text_eval)
  then have "verify still_library (still_verifier\<lparr>jv_audiences := [py ''app'']\<rparr>) (py ''lo'') (Some (py ''logout+jwt'')) None s
      = (Inr (Inr (sample_verified_claims (py ''lo''))), s)"
    unfolding sample_verified_claims_def by (intro still_verifies) (simp_all add: require_comparable_types_def still_library_def sample_login_library_def)
  note this[unfolded still_audience]
  moreover have "map_of (sample_claims (py ''lo'')) (py ''nonce'') = None"
    "map_of (sample_claims (py ''lo'')) (py ''events'') = Some (PyDict [(BACKCHANNEL_LOGOUT_EVENT, PyDict [])])"
    by (simp_all add: sample_claims_def)
  ultimately show ?thesis
    by (simp add: verify_logout_token_def bindA_def is_logout_profile_def sample_verified_claims_def still_rp_parts
        is_backchannel_logout_events_def LOGOUT_TOKEN_MAX_AGE_SECONDS_def)
qed

lemma still_audiences_pure: "pure_act (verify lib (still_verifier\<lparr>jv_audiences := auds\<rparr>) token et mt)"
proof -
  let ?v = "still_verifier\<lparr>jv_audiences := auds\<rparr>"
  have update: "pure_act (writeA (jv_update ?v f))" "jv_update ?v f s = s" for f s
    by (simp_all add: pure_act_def writeA_def jv_update_def still_verifier_def)
  have clock: "jv_monotonic_clock ?v = ret 10" "jv_wall_clock ?v = ret 150" by (simp_all add: still_verifier_def)
  have fetch: "pure_act (fetch_and_keep lib ?v now)" for now
    by (simp add: pure_act_def fetch_and_keep_def still_verifier_def refresh_failed_def writeA_def jv_update_def)
  have clean: "pure_act (finallyA m (jv_update ?v f))" if "pure_act m" for m f
    using that by (simp add: pure_act_def finallyA_def update case_prod_unfold)
  have "pure_act (refresh_key_set lib ?v)"
    unfolding refresh_key_set_def clock by (intro pure_intros update(1) fetch clean)
  then have "pure_act (jwt_signing_key lib ?v k)" for k
    unfolding jwt_signing_key_def is_current_def key_of_def clock by (intro pure_intros) auto
  then show ?thesis
    unfolding verify_def verified_claims_of_def checked_time_claims_def clock by (intro pure_intros) auto
qed

lemma still_verification_pure: "pure_act (verify lib still_verifier token et mt)"
  using still_audiences_pure[where auds = "[py ''app'']"] unfolding still_audience .

lemma still_rp_keeps: "keeps f (verify_logout_token still_rp token)" "keeps f (renew_access still_rp token)"
proof -
  have "pure_act (verify_logout_token still_rp token)"
    unfolding verify_logout_token_def is_logout_profile_def still_rp_parts Let_def
    by (intro pure_intros still_verification_pure) (auto intro: pure_basic split: bool.split option.split)
  then show "keeps f (verify_logout_token still_rp token)" by (rule keeps_pure)
  have "pure_act (token_answer still_rp request)" for request
    by (simp add: pure_act_def token_answer_def still_rp_def)
  then have "pure_act (renew_access still_rp token)"
    unfolding renew_access_def refresh_answer_def by (intro pure_intros) simp_all
  then show "keeps f (renew_access still_rp token)" by (rule keeps_pure)
qed

lemma still_renewal:
  "renew_access still_rp (py ''t1'') s
    = (Inr (Inr \<lparr>ra_access_token = py ''acc'', ra_refresh_token = Some (py ''t2'')\<rparr>), s)"
  by (simp add: renew_access_def refresh_answer_def is_refresh_token_text_def token_answer_def refresh_grant_def grant_request_def still_rp_def
      judged_token_answer_def token_answer_document_def json_object_def still_library_def MAX_TOKEN_RESPONSE_BYTES_def
      bearer_access_token_def is_access_token_text_def issued_refresh_token_def bindV_def bindA_def text_eval)

lemma signed_in_browser:
  "\<exists>c. session_id_from_request (\<lambda>_. [(session_cookie_name (sample_config :: 's web_auth_config), c)])
      (sample_scope [] :: 's scope) sample_config = Inr (Some (py ''s1''))"
proof -
  obtain key where key: "signing_key (sample_config :: 's web_auth_config) = Inr key"
    by (fastforce simp: signing_key_def sample_config_def utf8_encode_def is_scalar_def list_all_iff)
  obtain c where c: "length c \<le> MAX_SESSION_COOKIE_CHARS" "verify_session_cookie c key = Inr (Some (py ''s1''))"
    using sample_signed by blast
  have cookies: "cookie_values (\<lambda>_. pairs) (sample_scope [] :: 's scope) n = map snd (filter (\<lambda>(k, v). k = n) pairs)" for pairs n
    by (simp add: sample_scope_def cookie_values_def cookie_pairs_def getlist_def text_eval)
  have "sc_bearer_admission (sample_scope [] :: 's scope) = None" by (simp add: sample_scope_def)
  moreover have "c \<noteq> []" using c(2) by (auto simp: verify_session_cookie_iff)
  ultimately show ?thesis
    using c key by (intro exI[of _ c]) (simp add: session_id_from_request_def is_bearer_admitted_def read_session_cookie_def cookies)
qed

section \<open>Properties\<close>

text \<open>A logout ends the browser's session whatever becomes of its page. When the request presents a
  verified session cookie, that session is gone from the store, and nothing else changed in it, even
  if the page then cannot be built; a request without one changes nothing. The answer is the page
  that posts the client's logout form with the ended session's ID token as its hint, with both
  session cookies cleared.\<close>

theorem log_out_ends_the_session:
  assumes "session_contract (sessions (si_stores tx)) lookup ok" and "si_context tx = rollback_tx" and "ok s"
    and "session_id_from_request parse_cookie sc cfg = Inr held"
  shows "\<exists>s'. log_out parse_cookie rp sc cfg tx language button_label s
      = (bindR (end_session_page (end_session_form_of rp
            (Option.bind held (\<lambda>sid. Option.bind (lookup s sid) sr_id_token))) language button_label)
          (\<lambda>page. Inr (clear_session_cookies page cfg)), s')
    \<and> ok s' \<and> (case held of None \<Rightarrow> s' = s | Some sid \<Rightarrow> lookup s' = (lookup s)(sid := None))"
proof -
  have page: "bindA (liftR p) (\<lambda>page. ret (f page)) s' = (bindR p (\<lambda>page. Inr (f page)), s')" for p f s'
    by (cases p) (simp_all add: bindA_def)
  show ?thesis
  proof (cases held)
    case None
    with assms(3,4) show ?thesis by (simp add: log_out_def page)
  next
    case (Some sid)
    obtain s' where "ss_delete (sessions (si_stores tx)) sid s = (Inr (), s')" "ok s'" "lookup s' = (lookup s)(sid := None)"
      using session_contract.delete[OF assms(1,3)] by blast
    moreover from calculation
    have "in_tx (si_context tx) (id_token_of_ended_session (sessions (si_stores tx)) sid) s
        = (Inr (Option.bind (lookup s sid) sr_id_token), s')"
      by (cases "lookup s sid")
        (simp_all add: assms(2) in_rollback_tx id_token_of_ended_session_def bindA_def session_contract.load[OF assms(1)])
    ultimately show ?thesis
      using Some assms(4) unfolding log_out_def by (auto simp: bindA_apply(1) page)
  qed
qed

lemma log_out_ends_the_session_witness:
  "\<exists>c h page. log_out (\<lambda>_. [(session_cookie_name (sample_config :: host web_auth_config), c)]) still_rp (sample_scope []) sample_config
      \<lparr>si_context = rollback_tx, si_stores = host_stores\<rparr> (py ''en'') (py ''Out'') sample_host
      = (bindR page (\<lambda>p. Inr (clear_session_cookies p (sample_config :: host web_auth_config))), h)
    \<and> host_lookup h (py ''s1'') = None \<and> host_lookup sample_host (py ''s1'') \<noteq> None"
proof -
  let ?tx = "\<lparr>si_context = rollback_tx, si_stores = host_stores\<rparr>"
  obtain c where c: "session_id_from_request (\<lambda>_. [(session_cookie_name (sample_config :: host web_auth_config), c)])
      (sample_scope [] :: host scope) sample_config = Inr (Some (py ''s1''))"
    using signed_in_browser by blast
  have contract: "session_contract (sessions (si_stores ?tx)) host_lookup host_ok"
    by (simp add: host_stores_def host_session_contract)
  have "host_lookup sample_host (py ''s1'') \<noteq> None" by (simp add: host_lookup_def mem_lookup_def sample_host_def)
  moreover have "si_context ?tx = rollback_tx" by simp
  from log_out_ends_the_session[OF contract this sample_host_ok c, of still_rp "py ''en''" "py ''Out''"]
  obtain h where "log_out (\<lambda>_. [(session_cookie_name (sample_config :: host web_auth_config), c)]) still_rp (sample_scope [])
      sample_config ?tx (py ''en'') (py ''Out'') sample_host
      = (bindR (end_session_page (end_session_form_of (still_rp :: (host, unit) relying_party) (Option.bind (Some (py ''s1'')) (\<lambda>sid. Option.bind (host_lookup sample_host sid) sr_id_token)))
            (py ''en'') (py ''Out''))
          (\<lambda>p. Inr (clear_session_cookies p (sample_config :: host web_auth_config))), h)"
      "host_lookup h = (host_lookup sample_host)(py ''s1'' := None)"
    unfolding option.case by blast
  moreover from this(2) have "host_lookup h (py ''s1'') = None" by simp
  ultimately show ?thesis by blast
qed

text \<open>What ending a subject's sessions does, in a transaction that commits.\<close>

lemma end_sessions_effect:
  assumes contract: "sign_in_contract stores lookup account events ok" and "ok s1"
    and ended: "in_tx rollback_tx (end_sessions_of_subject stores subject) s1 = (Inr (), s')"
  shows "if account s1 subject = None then s' = s1
      else ok s' \<and> owned lookup s' subject = {} \<and> lookup s' = (lookup s1) |` (- owned lookup s1 subject) \<and> account s' = account s1
        \<and> events s' = events s1 @ (if owned lookup s1 subject = {} then []
            else [\<lparr>ae_kind = BACKCHANNEL_LOGOUT, ae_actor_id = None, ae_subject_id = subject, ae_role = None, ae_previous_role = None\<rparr>])"
proof -
  have accounts: "account_contract (accounts stores) (audit stores) account events ok"
    using contract by (simp add: sign_in_contract_def)
  show ?thesis
  proof (cases "account s1 subject")
    case None
    with ended show ?thesis
      by (auto simp: in_rollback_tx end_sessions_of_subject_def bindA_def account_contract.get[OF accounts])
  next
    case (Some a)
    have id: "ur_id a = subject" by (rule account_contract.account_id[OF accounts \<open>ok s1\<close> Some])
    obtain n s2 where deleted: "ss_delete_for_user (sessions stores) subject s1 = (Inr n, s2)"
        and audited: "(if n = 0 then ret () else audit stores \<lparr>ae_kind = BACKCHANNEL_LOGOUT, ae_actor_id = None, ae_subject_id = subject,
           ae_role = None, ae_previous_role = None\<rparr>) s2 = (Inr (), s')"
      using ended Some id
      by (auto simp: in_rollback_tx end_sessions_of_subject_def bindA_eq_Inr account_contract.get[OF accounts] split: sum.splits prod.splits)
    note d = sign_in_contract.delete_for_user[OF contract \<open>ok s1\<close> deleted]
    have none: "n = 0 \<longleftrightarrow> owned lookup s1 subject = {}"
      using d sign_in_contract.finite_owned[OF contract, of s1 subject] by simp
    have "ok s' \<and> lookup s' = lookup s2 \<and> account s' = account s2 \<and> events s' = events s2 @ (if n = 0 then []
        else [\<lparr>ae_kind = BACKCHANNEL_LOGOUT, ae_actor_id = None, ae_subject_id = subject, ae_role = None, ae_previous_role = None\<rparr>])"
      using audited account_contract.recorded[OF accounts conjunct1[OF d]] sign_in_contract.recorded_frame[OF contract]
      using d by (cases "n = 0") auto
    moreover have "owned lookup s' subject = {}" if "lookup s' = (lookup s1) |` (- owned lookup s1 subject)"
      using that by (auto simp: owned_def owner_def restrict_map_def)
    ultimately show ?thesis using d none Some by simp
  qed
qed

text \<open>C32. What the issuer's back-channel logout does, over any host that keeps its contracts: an accepted one
  carried exactly one logout token, in a form, that verified for a subject, and when that subject has an
  account every session of it is gone, no other session is touched, no account is changed and one event
  is recorded exactly when a session was ended; one that was refused wrote nothing to the host.\<close>

theorem backchannel_logout_ends_the_subject:
  assumes contract: "sign_in_contract stores lookup account events ok"
    and tx: "tx = \<lparr>si_context = rollback_tx, si_stores = stores\<rparr>"
    and verifying: "\<forall>token. keeps ok (verify_logout_token rp token)" and "ok s"
    and run: "receive_backchannel_logout rp form_body content_type tx s = (Inr result, s')"
  shows "case result of
      LOGOUT_REFUSED \<Rightarrow> (case logout_token_of form_body content_type of
          None \<Rightarrow> s' = s
        | Some token \<Rightarrow> \<exists>refusal. verify_logout_token rp token s = (Inr (Inl refusal), s'))
    | LOGOUT_ACCEPTED \<Rightarrow> \<exists>token subject s1. logout_token_of form_body content_type = Some token
        \<and> verify_logout_token rp token s = (Inr (Inr subject), s1)
        \<and> (if account s1 subject = None then s' = s1
           else owned lookup s' subject = {} \<and> lookup s' = (lookup s1) |` (- owned lookup s1 subject) \<and> account s' = account s1
             \<and> events s' = events s1 @ (if owned lookup s1 subject = {} then []
                 else [\<lparr>ae_kind = BACKCHANNEL_LOGOUT, ae_actor_id = None, ae_subject_id = subject,
                        ae_role = None, ae_previous_role = None\<rparr>]))"
proof (cases result)
  case LOGOUT_REFUSED
  show ?thesis
  proof (cases "logout_token_of form_body content_type")
    case None
    with run LOGOUT_REFUSED show ?thesis by (simp add: receive_backchannel_logout_def)
  next
    case (Some token)
    obtain verdict s1 where v: "verify_logout_token rp token s = (Inr verdict, s1)"
      using run Some by (auto simp: receive_backchannel_logout_def bindA_eq_Inr)
    with run Some LOGOUT_REFUSED show ?thesis
      by (cases verdict) (auto simp: receive_backchannel_logout_def bindA_eq_Inr)
  qed
next
  case LOGOUT_ACCEPTED
  obtain token subject s1 where token: "logout_token_of form_body content_type = Some token"
      and verified: "verify_logout_token rp token s = (Inr (Inr subject), s1)"
      and ended: "in_tx (si_context tx) (end_sessions_of_subject (si_stores tx) subject) s1 = (Inr (), s')"
  proof (cases "logout_token_of form_body content_type")
    case None
    with run LOGOUT_ACCEPTED show ?thesis by (simp add: receive_backchannel_logout_def)
  next
    case (Some token)
    obtain verdict s1 where "verify_logout_token rp token s = (Inr verdict, s1)"
      using run Some by (auto simp: receive_backchannel_logout_def bindA_eq_Inr)
    with run Some LOGOUT_ACCEPTED that show ?thesis
      by (cases verdict) (auto simp: receive_backchannel_logout_def bindA_eq_Inr)
  qed
  have "ok s1" using keepsD[OF verifying[rule_format] verified] \<open>ok s\<close> by simp
  from end_sessions_effect[OF contract this ended[unfolded tx sign_in_transaction.simps]] token verified LOGOUT_ACCEPTED show ?thesis by auto
qed

lemma backchannel_logout_ends_the_subject_witness:
  "\<exists>h. receive_backchannel_logout still_rp (py ''logout_token=lo'') (Some (py ''application/x-www-form-urlencoded''))
      \<lparr>si_context = rollback_tx, si_stores = host_stores\<rparr> sample_host = (Inr LOGOUT_ACCEPTED, h)
    \<and> owned host_lookup h (py ''u1'') = {} \<and> length (snd h) = 1"
proof -
  let ?tx = "\<lparr>si_context = rollback_tx, si_stores = host_stores\<rparr>"
  let ?form = "py ''logout_token=lo''" and ?type = "Some (py ''application/x-www-form-urlencoded'')"
  have "utf8_decode ?form = Inr ?form" by (rule utf8_decode_encode) (simp add: utf8_encode_ascii text_eval)
  then have token: "logout_token_of ?form ?type = Some (py ''lo'')"
    by (simp add: logout_token_of_def media_type_of_def parse_qsl_def parse_field_def unquote_plus_def utf8_encode_ascii text_eval)
  have account: "host_account sample_host (py ''u1'') = Some \<lparr>ur_id = py ''u1'', ur_username = py ''ann'', ur_role = py ''admin''\<rparr>"
    by (simp add: host_account_def mem_account_def sample_host_def)
  have owned: "py ''s1'' \<in> owned host_lookup sample_host (py ''u1'')"
    by (simp add: owned_def owner_host sample_host_def)
  obtain h where run: "receive_backchannel_logout still_rp ?form ?type ?tx sample_host = (Inr LOGOUT_ACCEPTED, h)"
    by (simp add: receive_backchannel_logout_def token bindA_def still_logout_token in_rollback_tx end_sessions_of_subject_def
        host_defs on_memory_def mem_get_def mem_delete_for_user_def sessions_of_def remove_record_def Let_def sample_host_def split: prod.split)
  have "\<forall>token. keeps host_ok (verify_logout_token still_rp token)" using still_rp_keeps(1) by blast
  from backchannel_logout_ends_the_subject[OF host.sign_in_contract_axioms _ this sample_host_ok run] owned run account show ?thesis
    by (auto simp: token still_logout_token sample_host_def split: if_splits)
qed

text \<open>The second half of the exchange, once the issuer has answered a grant.\<close>

lemma granted_access:
  assumes contract: "sign_in_contract stores lookup account events ok"
    and tx: "tx = \<lparr>st_context = rollback_tx, st_store = sessions stores\<rparr>"
    and clock: "cf_wall_clock cfg = readA clock" "\<forall>s. usable_now (truncate_rat (clock s) * SECOND)" and "ok s1"
    and run: "bindA (kept_after_grant session_id tx cfg token (ra_refresh_token access))
      (\<lambda>stands. if stands then ret (Inr (ra_access_token access)) else refuse session_ended) s1 = (Inr answer, s')"
  shows "if \<exists>r1. lookup s1 session_id = Some r1 \<and> session_window (cf_session_lifetime cfg) (truncate_rat (clock s1) * SECOND) r1
    then answer = Inr (ra_access_token access)
      \<and> (case ra_refresh_token access of
          None \<Rightarrow> s' = s1
        | Some rotated \<Rightarrow> if rotated = token then s' = s1
            else lookup s' = (lookup s1)(session_id \<mapsto> (the (lookup s1 session_id))\<lparr>sr_refresh_token := Some rotated\<rparr>))
    else answer = Inl session_ended \<and> s' = s1"
proof -
  let ?stands = "\<exists>r1. lookup s1 session_id = Some r1
      \<and> session_window (cf_session_lifetime cfg) (truncate_rat (clock s1) * SECOND) r1"
  have parts: "st_context tx = rollback_tx" "st_store tx = sessions stores" by (simp_all add: tx)
  obtain s2 where kept: "kept_after_grant session_id tx cfg token (ra_refresh_token access) s1 = (Inr ?stands, s2)"
    and effect: "if ?stands then (case ra_refresh_token access of
          None \<Rightarrow> s2 = s1
        | Some rotated \<Rightarrow> if rotated = token then s2 = s1
            else lookup s2 = (lookup s1)(session_id \<mapsto> (the (lookup s1 session_id))\<lparr>sr_refresh_token := Some rotated\<rparr>))
      else s2 = s1"
    using sign_in_contract.kept_after_grant_run[OF contract clock parts \<open>ok s1\<close>] by blast
  have "(if ?stands then ret (Inr (ra_access_token access)) else refuse session_ended) s2 = (Inr answer, s')"
    using run unfolding bindA_def kept by simp
  then have "answer = (if ?stands then Inr (ra_access_token access) else Inl session_ended) \<and> s' = s2"
    by (cases ?stands) (simp_all only: if_True if_False refuse_def act_apply prod.inject sum.inject simp_thms)
  with effect show ?thesis by (cases ?stands) (simp_all only: if_True if_False simp_thms)
qed

text \<open>C31. What a fresh access token is handed out for, over any host that keeps its contracts and whatever
  happens to it while the issuer is asked. Without a session that stands now the answer is that it ended,
  and without a refresh token in it that the person signs in again, with nothing sent and nothing
  written. Otherwise that session's own refresh token is sent, and a refused grant is the answer's refusal.
  A granted one is answered with its access token exactly when the session still stands once the grant is
  back, and a rotated refresh token is then stored in it with nothing else changed; a session that ended
  meanwhile gets no token, and nothing is written that would bring it back.\<close>

theorem access_token_for_a_standing_session:
  assumes contract: "sign_in_contract stores lookup account events ok"
    and tx: "tx = \<lparr>st_context = rollback_tx, st_store = sessions stores\<rparr>"
    and clock: "cf_wall_clock cfg = readA clock" "\<forall>s. usable_now (truncate_rat (clock s) * SECOND)"
    and renewing: "\<forall>token. keeps ok (renew_access rp token)" and "ok s"
    and run: "fresh_access_token rp session_id tx cfg s = (Inr answer, s')"
  shows "if \<nexists>r. lookup s session_id = Some r \<and> session_window (cf_session_lifetime cfg) (truncate_rat (clock s) * SECOND) r
    then answer = Inl session_ended \<and> s' = s
    else case sr_refresh_token (the (lookup s session_id)) of
        None \<Rightarrow> answer = Inl sign_in_again \<and> s' = s
      | Some token \<Rightarrow> (\<exists>outcome s1. renew_access rp token s = (Inr outcome, s1) \<and> (case outcome of
          Inl refusal \<Rightarrow> answer = Inl (refusal_of_grant refusal) \<and> s' = s1
        | Inr access \<Rightarrow>
            if \<exists>r1. lookup s1 session_id = Some r1 \<and> session_window (cf_session_lifetime cfg) (truncate_rat (clock s1) * SECOND) r1
            then answer = Inr (ra_access_token access)
              \<and> (case ra_refresh_token access of
                  None \<Rightarrow> s' = s1
                | Some rotated \<Rightarrow> if rotated = token then s' = s1
                    else lookup s' = (lookup s1)(session_id \<mapsto> (the (lookup s1 session_id))\<lparr>sr_refresh_token := Some rotated\<rparr>))
            else answer = Inl session_ended \<and> s' = s1))"
    (is "if \<not> ?standing then _ else _")
proof -
  have parts: "st_context tx = rollback_tx" "st_store tx = sessions stores" by (simp_all add: tx)
  have evidence: "evidence_of_standing_session session_id tx cfg s = (Inr (if \<not> ?standing then Inl session_ended
      else case sr_refresh_token (the (lookup s session_id)) of None \<Rightarrow> Inl sign_in_again
        | Some token \<Rightarrow> Inr \<lparr>se_refresh_token = token, se_subject = ur_id (sr_user (the (lookup s session_id)))\<rparr>), s)"
    using sign_in_contract.stands_now_window[OF contract clock, of s session_id]
    by (auto simp: evidence_of_standing_session_def parts in_rollback_tx bindA_def refuse_def
        session_contract.load[OF sign_in_contract.axioms(1)[OF contract]] split: option.split)
  show ?thesis
  proof (cases "?standing \<and> sr_refresh_token (the (lookup s session_id)) \<noteq> None")
    case False
    with run evidence show ?thesis by (auto simp: fresh_access_token_def bindV_def bindA_def refuse_def split: option.splits)
  next
    case True
    then obtain token where token: "sr_refresh_token (the (lookup s session_id)) = Some token" by blast
    have held: "evidence_of_standing_session session_id tx cfg s
        = (Inr (Inr \<lparr>se_refresh_token = token, se_subject = ur_id (sr_user (the (lookup s session_id)))\<rparr>), s)"
      using evidence True token by simp
    have "bindA (renew_access rp token) (\<lambda>outcome. case outcome of Inl refusal \<Rightarrow> refuse (refusal_of_grant refusal)
        | Inr access \<Rightarrow> bindA (kept_after_grant session_id tx cfg token (ra_refresh_token access))
            (\<lambda>stands. if stands then ret (Inr (ra_access_token access)) else refuse session_ended)) s = (Inr answer, s')"
      using run unfolding fresh_access_token_def bindV_def bindA_apply(1)[where m = "evidence_of_standing_session session_id tx cfg", OF held] by simp
    then obtain outcome s1 where asked: "renew_access rp token s = (Inr outcome, s1)"
      and rest: "(case outcome of Inl refusal \<Rightarrow> refuse (refusal_of_grant refusal)
        | Inr access \<Rightarrow> bindA (kept_after_grant session_id tx cfg token (ra_refresh_token access))
            (\<lambda>stands. if stands then ret (Inr (ra_access_token access)) else refuse session_ended)) s1 = (Inr answer, s')"
      unfolding bindA_eq_Inr[of "renew_access rp token"] by blast
    have "ok s1" using keepsD[OF renewing[rule_format] asked] \<open>ok s\<close> by simp
    show ?thesis
    proof (cases outcome)
      case (Inl refusal)
      with True token asked rest show ?thesis by (simp add: refuse_def)
    next
      case (Inr access)
      from granted_access[OF contract tx clock \<open>ok s1\<close> rest[unfolded Inr sum.case]] True token asked Inr
      show ?thesis by simp
    qed
  qed
qed

lemma access_token_for_a_standing_session_witness:
  "\<exists>h. fresh_access_token still_rp (py ''s1'') \<lparr>st_context = rollback_tx, st_store = host_sessions\<rparr> sample_config sample_host
      = (Inr (Inr (py ''acc'')), h)
    \<and> map_option sr_refresh_token (host_lookup h (py ''s1'')) = Some (Some (py ''t2''))"
proof -
  let ?tx = "\<lparr>st_context = rollback_tx, st_store = host_sessions\<rparr>" and ?cfg = "sample_config :: host web_auth_config"
  have tx: "?tx = \<lparr>st_context = rollback_tx, st_store = sessions host_stores\<rparr>" by (simp add: host_stores_def)
  have parts: "st_context ?tx = rollback_tx" "st_store ?tx = sessions host_stores" by (simp_all add: host_stores_def)
  have clock: "cf_wall_clock ?cfg = readA (\<lambda>_. 1000)" "\<forall>s::host. usable_now (truncate_rat ((\<lambda>_. 1000) s) * SECOND)"
    by (simp_all add: sample_config_def readA_def ret_def usable_now_def in_calendar_def truncate_rat_def SECOND_def
        MAX_SESSION_LIFETIME_SECONDS_def)
  have renewing: "\<forall>token. keeps host_ok (renew_access still_rp token)" using still_rp_keeps(2) by blast
  obtain r where r: "host_lookup sample_host (py ''s1'') = Some r" "sr_refresh_token r = Some (py ''t1'')"
      "session_window (cf_session_lifetime ?cfg) (truncate_rat ((\<lambda>_. 1000) sample_host) * SECOND) r"
    by (simp add: host_lookup_def mem_lookup_def sample_host_def view_session_def session_window_def sample_config_def truncate_rat_def
        SECOND_def utc_datetime_def as_instant_def)
  obtain answer h where run: "fresh_access_token still_rp (py ''s1'') ?tx ?cfg sample_host = (Inr answer, h)"
  proof -
    have "evidence_of_standing_session (py ''s1'') ?tx ?cfg sample_host
        = (Inr (Inr \<lparr>se_refresh_token = py ''t1'', se_subject = ur_id (sr_user r)\<rparr>), sample_host)"
      using r host.stands_now_window[OF clock, of sample_host "py ''s1''"]
      by (simp add: evidence_of_standing_session_def parts in_rollback_tx bindA_def session_contract.load[OF host_session_contract])
    moreover obtain b h where "kept_after_grant (py ''s1'') ?tx ?cfg (py ''t1'') (Some (py ''t2'')) sample_host = (Inr b, h)"
      using host.kept_after_grant_run[OF clock parts sample_host_ok] by blast
    ultimately have "\<exists>answer. fresh_access_token still_rp (py ''s1'') ?tx ?cfg sample_host = (Inr answer, h)"
      by (cases b) (simp_all add: fresh_access_token_def bindV_def bindA_def still_renewal refuse_def)
    with that show ?thesis by blast
  qed
  have stands: "\<exists>r1. host_lookup sample_host (py ''s1'') = Some r1
      \<and> session_window (cf_session_lifetime ?cfg) (truncate_rat ((\<lambda>_. 1000) sample_host) * SECOND) r1"
    using r by blast
  have "py ''t2'' \<noteq> py ''t1''" by (simp add: text_eval)
  with access_token_for_a_standing_session[OF host.sign_in_contract_axioms tx clock renewing sample_host_ok run] stands r(1,2)
  have "answer = Inr (py ''acc'') \<and> host_lookup h = (host_lookup sample_host)(py ''s1'' \<mapsto> (the (host_lookup sample_host (py ''s1'')))
      \<lparr>sr_refresh_token := Some (py ''t2'')\<rparr>)"
    by (simp add: still_renewal)
  with run show ?thesis by simp
qed

end
