(* ===== verification/BearerAdmission.thy ===== *)
theory BearerAdmission
  imports BearerGate SignOut
begin

text \<open>
  Whom the bearer gate lets through, path kind by path kind, and what the routes behind it are then
  told: the record the gate leaves in the scope is the only account of the request.
\<close>

section \<open>Credentials and records\<close>

lemma one_credential_Some:
  assumes "one_credential after = Some word"
  shows "\<exists>spaces. after = spaces @ word \<and> spaces \<noteq> [] \<and> set spaces \<subseteq> {32}"
proof -
  have "after = takeWhile (\<lambda>c. c = 32) after @ word" "takeWhile (\<lambda>c. c = 32) after \<noteq> []"
    using assms by (auto simp: one_credential_def Let_def split: if_splits)
  moreover have "set (takeWhile (\<lambda>c. c = 32) after) \<subseteq> {32}" by (auto dest: set_takeWhileD)
  ultimately show ?thesis by blast
qed

lemma credential_of_token:
  assumes "credential_of sc = Inr (Inr token)"
  shows "\<exists>line scheme spaces. getlist sc (py ''authorization'') = [line] \<and> strip_of is_blank line = scheme @ spaces @ token
    \<and> lower_py scheme = py ''bearer'' \<and> spaces \<noteq> [] \<and> set spaces \<subseteq> {32} \<and> is_access_token_text token"
proof -
  let ?lines = "getlist sc (py ''authorization'')"
  let ?held = "case ?lines of [] \<Rightarrow> [] | line # _ \<Rightarrow> strip_of is_blank line"
  let ?scheme = "takeWhile is_auth_scheme_char ?held"
  have short: "length ?lines \<le> 1" and v: "?held \<noteq> []" and scheme: "lower_py ?scheme = py ''bearer''"
    and rest: "one_credential (drop (length ?scheme) ?held) = Some token" and shape: "is_access_token_text token"
    using assms unfolding credential_of_def Let_def by (auto split: if_splits option.splits)
  from short v obtain line where line: "?lines = [line]" by (cases ?lines) auto
  obtain spaces where s: "drop (length ?scheme) ?held = spaces @ token" "spaces \<noteq> []" "set spaces \<subseteq> {32}"
    using one_credential_Some[OF rest] by blast
  have "?held = ?scheme @ drop (length ?scheme) ?held" by (metis dropWhile_eq_drop takeWhile_dropWhile_id)
  with line s have "strip_of is_blank line = ?scheme @ spaces @ token" by simp
  with line scheme s(2,3) shape show ?thesis by blast
qed

lemma record_bearer_admission_read:
  assumes "record_bearer_admission sc caller m = Inr sc'" and "m = None \<or> m = Some (sc_method sc)"
  shows "\<exists>b. bearer_admission sc' = Some b \<and> ba_principal b = caller \<and> ba_resource_method b = m"
    "is_bearer_admitted sc'"
  using assms
  by (auto simp: record_bearer_admission_def bearer_admission_def is_resource_admission_def getlist_def is_bearer_admitted_def
      split: list.splits)

lemma caller_is_no_account:
  assumes "record_bearer_admission sc (BearerCaller subject) None = Inr sc'"
  shows "bearer_caller sc' = Inr subject" "gate_or_own_admission parse_cookie sc' store t = (Inl RuntimeError, t)"
  using record_bearer_admission_read[OF assms]
  by (auto simp: bearer_caller_def gate_or_own_admission_def admitted_token_person_def raise_for_bearer_admission_def)

lemma person_is_the_account:
  assumes "record_bearer_admission sc (Account u) m = Inr sc'" and "m = None \<or> m = Some (sc_method sc)"
  shows "gate_or_own_admission parse_cookie sc' store t = (Inr (Inr u), t)"
    "m = Some k \<Longrightarrow> resource_person sc' = Inr u" "m = None \<Longrightarrow> resource_person sc' = Inl RuntimeError"
    "bearer_caller sc' = Inl RuntimeError"
  using record_bearer_admission_read[OF assms]
  by (auto simp: gate_or_own_admission_def admitted_token_person_def resource_person_def bearer_caller_def is_resource_admission_def)

lemma admitted_eq_None:
  "admitted sc caller m s = (Inr (None, sc'), s') \<longleftrightarrow> record_bearer_admission sc caller m = Inr sc' \<and> s' = s"
  by (auto simp: admitted_def bindA_def split: sum.splits)

lemma refused_eq_None [simp]: "refused refusal parameters sc s \<noteq> (Inr (None, sc'), s')"
  by (simp add: refused_def)

lemma verify_access_token_held:
  assumes "verify_access_token rp token parties s = (Inr (Inr holder), s')"
  shows "\<exists>c. verify (rp_library rp) (rp_jwt_verifier rp) token None (Some ACCESS_TOKEN_MEDIA_TYPES) s = (Inr (Inr c), s')
    \<and> vc_subject c = Some (va_subject holder) \<and> vc_audiences c = [PyStr (cc_client_id (rp_config rp))]
    \<and> (\<exists>azp. map_of (vc_claims c) (py ''azp'') = Some (PyStr azp) \<and> azp \<in> client_ids parties)
    \<and> group_paths (vc_claims c) = Some (va_groups holder)"
proof -
  obtain c s1 where c: "verify_access_jwt (rp_library rp) (rp_jwt_verifier rp) token s = (Inr (Inr c), s1)"
    and "ret (access_token_profile c parties (cc_client_id (rp_config rp))) s1 = (Inr (Inr holder), s')"
    using assms unfolding verify_access_token_def bindV_eq_Inr by blast
  then have "access_token_profile c parties (cc_client_id (rp_config rp)) = Inr holder" "s1 = s'" by simp_all
  with verify_access_jwt_held[OF c] access_token_profile_Inr[OF this(1)] show ?thesis by blast
qed

lemma admit_resource_holder_Some:
  assumes "account_contract (accounts (si_stores tx)) record_event account events ok" and "si_context tx = rollback_tx"
    and "admit_resource_holder tx holder required_group admission s = (Inr (Some person), s')"
  shows "s' = s \<and> app_role (va_groups holder) admission \<noteq> None \<and> is_member_of required_group (va_groups holder)
    \<and> (\<exists>a. account s (va_subject holder) = Some a
        \<and> person = \<lparr>au_id = ur_id a, au_username = ur_username a, au_role = py ''user''\<rparr>)"
  using assms(2,3)
  by (auto simp: admit_resource_holder_def in_rollback_tx bindA_def account_contract.get[OF assms(1)]
      split: if_splits option.splits)

section \<open>What each kind of path lets through\<close>

lemma bind_refused [simp]: "bindA (refused refusal parameters sc) f = f (Some (bearer_response refusal parameters), sc)"
  by (simp add: refused_def)

lemma admitted_then:
  "bindA (admitted sc caller m) (\<lambda>r. ret (Some r)) s = (Inr w, s')
    \<longleftrightarrow> (\<exists>sc'. record_bearer_admission sc caller m = Inr sc' \<and> w = Some (None, sc') \<and> s' = s)"
  by (cases "record_bearer_admission sc caller m") (auto simp: admitted_def bindA_def)

lemma machine_refusal_passes:
  assumes "machine_refusal policy machine sc s = (Inr (None, sc'), s')"
  shows "\<exists>token holder. credential_of sc = Inr (Inr token)
    \<and> verify_access_token (bg_relying_party policy) token (mp_authorized_parties machine) s = (Inr (Inr holder), s')
    \<and> app_role (va_groups holder) (bg_admission policy) = Some ADMIN
    \<and> record_bearer_admission sc (BearerCaller (va_subject holder)) None = Inr sc'"
  using assms unfolding machine_refusal_def
  by (auto simp: bindA_cases_Inr admitted_eq_None split: if_split_asm)

lemma resource_refusal_passes:
  assumes "resource_refusal policy resource verify_token on_marked_route sc s = (Inr (Some (None, sc')), s')"
  shows "\<exists>token holder person s1. credential_of sc = Inr (Inr token) \<and> verify_token token s = (Inr (Inr holder), s1)
    \<and> admit_resource_holder (prs_transaction resource) holder (prs_required_group resource) (bg_admission policy) s1
        = (Inr (Some person), s')
    \<and> record_bearer_admission sc (Account person) (Some (sc_method sc)) = Inr sc'"
  using assms unfolding resource_refusal_def
  by (auto simp: bindA_cases_Inr admitted_then split: if_split_asm)

lemma resource_refusal_decides: "resource_refusal policy resource verify_token False sc s \<noteq> (Inr None, s')"
  unfolding resource_refusal_def
  by (auto simp: bindA_cases_Inr admitted_then split: if_split_asm)

text \<open>A marked route hands a request on only without a credential, or for a token of another audience.\<close>

lemma resource_refusal_continues:
  assumes "resource_refusal policy resource verify_token on_marked_route sc s = (Inr None, s')"
  shows "on_marked_route \<and> (credential_of sc = Inr (Inl Bearer_NO_CREDENTIALS) \<and> s' = s
    \<or> (\<exists>token reason. credential_of sc = Inr (Inr token) \<and> verify_token token s = (Inr (Inl reason), s')
        \<and> names_another_audience reason))"
  using assms unfolding resource_refusal_def
  by (auto simp: bindA_cases_Inr admitted_then split: if_split_asm)

lemma person_refusal_passes:
  assumes "person_refusal policy person sc s = (Inr (None, sc'), s')"
  shows "credential_of sc = Inr (Inl Bearer_NO_CREDENTIALS) \<and> sc' = sc \<and> s' = s
    \<or> (\<exists>token holder user s1. credential_of sc = Inr (Inr token)
        \<and> verify_access_token (bg_relying_party policy) token (pp_authorized_parties person) s = (Inr (Inr holder), s1)
        \<and> admit_token_holder (pp_transaction person) holder (bg_admission policy) s1 = (Inr (Inr user), s')
        \<and> record_bearer_admission sc (Account user) None = Inr sc')"
  using assms unfolding person_refusal_def
  by (auto simp: bindA_cases_Inr admitted_eq_None split: if_split_asm)

lemma admitted_account:
  assumes accounts: "account_contract (accounts (si_stores tx)) (audit (si_stores tx)) account events ok" "si_context tx = rollback_tx"
    and "ok s" and found: "admit_token_holder tx holder admission s = (Inr (Inr user), s')"
  shows "\<exists>derived a. app_role (va_groups holder) admission = Some derived \<and> user = authenticated a
    \<and> ur_id a = va_subject holder \<and> ur_role a = role_value derived \<and> account s' = (account s)(va_subject holder \<mapsto> a)"
proof -
  obtain derived a where derived: "app_role (va_groups holder) admission = Some derived" "user = authenticated a"
    and admit: "admit_account (accounts (si_stores tx)) (audit (si_stores tx)) (claimant_of_token holder) (role_value derived) s = (Inr a, s')"
    using found
    by (auto simp: admit_token_holder_def accounts(2) in_rollback_tx refuse_def bindA_eq_Inr
        split: option.splits sum.splits prod.splits exn.splits)
  have cl: "cl_subject (claimant_of_token holder) = va_subject holder" by (simp add: claimant_of_token_def)
  note effect = account_contract.admit_account_effect[OF accounts(1) \<open>ok s\<close> admit, unfolded cl]
  have "ur_id a = va_subject holder" "ur_role a = role_value derived"
    using effect account_contract.account_id[OF accounts(1) \<open>ok s\<close>, of "va_subject holder"]
    by (auto simp: account_after_def cl split: option.splits)
  with derived effect show ?thesis by blast
qed

section \<open>A gate to evaluate\<close>

text \<open>Over \<open>sample_host\<close>: every token but \<open>rs\<close> is for the client \<open>app\<close>, \<open>rs\<close> is for the resource; their
  holder is \<open>u1\<close>, in the group of the admins. Machines call \<open>/m\<close>, people \<open>/p\<close>, agents \<open>/mcp\<close>.\<close>

definition agent_claims :: "pystr \<Rightarrow> json_object" where
  "agent_claims token =
     [(py ''exp'', PyInt 200), (py ''iat'', PyInt 148),
      (py ''aud'', PyStr (if token = py ''rs'' then py ''https://app.example/mcp'' else py ''app'')), (py ''sub'', PyStr (py ''u1'')),
      (py ''azp'', PyStr (py ''cli'')), (py ''scope'', PyStr (py ''mcp'')), (py ''groups'', PyList [PyStr (py ''/admins'')])]"

definition agent_library :: "unit jwt_library" where
  "agent_library = sample_login_library\<lparr>jl_decode := (\<lambda>token _ _ _. Inr (agent_claims token)),
     jl_unverified_header := (\<lambda>_. Some [(py ''alg'', PyStr (py ''RS256'')), (py ''typ'', PyStr (py ''at+jwt''))])\<rparr>"

definition agent_rp :: "(host, unit) relying_party" where
  "agent_rp = still_rp\<lparr>rp_library := agent_library\<rparr>"

definition agent_parties :: authorized_parties where
  "agent_parties = \<lparr>client_ids = {py ''cli''}\<rparr>"

definition agent_transaction :: "host sign_in_transaction" where
  "agent_transaction = \<lparr>si_context = rollback_tx, si_stores = host_stores\<rparr>"

definition agent_resource :: "host protected_resource" where
  "agent_resource = \<lparr>prs_url = py ''https://app.example/mcp'', prs_scope = py ''mcp'', prs_required_group = py ''/admins'',
     prs_authorized_parties = agent_parties, prs_transaction = agent_transaction, prs_marked_routes = {}\<rparr>"

definition agent_gate :: "host protected_resource option \<Rightarrow> (host, unit) bearer_middleware" where
  "agent_gate resource = \<lparr>bm_policy = \<lparr>bg_relying_party = agent_rp,
       bg_admission = \<lparr>bound_issuer = py ''https://id.example'', login_group = EverySubject, admin_group = AdminGroup (py ''/admins'')\<rparr>,
       bg_machine_paths = Some \<lparr>mp_paths = exact_paths {py ''/m''}, mp_authorized_parties = agent_parties\<rparr>,
       bg_person_paths = Some \<lparr>pp_paths = exact_paths {py ''/p''}, pp_authorized_parties = agent_parties,
         pp_transaction = agent_transaction\<rparr>,
       bg_resource = resource\<rparr>,
     bm_resource_verifier = map_option (\<lambda>_. verify_resource_token agent_library
       (still_verifier\<lparr>jv_audiences := [py ''https://app.example/mcp'']\<rparr>) (py ''https://app.example/mcp'') (py ''mcp'') agent_parties) resource\<rparr>"

definition agent_scope :: "pystr \<Rightarrow> pystr option \<Rightarrow> host scope" where
  "agent_scope path token = (sample_scope (case token of None \<Rightarrow> [] | Some t \<Rightarrow> [(py ''authorization'', py ''Bearer '' @ t)]))
     \<lparr>sc_path := path\<rparr>"

definition agent_holder :: verified_access_token where
  "agent_holder = \<lparr>va_subject = py ''u1'', va_groups = [py ''/admins''], va_preferred_username = None\<rparr>"

lemma agent_url:
  "urlsplit (prs_url agent_resource) = Inr \<lparr>up_scheme = py ''https'', up_netloc = py ''app.example'', up_path = py ''/mcp'',
      up_query = [], up_fragment = []\<rparr>"
  by (simp add: agent_resource_def urlsplit_def split_scheme_def is_netloc_end_def is_scheme_char_def is_alpha_ascii_def Let_def text_eval)

lemma agent_claims_lookup [simp]:
  "map_of (agent_claims token) (py ''exp'') = Some (PyInt 200)" "map_of (agent_claims token) (py ''iat'') = Some (PyInt 148)"
  "map_of (agent_claims token) (py ''nbf'') = None" "subject_of (agent_claims token) = Inr (Some (py ''u1''))"
  "audiences_of (agent_claims token) = Inr [PyStr (if token = py ''rs'' then py ''https://app.example/mcp'' else py ''app'')]"
  "map_of (agent_claims token) (py ''azp'') = Some (PyStr (py ''cli''))"
  "map_of (agent_claims token) (py ''preferred_username'') = None"
  "group_paths (agent_claims token) = Some [py ''/admins'']" "holds_scope (agent_claims token) (py ''mcp'')"
  by (simp_all add: agent_claims_def subject_of_def audiences_of_def group_paths_def groups_claim_def holds_scope_def)
    (simp_all add: text_eval)

lemma agent_verifies:
  assumes "token \<in> {py ''at'', py ''rs''}"
  shows "verify agent_library (still_verifier\<lparr>jv_audiences := auds\<rparr>) token None (Some ACCESS_TOKEN_MEDIA_TYPES) s
    = (Inr (Inr \<lparr>vc_subject = Some (py ''u1''), vc_issuer = py ''https://id.example'',
        vc_audiences = [PyStr (if token = py ''rs'' then py ''https://app.example/mcp'' else py ''app'')],
        vc_expires_at = 200, vc_issued_at = 148, vc_claims = agent_claims token\<rparr>), s)"
proof (rule still_verifies)
  show "judged_header agent_library token None (Some ACCESS_TOKEN_MEDIA_TYPES) = Inr None"
    using assms by (auto simp: judged_header_def agent_library_def has_expected_type_def header_key_id_def RS256_def ACCESS_TOKEN_MEDIA_TYPES_def
        MAX_TOKEN_CHARACTERS_def MAX_HEADER_SEGMENT_CHARACTERS_def text_eval)
  show "require_comparable_types None (Some ACCESS_TOKEN_MEDIA_TYPES) = Inr ()"
    by (simp add: require_comparable_types_def ACCESS_TOKEN_MEDIA_TYPES_def text_eval)
qed (simp_all add: agent_library_def)

lemma agent_tokens:
  "verify_access_token agent_rp (py ''at'') agent_parties s = (Inr (Inr agent_holder), s)"
  "verify_resource_token agent_library (still_verifier\<lparr>jv_audiences := [py ''https://app.example/mcp'']\<rparr>) (py ''https://app.example/mcp'')
     (py ''mcp'') agent_parties (py ''rs'') s = (Inr (Inr agent_holder), s)"
proof -
  have other: "py ''at'' \<noteq> py ''rs''" by (simp add: text_eval)
  note at = agent_verifies[of "py ''at''" "[py ''app'']", unfolded still_audience]
  note rs = agent_verifies[of "py ''rs''" "[py ''https://app.example/mcp'']"]
  show "verify_access_token agent_rp (py ''at'') agent_parties s = (Inr (Inr agent_holder), s)"
    by (simp add: verify_access_token_def verify_access_jwt_def bindV_def bindA_def agent_rp_def still_rp_def at other
        sample_client_def access_token_profile_def agent_parties_def agent_holder_def)
  show "verify_resource_token agent_library (still_verifier\<lparr>jv_audiences := [py ''https://app.example/mcp'']\<rparr>)
       (py ''https://app.example/mcp'') (py ''mcp'') agent_parties (py ''rs'') s = (Inr (Inr agent_holder), s)"
    by (simp add: verify_resource_token_def verify_access_jwt_def bindV_def bindA_def rs
        access_token_profile_def agent_parties_def agent_holder_def)
qed

lemma agent_credentials:
  "credential_of (agent_scope path (Some (py ''at''))) = Inr (Inr (py ''at''))"
  "credential_of (agent_scope path (Some (py ''rs''))) = Inr (Inr (py ''rs''))"
  "credential_of (agent_scope path None) = Inr (Inl Bearer_NO_CREDENTIALS)"
  by (simp_all add: credential_of_def agent_scope_def sample_scope_def getlist_def in_query_params_def parse_qsl_def
      strip_of_def is_blank_def one_credential_def is_auth_scheme_char_def is_method_char_def is_access_token_text_def text_eval)

lemma agent_route [simp]: "route_path (agent_scope path token) = path"
  by (simp add: route_path_def agent_scope_def sample_scope_def)

lemma agent_admitted:
  "\<exists>sc'. record_bearer_admission (agent_scope path (Some token)) caller m = Inr sc'"
  by (simp add: record_bearer_admission_def agent_scope_def sample_scope_def getlist_def text_eval)

section \<open>Properties\<close>

text \<open>C33. A machine path passes a request only for an admin's token. The request has exactly one
  \<open>Authorization\<close> line, the bearer scheme and one token; the token verified as an access token for this
  client, issued to one of the machine parties, and its groups make its subject an admin. The route is
  told the subject as its caller and nothing else: no account is read from this request, whatever
  cookie it carries.\<close>

theorem machine_path_passes_only_admins:
  assumes "bg_machine_paths (bm_policy mw) = Some machine" and "rules_match (mp_paths machine) (route_path sc)"
    and "bearer_gate mw sc s = (Inr (None, sc'), s')"
  shows "\<exists>line scheme spaces token (holder :: verified_access_token) c azp. getlist sc (py ''authorization'') = [line]
    \<and> strip_of is_blank line = scheme @ spaces @ token \<and> lower_py scheme = py ''bearer'' \<and> set spaces = {32}
    \<and> verify (rp_library (bg_relying_party (bm_policy mw))) (rp_jwt_verifier (bg_relying_party (bm_policy mw))) token None
        (Some ACCESS_TOKEN_MEDIA_TYPES) s = (Inr (Inr c), s')
    \<and> vc_audiences c = [PyStr (cc_client_id (rp_config (bg_relying_party (bm_policy mw))))]
    \<and> map_of (vc_claims c) (py ''azp'') = Some (PyStr azp) \<and> azp \<in> client_ids (mp_authorized_parties machine)
    \<and> vc_subject c = Some (va_subject holder) \<and> group_paths (vc_claims c) = Some (va_groups holder)
    \<and> app_role (va_groups holder) (bg_admission (bm_policy mw)) = Some ADMIN
    \<and> bearer_caller sc' = Inr (va_subject holder)
    \<and> (\<forall>parse_cookie store t. gate_or_own_admission parse_cookie sc' store t = (Inl RuntimeError, t))"
proof -
  let ?rp = "bg_relying_party (bm_policy mw)"
  have run: "machine_refusal (bm_policy mw) machine sc s = (Inr (None, sc'), s')"
    using assms by (simp add: bearer_gate_def)
  obtain token holder where token: "credential_of sc = Inr (Inr token)"
    and verified: "verify_access_token ?rp token (mp_authorized_parties machine) s = (Inr (Inr holder), s')"
    and role: "app_role (va_groups holder) (bg_admission (bm_policy mw)) = Some ADMIN"
    and recorded: "record_bearer_admission sc (BearerCaller (va_subject holder)) None = Inr sc'"
    using machine_refusal_passes[OF run] by blast
  obtain line scheme spaces where line: "getlist sc (py ''authorization'') = [line]" "strip_of is_blank line = scheme @ spaces @ token"
      "lower_py scheme = py ''bearer''" "spaces \<noteq> []" "set spaces \<subseteq> {32}"
    using credential_of_token[OF token] by blast
  then have "set spaces = {32}" by (cases spaces) auto
  obtain c azp where c: "verify (rp_library ?rp) (rp_jwt_verifier ?rp) token None (Some ACCESS_TOKEN_MEDIA_TYPES) s = (Inr (Inr c), s')"
      "vc_audiences c = [PyStr (cc_client_id (rp_config ?rp))]" "map_of (vc_claims c) (py ''azp'') = Some (PyStr azp)"
      "azp \<in> client_ids (mp_authorized_parties machine)" "vc_subject c = Some (va_subject holder)"
      "group_paths (vc_claims c) = Some (va_groups holder)"
    using verify_access_token_held[OF verified] by blast
  note readers = caller_is_no_account[OF recorded]
  show ?thesis
    by (intro exI conjI allI) (fact | rule readers)+
qed

lemma machine_path_passes_only_admins_witness:
  "\<exists>sc'. bearer_gate (agent_gate None) (agent_scope (py ''/m'') (Some (py ''at''))) sample_host = (Inr (None, sc'), sample_host)
    \<and> bearer_caller sc' = Inr (py ''u1'')"
proof -
  let ?mw = "agent_gate None" and ?sc = "agent_scope (py ''/m'') (Some (py ''at''))"
  obtain machine where machine: "bg_machine_paths (bm_policy ?mw) = Some machine" "rules_match (mp_paths machine) (route_path ?sc)"
      "mp_authorized_parties machine = agent_parties"
    by (simp add: agent_gate_def rules_match_def exact_paths_def no_paths_def)
  obtain sc' where sc': "record_bearer_admission ?sc (BearerCaller (py ''u1'')) None = Inr sc'" using agent_admitted by blast
  have role: "app_role (va_groups agent_holder) (bg_admission (bm_policy ?mw)) = Some ADMIN" "va_subject agent_holder = py ''u1''"
    by (simp_all add: agent_gate_def agent_holder_def app_role_def is_member_of_def)
  have rp: "bg_relying_party (bm_policy ?mw) = agent_rp" by (simp add: agent_gate_def)
  have run: "bearer_gate ?mw ?sc sample_host = (Inr (None, sc'), sample_host)"
    using machine by (simp add: bearer_gate_def machine_refusal_def agent_credentials bindA_def rp agent_tokens role admitted_def sc')
  from machine_path_passes_only_admins[OF machine(1,2) run] run caller_is_no_account(1)[OF sc'] show ?thesis by blast
qed

text \<open>C34. The resource's entry point passes a request only as a capped person. Its token passed the
  resource's own check, its groups hold the login group and the resource's required group, and its
  subject has an account; nothing is written to the accounts. The route, and every dependency that
  reads an account, is told that account's id and name with the role \<open>user\<close>, whatever role is
  stored and whatever cookie came along, and an admin route refuses it with 403.\<close>

theorem resource_admits_only_capped_persons:
  assumes "\<forall>machine. bg_machine_paths (bm_policy mw) = Some machine \<longrightarrow> \<not> rules_match (mp_paths machine) (route_path sc)"
    and resource: "bg_resource (bm_policy mw) = Some resource" "bm_resource_verifier mw = Some verify_token"
      "entry_point resource = Inr (route_path sc)"
    and accounts: "account_contract (accounts (si_stores (prs_transaction resource))) record_event account events ok"
      "si_context (prs_transaction resource) = rollback_tx"
    and run: "bearer_gate mw sc s = (Inr (None, sc'), s')"
  shows "\<exists>token holder a person he. credential_of sc = Inr (Inr token) \<and> verify_token token s = (Inr (Inr holder), s')
    \<and> app_role (va_groups holder) (bg_admission (bm_policy mw)) \<noteq> None
    \<and> is_member_of (prs_required_group resource) (va_groups holder)
    \<and> account s' (va_subject holder) = Some a
    \<and> person = \<lparr>au_id = ur_id a, au_username = ur_username a, au_role = py ''user''\<rparr>
    \<and> resource_person sc' = Inr person \<and> bearer_caller sc' = Inl RuntimeError
    \<and> (\<forall>parse_cookie store t. gate_or_own_admission parse_cookie sc' store t = (Inr (Inr person), t))
    \<and> require_admin sc' person = Inl he \<and> he_status he = 403"
proof -
  have on_entry: "entry_point_rule resource = Inr (exact_paths {route_path sc})" "rules_match (exact_paths {route_path sc}) (route_path sc)"
    using resource(3) by (simp_all add: entry_point_rule_def rules_match_def exact_paths_def no_paths_def)
  have "on_resource mw sc s = (Inr (None, sc'), s')"
    using run assms(1) by (simp add: bearer_gate_def split: option.splits)
  then obtain decided s2 where decided: "resource_refusal (bm_policy mw) resource verify_token False sc s = (Inr decided, s2)"
      and answer: "(case decided of Some answer \<Rightarrow> ret answer | None \<Rightarrow> on_person_path (bm_policy mw) sc) s2 = (Inr (None, sc'), s')"
    using resource(1,2) on_entry by (auto simp: on_resource_def Let_def bindA_eq_Inr)
  then have "resource_refusal (bm_policy mw) resource verify_token False sc s = (Inr (Some (None, sc')), s')"
    by (cases decided) (auto simp: resource_refusal_decides)
  from resource_refusal_passes[OF this] obtain token holder person s1 where token: "credential_of sc = Inr (Inr token)"
    and verified: "verify_token token s = (Inr (Inr holder), s1)"
    and found: "admit_resource_holder (prs_transaction resource) holder (prs_required_group resource)
      (bg_admission (bm_policy mw)) s1 = (Inr (Some person), s')"
    and recorded: "record_bearer_admission sc (Account person) (Some (sc_method sc)) = Inr sc'"
    by blast
  note held = admit_resource_holder_Some[OF accounts found]
  obtain a where a: "account s1 (va_subject holder) = Some a"
      "person = \<lparr>au_id = ur_id a, au_username = ur_username a, au_role = py ''user''\<rparr>"
    using held by blast
  have "au_role person \<noteq> role_value ADMIN" using a(2) by (simp add: text_eval)
  then obtain he where he: "require_admin sc' person = Inl he" "he_status he = 403"
    by (simp add: require_admin_def Let_def)
  note readers = person_is_the_account[OF recorded]
  show ?thesis
    by (rule exI[of _ token], rule exI[of _ holder], rule exI[of _ a], rule exI[of _ person], rule exI[of _ he])
      (use token verified held a he readers in simp)
qed

lemma resource_admits_only_capped_persons_witness:
  "\<exists>sc' person. bearer_gate (agent_gate (Some agent_resource)) (agent_scope (py ''/mcp'') (Some (py ''rs''))) sample_host
      = (Inr (None, sc'), sample_host)
    \<and> resource_person sc' = Inr person \<and> au_role person = py ''user''"
proof -
  let ?mw = "agent_gate (Some agent_resource)" and ?sc = "agent_scope (py ''/mcp'') (Some (py ''rs''))"
  let ?a = "\<lparr>ur_id = py ''u1'', ur_username = py ''ann'', ur_role = py ''admin''\<rparr>"
  let ?person = "\<lparr>au_id = py ''u1'', au_username = py ''ann'', au_role = py ''user''\<rparr>"
  have parts: "bg_resource (bm_policy ?mw) = Some agent_resource" "prs_transaction agent_resource = agent_transaction"
      "si_context agent_transaction = rollback_tx" "si_stores agent_transaction = host_stores"
      "prs_required_group agent_resource = py ''/admins''"
    by (simp_all add: agent_gate_def agent_resource_def agent_transaction_def)
  obtain verify_token where verify_token: "bm_resource_verifier ?mw = Some verify_token"
      "verify_token (py ''rs'') sample_host = (Inr (Inr agent_holder), sample_host)"
    using agent_tokens(2) by (simp add: agent_gate_def)
  have "py ''/mcp'' \<noteq> py ''/m''" by (simp add: text_eval)
  then have machine: "\<forall>machine. bg_machine_paths (bm_policy ?mw) = Some machine \<longrightarrow> \<not> rules_match (mp_paths machine) (route_path ?sc)"
    by (simp add: agent_gate_def rules_match_def exact_paths_def no_paths_def startswith_any_def)
  have entry: "entry_point agent_resource = Inr (route_path ?sc)" by (simp add: entry_point_def agent_url)
  have contract: "account_contract (accounts (si_stores (prs_transaction agent_resource))) recording_audit_sink host_account snd host_ok"
    by (simp add: parts host_stores_def host_account_contract)
  have account: "us_get (accounts host_stores) (py ''u1'') sample_host = (Inr (Some ?a), sample_host)"
    by (simp add: host_stores_def host_users_def on_memory_def mem_get_def sample_host_def)
  obtain sc' where sc': "record_bearer_admission ?sc (Account ?person) (Some (sc_method ?sc)) = Inr sc'" using agent_admitted by blast
  have role: "app_role (va_groups agent_holder) (bg_admission (bm_policy ?mw)) = Some ADMIN" "va_subject agent_holder = py ''u1''"
      "is_member_of (py ''/admins'') (va_groups agent_holder)"
    by (simp_all add: agent_gate_def agent_holder_def app_role_def is_member_of_def)
  have holder: "admit_resource_holder agent_transaction agent_holder (py ''/admins'') (bg_admission (bm_policy ?mw)) sample_host
      = (Inr (Some ?person), sample_host)"
    by (simp add: admit_resource_holder_def role parts in_rollback_tx bindA_def account)
  have challenge: "\<exists>parameters. challenge_parameters agent_resource = Inr parameters"
    by (simp add: challenge_parameters_def metadata_url_def metadata_path_def entry_point_def agent_url)
  have "bearer_gate ?mw ?sc sample_host = on_resource ?mw ?sc sample_host"
    using machine by (simp add: bearer_gate_def split: option.split)
  also have "\<dots> = (Inr (None, sc'), sample_host)"
    using challenge verify_token entry
    by (auto simp: on_resource_def parts(1,2,5) Let_def entry_point_rule_def rules_match_def exact_paths_def no_paths_def resource_refusal_def
        agent_credentials bindA_def holder admitted_def sc')
  finally have run: "bearer_gate ?mw ?sc sample_host = (Inr (None, sc'), sample_host)" .
  have tx: "si_context (prs_transaction agent_resource) = rollback_tx" by (simp add: parts)
  from resource_admits_only_capped_persons[OF machine parts(1) verify_token(1) entry contract tx run] run
  show ?thesis by auto
qed

text \<open>Where the protected resource decides: at its entry point, and on its marked routes, where a token
  another audience's check refuses is handed on.\<close>

definition at_entry_point :: "('s, 'k) bearer_middleware \<Rightarrow> 's scope \<Rightarrow> bool" where
  "at_entry_point mw sc \<longleftrightarrow> bm_resource_verifier mw \<noteq> None
     \<and> (\<exists>resource. bg_resource (bm_policy mw) = Some resource \<and> entry_point resource = Inr (route_path sc))"

definition on_marked_route :: "('s, 'k) bearer_middleware \<Rightarrow> 's scope \<Rightarrow> bool" where
  "on_marked_route mw sc \<longleftrightarrow> bm_resource_verifier mw \<noteq> None \<and> \<not> at_entry_point mw sc
     \<and> (\<exists>resource. bg_resource (bm_policy mw) = Some resource \<and> marks resource (sc_method sc) (route_path sc))"

definition for_another_audience :: "('s, 'k) bearer_middleware \<Rightarrow> pystr \<Rightarrow> 's \<Rightarrow> 's \<Rightarrow> bool" where
  "for_another_audience mw token s s' \<longleftrightarrow> (\<exists>verify_token reason. bm_resource_verifier mw = Some verify_token
     \<and> verify_token token s = (Inr (Inl reason), s') \<and> names_another_audience reason)"

lemma on_resource_passes:
  assumes run: "on_resource mw sc s = (Inr (None, sc'), s')"
  shows "(\<exists>s0. \<not> at_entry_point mw sc \<and> on_person_path (bm_policy mw) sc s0 = (Inr (None, sc'), s')
      \<and> (if on_marked_route mw sc \<and> credential_of sc \<noteq> Inr (Inl Bearer_NO_CREDENTIALS)
         then \<exists>token. credential_of sc = Inr (Inr token) \<and> for_another_audience mw token s s0 else s0 = s))
    \<or> (\<exists>resource verify_token token holder person s1. (at_entry_point mw sc \<or> on_marked_route mw sc)
        \<and> bg_resource (bm_policy mw) = Some resource \<and> bm_resource_verifier mw = Some verify_token
        \<and> credential_of sc = Inr (Inr token) \<and> verify_token token s = (Inr (Inr holder), s1)
        \<and> admit_resource_holder (prs_transaction resource) holder (prs_required_group resource) (bg_admission (bm_policy mw)) s1
            = (Inr (Some person), s')
        \<and> record_bearer_admission sc (Account person) (Some (sc_method sc)) = Inr sc')"
proof (cases "bg_resource (bm_policy mw) = None \<or> bm_resource_verifier mw = None")
  case True
  then have "on_person_path (bm_policy mw) sc s = (Inr (None, sc'), s')" "\<not> at_entry_point mw sc" "\<not> on_marked_route mw sc"
    using run by (auto simp: on_resource_def Let_def at_entry_point_def on_marked_route_def split: option.splits)
  then show ?thesis by auto
next
  case False
  then obtain resource verify_token where r: "bg_resource (bm_policy mw) = Some resource" "bm_resource_verifier mw = Some verify_token"
    by auto
  obtain path where path: "entry_point resource = Inr path"
    using run by (auto simp: on_resource_def Let_def r bindA_eq_Inr entry_point_rule_def)
  have entry: "at_entry_point mw sc \<longleftrightarrow> route_path sc = path" and marked: "on_marked_route mw sc \<longleftrightarrow>
      route_path sc \<noteq> path \<and> marks resource (sc_method sc) (route_path sc)"
    by (auto simp: at_entry_point_def on_marked_route_def r path)
  show ?thesis
  proof (cases "route_path sc = path \<or> marks resource (sc_method sc) (route_path sc)")
    case True
    then obtain decided s2 where decided: "resource_refusal (bm_policy mw) resource verify_token (route_path sc \<noteq> path) sc s = (Inr decided, s2)"
      and answer: "(case decided of Some answer \<Rightarrow> ret answer | None \<Rightarrow> on_person_path (bm_policy mw) sc) s2 = (Inr (None, sc'), s')"
      using run by (auto simp: on_resource_def Let_def r bindA_eq_Inr entry_point_rule_def path)
    show ?thesis
    proof (cases decided)
      case None
      from resource_refusal_continues[OF decided[unfolded None]] answer True show ?thesis
        by (auto simp: None entry marked for_another_audience_def r)
    next
      case (Some a)
      with decided answer have "resource_refusal (bm_policy mw) resource verify_token (route_path sc \<noteq> path) sc s = (Inr (Some (None, sc')), s')"
        by auto
      from resource_refusal_passes[OF this] True r show ?thesis by (auto simp: entry marked)
    qed
  next
    case False
    then have "on_person_path (bm_policy mw) sc s = (Inr (None, sc'), s')"
      using run by (simp add: on_resource_def Let_def r entry_point_rule_def path)
    with False show ?thesis by (auto simp: entry marked)
  qed
qed

text \<open>C35. On a person path a request is its token's person or its session's, whether or not the gate has a
  protected resource. Away from the resource's entry point and without a bearer credential the gate
  changes nothing but the mark that the path is a person path, and the session decides. With one, the
  token verified for this client and one of the person parties, its groups gave a role, the
  subject's account now carries that role, every other account is as it was, and every dependency is
  told that account, whatever cookie came along; on one of the resource's marked routes only after the
  resource's verifier refused the token as another audience's. The one other way in is the resource's, at
  its entry point or on a marked route: its verifier accepted the token, the holder is in the required
  group and has an account, and every dependency is told that account with the role \<open>user\<close>.\<close>

theorem person_path_is_account_or_session:
  assumes "\<forall>machine. bg_machine_paths (bm_policy mw) = Some machine \<longrightarrow> \<not> rules_match (mp_paths machine) (route_path sc)"
    and person: "bg_person_paths (bm_policy mw) = Some person" "rules_match (pp_paths person) (route_path sc)"
    and accounts: "account_contract (accounts (si_stores (pp_transaction person))) (audit (si_stores (pp_transaction person))) account events ok"
      "si_context (pp_transaction person) = rollback_tx"
    and resource: "\<forall>resource. bg_resource (bm_policy mw) = Some resource \<longrightarrow>
        account_contract (accounts (si_stores (prs_transaction resource))) record_event account events ok
        \<and> si_context (prs_transaction resource) = rollback_tx"
      "\<forall>verify_token token. bm_resource_verifier mw = Some verify_token \<longrightarrow> keeps ok (verify_token token)"
    and verifying: "\<forall>token. keeps ok (verify_access_token (bg_relying_party (bm_policy mw)) token (pp_authorized_parties person))"
    and "ok s" and run: "bearer_gate mw sc s = (Inr (None, sc'), s')"
  shows "\<not> at_entry_point mw sc \<and> credential_of sc = Inr (Inl Bearer_NO_CREDENTIALS) \<and> sc' = mark_person_path sc \<and> s' = s
    \<or> (\<exists>token holder s0 s1 derived a. \<not> at_entry_point mw sc \<and> credential_of sc = Inr (Inr token)
        \<and> (if on_marked_route mw sc then for_another_audience mw token s s0 else s0 = s)
        \<and> verify_access_token (bg_relying_party (bm_policy mw)) token (pp_authorized_parties person) s0 = (Inr (Inr holder), s1)
        \<and> app_role (va_groups holder) (bg_admission (bm_policy mw)) = Some derived
        \<and> ur_id a = va_subject holder \<and> ur_role a = role_value derived \<and> account s' = (account s1)(va_subject holder \<mapsto> a)
        \<and> resource_person sc' = Inl RuntimeError
        \<and> (\<forall>parse_cookie store t. gate_or_own_admission parse_cookie sc' store t = (Inr (Inr (authenticated a)), t)))
    \<or> (\<exists>resource verify_token token holder a u. (at_entry_point mw sc \<or> on_marked_route mw sc)
        \<and> bg_resource (bm_policy mw) = Some resource \<and> bm_resource_verifier mw = Some verify_token
        \<and> credential_of sc = Inr (Inr token) \<and> verify_token token s = (Inr (Inr holder), s')
        \<and> app_role (va_groups holder) (bg_admission (bm_policy mw)) \<noteq> None
        \<and> is_member_of (prs_required_group resource) (va_groups holder) \<and> account s' (va_subject holder) = Some a
        \<and> u = \<lparr>au_id = ur_id a, au_username = ur_username a, au_role = py ''user''\<rparr>
        \<and> resource_person sc' = Inr u
        \<and> (\<forall>parse_cookie store t. gate_or_own_admission parse_cookie sc' store t = (Inr (Inr u), t)))"
proof -
  let ?sc = "mark_person_path sc" and ?rp = "bg_relying_party (bm_policy mw)"
  have same: "credential_of ?sc = credential_of sc" by (rule credential_of_mark)
  have "on_resource mw sc s = (Inr (None, sc'), s')"
    using run assms(1) by (simp add: bearer_gate_def split: option.splits)
  from on_resource_passes[OF this] show ?thesis
  proof (rule disjE, goal_cases)
    case 1
    then obtain s0 where off: "\<not> at_entry_point mw sc" and passed: "on_person_path (bm_policy mw) sc s0 = (Inr (None, sc'), s')"
      and before: "if on_marked_route mw sc \<and> credential_of sc \<noteq> Inr (Inl Bearer_NO_CREDENTIALS)
         then \<exists>token. credential_of sc = Inr (Inr token) \<and> for_another_audience mw token s s0 else s0 = s"
      by blast
    have "ok s0" using before resource(2) \<open>ok s\<close> by (auto simp: for_another_audience_def dest: keepsD split: if_split_asm)
    have "person_refusal (bm_policy mw) person ?sc s0 = (Inr (None, sc'), s')"
      using passed person by (simp add: on_person_path_def)
    from person_refusal_passes[OF this, unfolded same] show ?thesis
    proof (elim disjE exE conjE)
      fix token holder user s1
      assume token: "credential_of sc = Inr (Inr token)"
        and verified: "verify_access_token ?rp token (pp_authorized_parties person) s0 = (Inr (Inr holder), s1)"
        and found: "admit_token_holder (pp_transaction person) holder (bg_admission (bm_policy mw)) s1 = (Inr (Inr user), s')"
        and recorded: "record_bearer_admission ?sc (Account user) None = Inr sc'"
      have handed: "if on_marked_route mw sc then for_another_audience mw token s s0 else s0 = s"
        using before token by (auto split: if_split_asm)
      from admitted_account[OF accounts _ found] keepsD[OF verifying[rule_format] verified] \<open>ok s0\<close> obtain derived a where
        "app_role (va_groups holder) (bg_admission (bm_policy mw)) = Some derived" "user = authenticated a"
        "ur_id a = va_subject holder" "ur_role a = role_value derived" "account s' = (account s1)(va_subject holder \<mapsto> a)"
        by blast
      with off token handed verified person_is_the_account[OF recorded] show ?thesis by blast
    qed (use off before in auto)
  next
    case 2
    then obtain res verify_token token holder user s1 where r: "bg_resource (bm_policy mw) = Some res" "bm_resource_verifier mw = Some verify_token"
      and where_: "at_entry_point mw sc \<or> on_marked_route mw sc"
      and token: "credential_of sc = Inr (Inr token)" "verify_token token s = (Inr (Inr holder), s1)"
      and found: "admit_resource_holder (prs_transaction res) holder (prs_required_group res) (bg_admission (bm_policy mw)) s1
            = (Inr (Some user), s')"
      and recorded: "record_bearer_admission sc (Account user) (Some (sc_method sc)) = Inr sc'"
      by blast
    from admit_resource_holder_Some[OF _ _ found] resource(1) r(1) obtain a where
      held: "s' = s1" "app_role (va_groups holder) (bg_admission (bm_policy mw)) \<noteq> None"
        "is_member_of (prs_required_group res) (va_groups holder)" "account s1 (va_subject holder) = Some a"
        "user = \<lparr>au_id = ur_id a, au_username = ur_username a, au_role = py ''user''\<rparr>" by blast
    note readers = person_is_the_account[OF recorded]
    show ?thesis
      by (rule disjI2, rule disjI2, rule exI[of _ res], rule exI[of _ verify_token], rule exI[of _ token], rule exI[of _ holder],
          rule exI[of _ a], rule exI[of _ user])
        (use r where_ token held readers in simp)
  qed
qed

lemma agent_account_admitted:
  "\<exists>h a. admit_token_holder agent_transaction agent_holder (bg_admission (bm_policy (agent_gate resource))) sample_host
      = (Inr (Inr (authenticated a)), h)"
  by (simp add: admit_token_holder_def agent_gate_def agent_holder_def app_role_def is_member_of_def agent_transaction_def in_rollback_tx
      admit_account_def claimant_of_token_def host_stores_def host_users_def on_memory_def mem_get_def mem_set_role_def with_role_def
      sample_host_def bindA_def Let_def) (rule exI, rule refl)

lemma person_path_is_account_or_session_witness:
  "\<exists>sc' h a. bearer_gate (agent_gate (Some agent_resource)) (agent_scope (py ''/p'') (Some (py ''at''))) sample_host = (Inr (None, sc'), h)
    \<and> ur_id a = py ''u1'' \<and> ur_role a = py ''admin''
    \<and> (\<forall>parse_cookie store t. gate_or_own_admission parse_cookie sc' store t = (Inr (Inr (authenticated a)), t))"
proof -
  let ?mw = "agent_gate (Some agent_resource)" and ?sc = "agent_scope (py ''/p'') (Some (py ''at''))"
  obtain person where person: "bg_person_paths (bm_policy ?mw) = Some person" "rules_match (pp_paths person) (route_path ?sc)"
      "pp_transaction person = agent_transaction" "pp_authorized_parties person = agent_parties"
    by (simp add: agent_gate_def rules_match_def exact_paths_def no_paths_def)
  have "py ''/p'' \<noteq> py ''/m''" "py ''/p'' \<noteq> py ''/mcp''" by (simp_all add: text_eval)
  then have machine: "\<forall>machine. bg_machine_paths (bm_policy ?mw) = Some machine \<longrightarrow> \<not> rules_match (mp_paths machine) (route_path ?sc)"
    and off: "\<not> at_entry_point ?mw ?sc" "\<not> on_marked_route ?mw ?sc"
    by (simp_all add: agent_gate_def rules_match_def exact_paths_def no_paths_def startswith_any_def at_entry_point_def on_marked_route_def
        entry_point_def agent_url marks_def) (simp add: agent_resource_def)
  have contract: "account_contract (accounts (si_stores (pp_transaction person))) (audit (si_stores (pp_transaction person)))
      host_account snd host_ok" "si_context (pp_transaction person) = rollback_tx"
    and resource: "\<forall>resource. bg_resource (bm_policy ?mw) = Some resource \<longrightarrow>
        account_contract (accounts (si_stores (prs_transaction resource))) recording_audit_sink host_account snd host_ok
        \<and> si_context (prs_transaction resource) = rollback_tx"
    by (simp_all add: person(3) agent_transaction_def host_stores_def host_account_contract agent_gate_def agent_resource_def)
  have pure: "pure_act (verify_access_token agent_rp token parties)"
      "pure_act (verify_resource_token agent_library ((still_verifier :: (host, unit) jwt_verifier)\<lparr>jv_audiences := auds\<rparr>) url scope parties token)" for token parties auds url scope
    unfolding verify_access_token_def verify_resource_token_def verify_access_jwt_def agent_rp_def still_rp_def relying_party.simps
    by (intro pure_intros still_verification_pure still_audiences_pure)+
  then have verifying: "\<forall>token. keeps host_ok (verify_access_token (bg_relying_party (bm_policy ?mw)) token (pp_authorized_parties person))"
    "\<forall>verify_token token. bm_resource_verifier ?mw = Some verify_token \<longrightarrow> keeps host_ok (verify_token token)"
    by (auto simp: agent_gate_def intro: keeps_pure)
  obtain h a where admitted: "admit_token_holder agent_transaction agent_holder (bg_admission (bm_policy ?mw)) sample_host
      = (Inr (Inr (authenticated a)), h)" using agent_account_admitted by blast
  obtain sc' where recorded: "record_bearer_admission (mark_person_path ?sc) (Account (authenticated a)) None = Inr sc'"
    by (simp add: record_bearer_admission_def mark_person_path_def agent_scope_def sample_scope_def getlist_def text_eval)
  have rp: "bg_relying_party (bm_policy ?mw) = agent_rp" by (simp add: agent_gate_def)
  obtain path where path: "entry_point agent_resource = Inr path" "path \<noteq> py ''/p''"
    using \<open>py ''/p'' \<noteq> py ''/mcp''\<close> by (simp add: entry_point_def agent_url)
  have "bearer_gate ?mw ?sc sample_host = on_resource ?mw ?sc sample_host"
    using machine by (simp add: bearer_gate_def split: option.split)
  also have "\<dots> = on_person_path (bm_policy ?mw) ?sc sample_host"
    using path by (simp add: on_resource_def agent_gate_def Let_def entry_point_rule_def marks_def) (simp add: agent_resource_def)
  also have "\<dots> = (Inr (None, sc'), h)"
    using person by (simp add: on_person_path_def person_refusal_def credential_of_mark agent_credentials bindA_def rp agent_tokens admitted
        BearerGate.admitted_def recorded)
  finally have run: "bearer_gate ?mw ?sc sample_host = (Inr (None, sc'), h)" .
  have holder: "va_subject agent_holder = py ''u1''" "app_role (va_groups agent_holder) (bg_admission (bm_policy ?mw)) = Some ADMIN"
    by (simp_all add: agent_holder_def agent_gate_def app_role_def is_member_of_def)
  from person_path_is_account_or_session[OF machine person(1,2) contract resource verifying(2,1) sample_host_ok run] run
  show ?thesis by (auto simp: off agent_credentials rp agent_tokens person(4) holder)
qed

text \<open>A marked route without a bearer credential is not the resource's: away from the entry point, a
  request without one is decided exactly as by the gate that has no resource at all.\<close>

theorem unmarked_without_credential:
  assumes "\<And>resource. bg_resource (bm_policy mw) = Some resource \<Longrightarrow>
      (\<exists>path parameters. entry_point resource = Inr path \<and> path \<noteq> route_path sc \<and> challenge_parameters resource = Inr parameters)"
    and "credential_of sc = Inr (Inl Bearer_NO_CREDENTIALS)"
  shows "bearer_gate mw sc = bearer_gate (mw\<lparr>bm_policy := (bm_policy mw)\<lparr>bg_resource := None\<rparr>\<rparr>) sc"
proof -
  let ?policy = "bm_policy mw"
  have person: "person_refusal (?policy\<lparr>bg_resource := None\<rparr>) p sc = person_refusal ?policy p sc"
    and same: "machine_refusal (?policy\<lparr>bg_resource := None\<rparr>) machine sc = machine_refusal ?policy machine sc" for p machine sc
    by (simp_all add: person_refusal_def machine_refusal_def cong: sum.case_cong option.case_cong)
  have "on_person_path (?policy\<lparr>bg_resource := None\<rparr>) sc = on_person_path ?policy sc"
    by (simp add: on_person_path_def person cong: option.case_cong if_cong)
  note same = this same
  have "on_resource mw sc = on_person_path ?policy sc"
  proof (cases "bg_resource ?policy = None \<or> bm_resource_verifier mw = None")
    case True
    then show ?thesis by (auto simp: on_resource_def Let_def split: option.splits)
  next
    case False
    then obtain resource verify_token where r: "bg_resource ?policy = Some resource" "bm_resource_verifier mw = Some verify_token" by auto
    obtain path parameters where p: "entry_point resource = Inr path" "path \<noteq> route_path sc" "challenge_parameters resource = Inr parameters"
      using assms(1)[OF r(1)] by blast
    have "resource_refusal ?policy resource verify_token True sc = ret None"
      by (rule ext) (simp add: resource_refusal_def p(3) assms(2))
    moreover have "\<not> rules_match (exact_paths {path}) (route_path sc)"
      using p(2) by (simp add: rules_match_def exact_paths_def no_paths_def startswith_any_def)
    ultimately show ?thesis by (simp add: on_resource_def Let_def r entry_point_rule_def p(1))
  qed
  then show ?thesis by (simp add: bearer_gate_def on_resource_def same split: option.split)
qed

lemma unmarked_without_credential_witness:
  "bearer_gate (agent_gate (Some agent_resource)) (agent_scope (py ''/p'') None) = bearer_gate
     ((agent_gate (Some agent_resource))\<lparr>bm_policy := (bm_policy (agent_gate (Some agent_resource)))\<lparr>bg_resource := None\<rparr>\<rparr>)
     (agent_scope (py ''/p'') None)"
proof (rule unmarked_without_credential)
  have "py ''/mcp'' \<noteq> py ''/p''" by (simp add: text_eval)
  then show "\<exists>path parameters. entry_point resource = Inr path \<and> path \<noteq> route_path (agent_scope (py ''/p'') None)
      \<and> challenge_parameters resource = Inr parameters"
    if "bg_resource (bm_policy (agent_gate (Some agent_resource))) = Some resource" for resource
    using that by (auto simp: agent_gate_def entry_point_def challenge_parameters_def metadata_url_def metadata_path_def agent_url)
qed (rule agent_credentials)

end
