(* ===== verification/SignInRoutes.thy ===== *)
theory SignInRoutes
  imports OidcLogin SecurityHeaders CsrfGate
begin

text \<open>
  \<open>sign_in_routes.py\<close>: the start, callback, logout and back-channel logout routes, as ASGI
  applications over the host's state. A \<open>Response\<close> the host's \<open>refused\<close> hook returns is any ASGI
  application (\<open>HostAnswer\<close>), one the library builds is a \<open>response\<close> (\<open>LibraryAnswer\<close>). What the
  framework reads of a request for a route is a parameter: \<open>url_query\<close> is Starlette's
  \<open>request.url.query\<close>, \<open>next_of\<close> FastAPI's query parameter \<open>next\<close>; the host's callables are actions
  of the host. The back-channel dependencies are FastAPI's to run and not modelled.
\<close>

section \<open>The host's choices\<close>

record logout_page_text =
  lp_language :: pystr
  lp_button_label :: pystr

definition is_language_tag :: "pystr \<Rightarrow> bool" where
  "is_language_tag tag = (case split_on 45 tag of
      first # subtags \<Rightarrow> 2 \<le> length first \<and> length first \<le> 8 \<and> list_all is_alpha_ascii first
        \<and> list_all (\<lambda>t. 1 \<le> length t \<and> length t \<le> 8 \<and> list_all is_alnum_ascii t) subtags
    | [] \<Rightarrow> False)"

fun LogoutPageText :: "pyobj \<Rightarrow> pystr \<Rightarrow> exn + logout_page_text" where
  "LogoutPageText (PyStr language) button_label =
     (if is_language_tag language then Inr \<lparr>lp_language = language, lp_button_label = button_label\<rparr> else Inl ValueError)"
| "LogoutPageText _ _ = Inl ValueError"

datatype refusal_page = NO_ACCESS | LOGIN_FAILED

text \<open>\<open>SignInRefusal\<close>: its \<open>cause\<close>.\<close>

datatype sign_in_refusal = OidcCause oidc_refusal | AdmissionCause admission_refusal

definition refusal_page_of :: "sign_in_refusal \<Rightarrow> refusal_page" where
  "refusal_page_of refusal = (if refusal = AdmissionCause NOT_A_MEMBER then NO_ACCESS else LOGIN_FAILED)"

section \<open>The paths\<close>

record sign_in_paths =
  sp_start :: pystr
  sp_callback :: pystr
  sp_logout :: "pystr option"
  sp_backchannel_logout :: "pystr option"

fun problem_with :: "pyobj \<Rightarrow> pystr option" where
  "problem_with (PyStr path) =
     (if \<not> startswith path [47] then Some (py ''must be an absolute path'')
      else if reads_as_another_host path then Some (py ''must not read as another host'')
      else if 63 \<in> set path \<or> 35 \<in> set path then Some (py ''must not hold a query or a fragment'')
      else if has_dot_segment path then Some (py ''must not hold a dot segment'')
      else None)"
| "problem_with _ = Some (py ''must be an absolute path'')"

definition require_sign_in_path :: "pyobj \<Rightarrow> exn + unit" where
  "require_sign_in_path path = check (problem_with path = None) ValueError"

definition optional_path :: "pyobj \<Rightarrow> pyobj list" where
  "optional_path path = (if path = PyNone then [] else [path])"

definition optional_text :: "pyobj \<Rightarrow> pystr option" where
  "optional_text path = (if path = PyNone then None else Some (str_of path))"

definition SignInPaths :: "pyobj \<Rightarrow> pyobj \<Rightarrow> pyobj \<Rightarrow> pyobj \<Rightarrow> exn + sign_in_paths" where
  "SignInPaths start callback logout backchannel_logout =
     (let named = [start, callback] @ optional_path logout @ optional_path backchannel_logout in
      bindR (mapR require_sign_in_path named) (\<lambda>_.
      bindR (check (distinct (map str_of named)) ValueError) (\<lambda>_.
        Inr \<lparr>sp_start = str_of start, sp_callback = str_of callback, sp_logout = optional_text logout,
          sp_backchannel_logout = optional_text backchannel_logout\<rparr>)))"

definition named_paths :: "sign_in_paths \<Rightarrow> (pystr \<times> pystr) list" where
  "named_paths p = [(py ''start'', sp_start p), (py ''callback'', sp_callback p)]
     @ (case sp_logout p of None \<Rightarrow> [] | Some path \<Rightarrow> [(py ''logout'', path)])
     @ (case sp_backchannel_logout p of None \<Rightarrow> [] | Some path \<Rightarrow> [(py ''backchannel_logout'', path)])"

definition public_rules :: "sign_in_paths \<Rightarrow> public_rule list" where
  "public_rules p =
     (let sign_in = \<lparr>pu_paths = exact_paths {sp_start p, sp_callback p}, pu_methods = Some {py ''GET''}\<rparr>;
          posted = set_option (sp_logout p) \<union> set_option (sp_backchannel_logout p)
      in if posted = {} then [sign_in]
         else [sign_in, \<lparr>pu_paths = exact_paths posted, pu_methods = Some {py ''POST''}\<rparr>])"

definition browser_paths :: "sign_in_paths \<Rightarrow> path_rules" where
  "browser_paths p = exact_paths (set (map snd (filter (\<lambda>(name, path). name \<noteq> py ''backchannel_logout'') (named_paths p))))"

definition backchannel :: "sign_in_paths \<Rightarrow> path_rules" where
  "backchannel p = exact_paths (set_option (sp_backchannel_logout p))"

definition BACKCHANNEL_MAX_BODY_BYTES :: int where "BACKCHANNEL_MAX_BODY_BYTES = 32 * 1024"

definition backchannel_body_size_rule :: "sign_in_paths \<Rightarrow> body_size_rule" where
  "backchannel_body_size_rule p =
     \<lparr>bs_paths = backchannel p, bs_max_bytes = BACKCHANNEL_MAX_BODY_BYTES, bs_methods = Some {py ''POST''}\<rparr>"

definition sign_in_cache_control_rule :: "sign_in_paths \<Rightarrow> exn + cache_control_rule" where
  "sign_in_cache_control_rule p = CacheControlRule (exact_paths (set (map snd (named_paths p)))) (py ''no-store'')"

definition sign_in_login_redirect :: "sign_in_paths \<Rightarrow> exn + login_redirect" where
  "sign_in_login_redirect p = LoginRedirect (sp_start p) (py ''next'')"

section \<open>Answers\<close>

definition empty_answer :: "int \<Rightarrow> response" where
  "empty_answer status = \<lparr>rs_status = status, rs_body = NoBody, rs_headers = [], rs_cookies = []\<rparr>"

definition plain_server_error :: response where
  "plain_server_error = \<lparr>rs_status = 500, rs_body = PlainText (py ''Internal Server Error''), rs_headers = [], rs_cookies = []\<rparr>"

definition empty_bad_request :: response where
  "empty_bad_request = empty_answer 400"

datatype 's route_response = HostAnswer "'s asgi" | LibraryAnswer response

fun asgi_of :: "'s route_response \<Rightarrow> 's asgi" where
  "asgi_of (HostAnswer app) = app"
| "asgi_of (LibraryAnswer r) = (\<lambda>_. send_response r)"

fun with_cookies :: "set_cookie list \<Rightarrow> message \<Rightarrow> message" where
  "with_cookies cookies (ResponseStart status hs own) = ResponseStart status hs (own @ cookies)"
| "with_cookies cookies m = m"

text \<open>\<open>_send_failure_answer\<close> and the \<open>raise\<close> after it.\<close>

definition send_failure_answer :: "set_cookie list \<Rightarrow> response \<Rightarrow> exn \<Rightarrow> 's proc" where
  "send_failure_answer cookies failure_answer e =
     Send (with_cookies cookies (start_of failure_answer))
       (then_or_fail (Send (ResponseBody (rs_body failure_answer)) (then_or_fail (Fail e))))"

text \<open>The application \<open>outcome\<close> with the carrier's cookies on its start; \<open>started\<close> is the code's flag.\<close>

primcorec carrying :: "set_cookie list \<Rightarrow> response \<Rightarrow> bool \<Rightarrow> 's proc \<Rightarrow> 's proc" where
  "carrying cookies failure_answer started p = (case p of
      Done \<Rightarrow> Done
    | Fail e \<Rightarrow> if started then Fail e
        else Send (with_cookies cookies (start_of failure_answer))
          (then_or_fail (Send (ResponseBody (rs_body failure_answer)) (then_or_fail (Fail e))))
    | Receive k \<Rightarrow> Receive (\<lambda>m. carrying cookies failure_answer started (k m))
    | Send m k \<Rightarrow> Send (with_cookies cookies m) (\<lambda>r. carrying cookies failure_answer (started \<or> is_start m) (k r))
    | Do u k \<Rightarrow> Do u (\<lambda>s. carrying cookies failure_answer started (k s)))"

definition route_answer :: "set_cookie list \<Rightarrow> exn + 's asgi \<Rightarrow> response \<Rightarrow> 's asgi" where
  "route_answer cookies outcome failure_answer sc = (case outcome of
      Inl failure \<Rightarrow> send_failure_answer cookies failure_answer failure
    | Inr app \<Rightarrow> carrying cookies failure_answer False (app sc))"

section \<open>The routes\<close>

record ('s, 'k) sign_in =
  sn_relying_party :: "'s scope \<Rightarrow> ('s, ('s, 'k) relying_party) act"
  sn_admission :: admission_config
  sn_transaction :: "'s sign_in_transaction"
  sn_refused :: "'s scope \<Rightarrow> sign_in_refusal \<Rightarrow> ('s, 's asgi) act"
  sn_keeps_id_token :: bool
  sn_max_sessions :: "int option"

definition start_route ::
    "cookie_parser \<Rightarrow> ('s, 'k) sign_in \<Rightarrow> 's scope \<Rightarrow> pystr option \<Rightarrow> ('s, response) act" where
  "start_route parse_cookie routes sc return_to =
     bindA (sn_relying_party routes sc) (\<lambda>rp.
     bindA (liftR (web_auth_config sc)) (\<lambda>cfg.
     bindA (start_login parse_cookie rp sc (empty_answer 303) cfg return_to) (\<lambda>(url, answer).
       if list_all (\<lambda>c. c < 256) url
       then ret (answer\<lparr>rs_headers := rs_headers answer @ [(py ''location'', url)]\<rparr>)
       else raise ValueError)))"

text \<open>\<open>try: ... except Exception as failure: return ...\<close>.\<close>

definition rescue :: "('s, 'a) act \<Rightarrow> (exn \<Rightarrow> 'a) \<Rightarrow> ('s, 'a) act" where
  "rescue m handler = (\<lambda>s. case m s of (Inl e, s') \<Rightarrow> (Inr (handler e), s') | (Inr v, s') \<Rightarrow> (Inr v, s'))"

definition logout_route ::
    "cookie_parser \<Rightarrow> ('s, 'k) sign_in \<Rightarrow> ('s scope \<Rightarrow> ('s, logout_page_text) act) \<Rightarrow> 's scope \<Rightarrow> ('s, 's asgi) act" where
  "logout_route parse_cookie routes page_text sc = rescue
     (bindA (page_text sc) (\<lambda>words.
      bindA (sn_relying_party routes sc) (\<lambda>rp.
      bindA (liftR (web_auth_config sc)) (\<lambda>cfg.
      bindA (log_out parse_cookie rp sc cfg (sn_transaction routes) (lp_language words) (lp_button_label words)) (\<lambda>answer.
        ret (\<lambda>_. send_response answer))))))
     (\<lambda>failure. route_answer [] (Inl failure) plain_server_error)"

text \<open>\<open>await request.body()\<close>: Starlette reads messages until one says there is no more.\<close>

fun read_step :: "nat list \<Rightarrow> exn + in_message \<Rightarrow> exn + (bool \<times> nat list)" where
  "read_step held (Inl e) = Inl e"
| "read_step held (Inr (HttpRequest body again)) = Inr (again, held @ body)"
| "read_step held (Inr HttpDisconnect) = Inl ClientDisconnect"
| "read_step held (Inr OtherReceived) = Inr (True, held)"

definition reads_on :: "exn + (bool \<times> nat list) \<Rightarrow> bool" where
  "reads_on st \<longleftrightarrow> (case st of Inl _ \<Rightarrow> False | Inr (again, _) \<Rightarrow> again)"

primcorec read_body :: "(nat list \<Rightarrow> 's proc) \<Rightarrow> nat list \<Rightarrow> 's proc" where
  "read_body k held = Receive (\<lambda>m.
     if reads_on (read_step held m) then read_body k (snd (projr (read_step held m)))
     else (case read_step held m of Inl e \<Rightarrow> Fail e | Inr form \<Rightarrow> k (snd form)))"

definition backchannel_answer ::
    "('s, 'k) sign_in \<Rightarrow> 's scope \<Rightarrow> nat list \<Rightarrow> ('s, 's asgi) act" where
  "backchannel_answer routes sc form_body = rescue
     (bindA (sn_relying_party routes sc) (\<lambda>rp.
      bindA (receive_backchannel_logout rp form_body (get_header sc (py ''content-type'')) (sn_transaction routes)) (\<lambda>result.
        ret (\<lambda>_. send_response (if result = LOGOUT_ACCEPTED then empty_answer 200 else empty_bad_request)))))
     (\<lambda>failure. route_answer [] (Inl failure) empty_bad_request)"

definition app_root :: "'s scope \<Rightarrow> pystr" where
  "app_root sc = rstrip_char 47 (sc_root_path sc) @ [47]"

text \<open>\<open>RedirectResponse\<close>: Starlette quotes the address but for these characters.\<close>

definition redirect_safe :: "nat \<Rightarrow> bool" where
  "redirect_safe b \<longleftrightarrow> is_alnum_ascii b \<or> b \<in> {95, 46, 45, 126}
     \<or> b \<in> {58, 47, 37, 35, 63, 61, 64, 91, 93, 33, 36, 38, 39, 40, 41, 42, 43, 44, 59}"

definition redirect_to :: "pystr \<Rightarrow> exn + response" where
  "redirect_to url = bindR (utf8_encode url) (\<lambda>bs.
     Inr ((empty_answer 303)\<lparr>rs_headers := [(py ''location'', quote_bytes redirect_safe bs)]\<rparr>))"

definition refuse_sign_in :: "('s, 'k) sign_in \<Rightarrow> 's scope \<Rightarrow> sign_in_refusal \<Rightarrow> ('s, 's route_response) act" where
  "refuse_sign_in routes sc cause = bindA (sn_refused routes sc cause) (\<lambda>app. ret (HostAnswer app))"

definition write_in_transaction ::
    "('s, 'k) sign_in \<Rightarrow> admitted_login \<Rightarrow> 's web_auth_config \<Rightarrow> pystr option \<Rightarrow> ('s, pystr) act" where
  "write_in_transaction routes login cfg replaced_session_id =
     in_tx (si_context (sn_transaction routes))
       (write_sign_in (si_stores (sn_transaction routes)) login cfg replaced_session_id (sn_max_sessions routes) (sn_keeps_id_token routes))"

text \<open>\<open>try: ... except _UsernameTakenSignal:\<close>, whose handler answers \<open>None\<close>.\<close>

definition unless_username_taken :: "('s, 'a) act \<Rightarrow> ('s, 'a option) act" where
  "unless_username_taken m = (\<lambda>s. case m s of
      (Inl e, s') \<Rightarrow> (if e = UsernameTakenSignal then Inr None else Inl e, s')
    | (Inr v, s') \<Rightarrow> (Inr (Some v), s'))"

definition signed_in_answer :: "'s scope \<Rightarrow> pending_login \<Rightarrow> pystr \<Rightarrow> 's web_auth_config \<Rightarrow> exn + response" where
  "signed_in_answer sc pending session_id cfg =
     bindR (redirect_to (case same_app_path sc (pl_return_to pending) of None \<Rightarrow> app_root sc | Some path \<Rightarrow> path)) (\<lambda>answer.
       issue_session_cookies answer session_id cfg)"

definition sign_in_answer ::
    "cookie_parser \<Rightarrow> ('s scope \<Rightarrow> exn + pystr) \<Rightarrow> ('s, 'k) sign_in \<Rightarrow> 's scope \<Rightarrow> 's web_auth_config \<Rightarrow> pending_login option
     \<Rightarrow> ('s, 's route_response) act" where
  "sign_in_answer parse_cookie url_query routes sc cfg pending = (case pending of
      None \<Rightarrow> refuse_sign_in routes sc (OidcCause (refusal_for STATE_MISMATCH))
    | Some login \<Rightarrow>
        bindA (sn_relying_party routes sc) (\<lambda>rp.
        bindA (liftR (url_query sc)) (\<lambda>query.
        bindA (complete_login rp login query) (\<lambda>identity. case identity of
          Inl cause \<Rightarrow> refuse_sign_in routes sc (OidcCause cause)
        | Inr who \<Rightarrow> (case decide_admission who (sn_admission routes) of
            Inl cause \<Rightarrow> refuse_sign_in routes sc (AdmissionCause cause)
          | Inr admitted_who \<Rightarrow>
              bindA (liftR (session_id_from_request parse_cookie sc cfg)) (\<lambda>replaced.
              bindA (unless_username_taken (write_in_transaction routes admitted_who cfg replaced)) (\<lambda>written. case written of
                None \<Rightarrow> refuse_sign_in routes sc (AdmissionCause USERNAME_TAKEN)
              | Some session_id \<Rightarrow>
                  bindA (liftR (signed_in_answer sc login session_id cfg)) (\<lambda>answer. ret (LibraryAnswer answer)))))))))"

definition callback_route ::
    "cookie_parser \<Rightarrow> ('s scope \<Rightarrow> exn + pystr) \<Rightarrow> ('s, 'k) sign_in \<Rightarrow> 's scope \<Rightarrow> ('s, 's asgi) act" where
  "callback_route parse_cookie url_query routes sc =
     bindA (liftR (web_auth_config sc)) (\<lambda>cfg.
     bindA (liftR (bindR (url_query sc) callback_state)) (\<lambda>state. case state of
       Inl refusal \<Rightarrow> bindA (refuse_sign_in routes sc (OidcCause refusal)) (\<lambda>answer. ret (asgi_of answer))
     | Inr named \<Rightarrow>
         bindA (liftR (take_pending_login parse_cookie sc (empty_answer 200) named cfg)) (\<lambda>(pending, carrier). rescue
           (bindA (sign_in_answer parse_cookie url_query routes sc cfg pending) (\<lambda>answer.
              ret (route_answer (rs_cookies carrier) (Inr (asgi_of answer)) plain_server_error)))
           (\<lambda>failure. route_answer (rs_cookies carrier) (Inl failure) plain_server_error))))"

section \<open>Registering them\<close>

text \<open>A route's endpoint: what the action decides is called as the answer, and its exceptions go on.\<close>

definition endpoint :: "('s, 's asgi) act \<Rightarrow> 's scope \<Rightarrow> 's proc" where
  "endpoint decide sc = act_then decide (\<lambda>r. case r of Inl e \<Rightarrow> Fail e | Inr app \<Rightarrow> app sc)"

definition register_routes ::
    "cookie_parser \<Rightarrow> ('s scope \<Rightarrow> exn + pystr) \<Rightarrow> ('s scope \<Rightarrow> pystr option) \<Rightarrow> sign_in_paths \<Rightarrow> ('s, 'k) sign_in
     \<Rightarrow> ('s scope \<Rightarrow> ('s, logout_page_text) act) option \<Rightarrow> (pystr \<times> pystr \<times> 's asgi) list" where
  "register_routes parse_cookie url_query next_of paths routes page_text =
     [(sp_start paths, py ''GET'', \<lambda>sc. endpoint
         (bindA (start_route parse_cookie routes sc (next_of sc)) (\<lambda>answer. ret (\<lambda>_. send_response answer))) sc),
      (sp_callback paths, py ''GET'', \<lambda>sc. endpoint (callback_route parse_cookie url_query routes sc) sc)]
     @ (case (sp_logout paths, page_text) of
          (Some logout, Some words_of) \<Rightarrow>
            [(logout, py ''POST'', \<lambda>sc. endpoint (logout_route parse_cookie routes words_of sc) sc)]
        | _ \<Rightarrow> [])
     @ (case sp_backchannel_logout paths of
          Some path \<Rightarrow> [(path, py ''POST'', \<lambda>sc. read_body (\<lambda>form. endpoint (backchannel_answer routes sc form) sc) [])]
        | None \<Rightarrow> [])"

definition install_sign_in_routes ::
    "cookie_parser \<Rightarrow> ('s scope \<Rightarrow> exn + pystr) \<Rightarrow> ('s scope \<Rightarrow> pystr option) \<Rightarrow> sign_in_paths
     \<Rightarrow> ('s scope \<Rightarrow> ('s, ('s, 'k) relying_party) act) \<Rightarrow> admission_config \<Rightarrow> 's sign_in_transaction
     \<Rightarrow> ('s scope \<Rightarrow> sign_in_refusal \<Rightarrow> ('s, 's asgi) act) \<Rightarrow> bool \<Rightarrow> pyobj
     \<Rightarrow> ('s scope \<Rightarrow> ('s, logout_page_text) act) option \<Rightarrow> bool \<Rightarrow> exn + (pystr \<times> pystr \<times> 's asgi) list" where
  "install_sign_in_routes parse_cookie url_query next_of paths relying_party_of admission tx on_refusal keeps_id_token max_sessions
       page_text has_dependencies =
     bindR (if max_sessions = PyNone then Inr None
            else bindR (require_positive_whole_number max_sessions) (\<lambda>n. Inr (Some n))) (\<lambda>cap.
     bindR (check ((sp_logout paths = None) = (page_text = None)) ValueError) (\<lambda>_.
     bindR (check (\<not> (has_dependencies \<and> sp_backchannel_logout paths = None)) ValueError) (\<lambda>_.
       Inr (register_routes parse_cookie url_query next_of paths
         \<lparr>sn_relying_party = relying_party_of, sn_admission = admission, sn_transaction = tx, sn_refused = on_refusal,
          sn_keeps_id_token = keeps_id_token, sn_max_sessions = cap\<rparr> page_text))))"

section \<open>Where a redirect leads\<close>

lemma redirect_safe_char: "redirect_safe b \<Longrightarrow> 33 \<le> b \<and> b \<le> 126 \<and> b \<noteq> 92"
  by (auto simp: redirect_safe_def char_class_defs)

text \<open>What is quoted starts with a percent sign; the rest of it is printable too.\<close>

lemma quoted_char:
  assumes "x \<in> set (quote_bytes redirect_safe bs)" and "\<forall>b\<in>set bs. b < 256"
  shows "33 \<le> x \<and> x \<le> 126"
proof -
  obtain b where b: "b \<in> set bs"
    "x \<in> set (if redirect_safe b then [b] else [37, hex_digit_upper (b div 16), hex_digit_upper (b mod 16)])"
    using assms(1) unfolding quote_bytes_def set_concat set_map by blast
  have "b div 16 < 16" using assms(2) b(1) by (simp add: less_mult_imp_div_less)
  then have "33 \<le> hex_digit_upper (b div 16) \<and> hex_digit_upper (b div 16) \<le> 126"
      "33 \<le> hex_digit_upper (b mod 16) \<and> hex_digit_upper (b mod 16) \<le> 126"
    by (auto simp: hex_digit_upper_def)
  with b(2) show ?thesis using redirect_safe_char by (auto split: if_splits)
qed

lemma redirect_to_site:
  assumes url: "startswith url [47]" "\<not> reads_as_another_host url" and answer: "redirect_to url = Inr answer"
    and header: "rs_headers answer = [(py ''location'', loc)]"
  shows "startswith loc [47] \<and> \<not> reads_as_another_host loc \<and> (\<forall>x\<in>set loc. 33 \<le> x \<and> x \<le> 126)"
proof -
  obtain bs where bs: "utf8_encode url = Inr bs" and loc: "loc = quote_bytes redirect_safe bs"
    using answer header by (auto simp: redirect_to_def bindR_eq_Inr)
  have printable: "\<forall>x\<in>set loc. 33 \<le> x \<and> x \<le> 126"
    using quoted_char utf8_encode_bytes[OF bs] unfolding loc by blast
  obtain rest where cut: "url = 47 # rest" using url(1) by (cases url) (auto simp: startswith_simps)
  have safe: "redirect_safe 47" by (simp add: redirect_safe_def)
  have head: "quote_bytes redirect_safe (concat (map utf8_char rest)) = []
      \<or> hd (quote_bytes redirect_safe (concat (map utf8_char rest))) \<notin> {47, 92}"
  proof (cases rest)
    case (Cons x xs)
    obtain b more where b: "utf8_char x = b # more" by (cases "utf8_char x") auto
    have "b = x" if "b < 128"
    proof (cases "x < 128")
      case False
      then have "128 \<le> b" using utf8_char_bytes[of x b] bs b by (simp add: utf8_encode_def cut Cons split: if_splits)
      with that show ?thesis by simp
    qed (use b in \<open>simp add: utf8_char_ascii\<close>)
    moreover have "x \<noteq> 47"
      using url(2) by (auto simp: reads_as_another_host_def cut Cons another_host_prefixes_def startswith_any_def startswith_simps)
    ultimately have "b \<noteq> 47" by auto
    with redirect_safe_char[of b] show ?thesis by (auto simp: Cons b quote_bytes_def)
  qed (simp add: quote_bytes_def)
  have "loc = 47 # quote_bytes redirect_safe (concat (map utf8_char rest))"
    using bs by (auto simp: loc cut utf8_encode_def utf8_char_ascii quote_bytes_def safe split: if_splits)
  then obtain q where q: "loc = 47 # q" "q = [] \<or> hd q \<notin> {47, 92}" using head by blast
  have "filter (\<lambda>c. c \<noteq> 9 \<and> c \<noteq> 13 \<and> c \<noteq> 10) loc = loc" using printable by (intro filter_True) auto
  moreover have "\<not> startswith_any loc another_host_prefixes"
    using q by (cases q) (auto simp: startswith_any_def another_host_prefixes_def startswith_simps)
  ultimately show ?thesis using q printable by (simp add: reads_as_another_host_def startswith_simps)
qed

lemma quote_under_root:
  assumes "list_all is_plain_root_char r" and "is_under r path"
  shows "is_under r (quote_bytes redirect_safe path)"
proof -
  have "redirect_safe c" if "c \<in> set r" for c
    using assms(1) that by (auto simp: list_all_iff is_plain_root_char_def redirect_safe_def)
  then have plain: "quote_bytes redirect_safe r = r" unfolding quote_bytes_def by (induction r) auto
  have "startswith (quote_bytes redirect_safe path) (r @ [c])" if path: "startswith path (r @ [c])" and c: "redirect_safe c" for c
  proof -
    obtain rest where "path = (r @ [c]) @ rest" using path by (rule startswithE)
    moreover have "quote_bytes redirect_safe [c] = [c]" using c by (simp add: quote_bytes_def)
    ultimately have "quote_bytes redirect_safe path = (r @ [c]) @ quote_bytes redirect_safe rest"
      by (simp only: quote_bytes_append plain)
    then show ?thesis by (simp only: startswith_append)
  qed
  moreover have "redirect_safe 47" "redirect_safe 63" by (simp_all add: redirect_safe_def)
  ultimately show ?thesis using assms(2) plain by (auto simp: is_under_def startswith_any_def)
qed

text \<open>The answer to a completed sign-in: a redirect to the return path when it is one of this
  application's, or else to its root, with the one cookie that names the session.\<close>

lemma signed_in_answerD:
  assumes "signed_in_answer sc pending sid cfg = Inr answer"
  obtains bs key c where
    "utf8_encode (case same_app_path sc (pl_return_to pending) of None \<Rightarrow> app_root sc | Some path \<Rightarrow> path) = Inr bs"
    "rs_status answer = 303" "rs_body answer = NoBody" "rs_headers answer = [(py ''location'', quote_bytes redirect_safe bs)]"
    "rs_cookies answer = [c]" "ck_name c = session_cookie_name cfg" "signing_key cfg = Inr key"
    "verify_session_cookie (ck_value c) key = Inr (Some sid)"
  using assms verify_of_signed
  by (auto simp: signed_in_answer_def redirect_to_def issue_session_cookies_def bindR_eq_Inr empty_answer_def
      attributed_cookie_def intro!: that)

lemma return_path_location:
  assumes "same_app_path sc candidate = Some path"
  shows "utf8_encode path = Inr path"
    and "startswith (quote_bytes redirect_safe path) [47] \<and> \<not> reads_as_another_host (quote_bytes redirect_safe path)
      \<and> is_under (sc_root_path sc) (quote_bytes redirect_safe path)"
proof -
  obtain c where c: "startswith c [47]" "\<not> list_ex is_control c" "\<not> reads_as_another_host c" "list_all is_scalar c"
    "path = concat (map encoded_char c)" "list_all is_plain_root_char (sc_root_path sc)" "is_under (sc_root_path sc) path"
    by (rule same_app_pathD[OF assms])
  have "33 \<le> x \<and> x \<le> 126" if "x \<in> set path" for x using encoded_printable[OF c(4)] that c(5) by blast
  then show bs: "utf8_encode path = Inr path" by (intro utf8_encode_ascii) (force simp: isascii_def list_all_iff)
  have "redirect_to path = Inr ((empty_answer 303)\<lparr>rs_headers := [(py ''location'', quote_bytes redirect_safe path)]\<rparr>)"
    by (simp add: redirect_to_def bs)
  from redirect_to_site[OF _ _ this] not_another_host_encoded[OF c(1-4)] quote_under_root[OF c(6,7)]
  show "startswith (quote_bytes redirect_safe path) [47] \<and> \<not> reads_as_another_host (quote_bytes redirect_safe path)
      \<and> is_under (sc_root_path sc) (quote_bytes redirect_safe path)"
    unfolding c(5)[symmetric] by simp
qed

lemma app_root_location:
  assumes "startswith (app_root sc) [47]" and "\<not> reads_as_another_host (app_root sc)" and bs: "utf8_encode (app_root sc) = Inr bs"
  shows "startswith (quote_bytes redirect_safe bs) [47] \<and> \<not> reads_as_another_host (quote_bytes redirect_safe bs)"
  using redirect_to_site[OF assms(1,2), of "(empty_answer 303)\<lparr>rs_headers := [(py ''location'', quote_bytes redirect_safe bs)]\<rparr>"]
  by (simp add: redirect_to_def bs)

end
