(* ===== verification/SignInFlow.thy ===== *)
theory SignInFlow
  imports SignInRoutes SignOut
begin

text \<open>
  The sign-in routes end to end: what a callback's answer stands for, from the query to the stored
  session, and what every answer of a callback carries whatever becomes of it.
\<close>

section \<open>Answers that carry the carrier's cookies\<close>

fun start_cookies :: "message \<Rightarrow> set_cookie list" where
  "start_cookies (ResponseStart _ _ cookies) = cookies"
| "start_cookies _ = []"

lemma carrying_simps [simp]:
  "carrying cookies failure_answer started Done = Done"
  "carrying cookies failure_answer True (Fail e) = Fail e"
  "carrying cookies failure_answer False (Fail e) = send_failure_answer cookies failure_answer e"
  "carrying cookies failure_answer started (Receive k) = Receive (\<lambda>m. carrying cookies failure_answer started (k m))"
  "carrying cookies failure_answer started (Send out after) =
     Send (with_cookies cookies out) (\<lambda>r. carrying cookies failure_answer (started \<or> is_start out) (after r))"
  "carrying cookies failure_answer started (Do u cont) = Do u (\<lambda>s. carrying cookies failure_answer started (cont s))"
  by (subst carrying.code, simp add: send_failure_answer_def)+

lemma is_start_with_cookies [simp]: "is_start (with_cookies cookies m) = is_start m"
  by (cases m) simp_all

lemma with_cookies_carries: "is_start m \<Longrightarrow> set cookies \<subseteq> set (start_cookies (with_cookies cookies m))"
  by (cases m) simp_all

lemma run_send_then_fail:
  "sent (run n (then_or_fail (Send b (then_or_fail (Fail e))) r) s ins outs) \<in> {[], [b]}"
proof -
  have last: "sent (run k (then_or_fail (Fail e) q) s ins outs) = []" for k q outs by (cases k; cases q) simp_all
  have "sent (run n (Send b (then_or_fail (Fail e))) s ins outs) \<in> {[], [b]}" for outs
    by (cases n) (simp_all add: last)
  moreover have "sent (run n (Fail e') s ins outs) = []" for e' outs
    by (cases n) simp_all
  ultimately show ?thesis by (cases r) simp_all
qed

lemma send_failure_run:
  "starts (sent (run n (send_failure_answer cookies failure_answer e) s ins outs))
    \<in> {[], [with_cookies cookies (start_of failure_answer)]}"
proof (cases n)
  case (Suc m)
  have "starts (sent (run m (then_or_fail (Send (ResponseBody (rs_body failure_answer)) (then_or_fail (Fail e)))
      (case outs of [] \<Rightarrow> Inr () | r # _ \<Rightarrow> r)) s ins (tl outs))) = []"
    using run_send_then_fail[of m "ResponseBody (rs_body failure_answer)" e "case outs of [] \<Rightarrow> Inr () | r # _ \<Rightarrow> r" s ins "tl outs"]
    by auto
  with Suc show ?thesis by (simp add: send_failure_answer_def)
qed simp

lemma carrying_run:
  "\<exists>added. starts (sent (run n (carrying cookies failure_answer started p) s ins outs))
      = map (with_cookies cookies) (starts (sent (run n p s ins outs))) @ added
    \<and> (added = [] \<or> (\<not> started \<and> starts (sent (run n p s ins outs)) = []
        \<and> added = [with_cookies cookies (start_of failure_answer)] \<and> (\<exists>e. ended (run n p s ins outs) = Some (Inl e))))"
proof (induction n arbitrary: p started s ins outs)
  case (Suc n)
  show ?case
  proof (cases p)
    case (Fail e)
    show ?thesis
    proof (cases started)
      case False
      with Fail send_failure_run[of "Suc n" cookies failure_answer e s ins outs] show ?thesis by auto
    qed (simp add: Fail)
  next
    case (Receive k)
    with Suc.IH show ?thesis by simp
  next
    case (Send m after)
    let ?r = "case outs of [] \<Rightarrow> Inr () | r # _ \<Rightarrow> r"
    from Suc.IH[of "started \<or> is_start m" "after ?r" s ins "tl outs"] Send show ?thesis
      by (cases "is_start m") auto
  next
    case (Do u cont)
    with Suc.IH show ?thesis by simp
  qed simp
qed simp

lemma route_answer_starts:
  assumes "m \<in> set (starts (sent (run n (route_answer cookies outcome failure_answer sc) s ins outs)))"
  shows "set cookies \<subseteq> set (start_cookies m)"
proof (cases outcome)
  case (Inl e)
  have "m = with_cookies cookies (start_of failure_answer)"
    using assms Inl send_failure_run[of n cookies failure_answer e s ins outs] by (auto simp: route_answer_def)
  then show ?thesis using with_cookies_carries[OF is_start_start_of] by simp
next
  case (Inr app)
  obtain added where added: "starts (sent (run n (carrying cookies failure_answer False (app sc)) s ins outs))
      = map (with_cookies cookies) (starts (sent (run n (app sc) s ins outs))) @ added"
    "added = [] \<or> added = [with_cookies cookies (start_of failure_answer)]"
    using carrying_run[of n cookies failure_answer False "app sc" s ins outs] by blast
  have "\<exists>m'. is_start m' \<and> m = with_cookies cookies m'"
  proof -
    have "m \<in> set (map (with_cookies cookies) (starts (sent (run n (app sc) s ins outs))) @ added)"
      using assms Inr unfolding added(1)[symmetric] by (simp add: route_answer_def)
    then have "m \<in> with_cookies cookies ` (set (starts (sent (run n (app sc) s ins outs))) \<union> {start_of failure_answer})"
      using added(2) by auto
    moreover have "x \<in> set (starts ms) \<union> {start_of failure_answer} \<Longrightarrow> is_start x" for x ms
      by (auto simp: starts_def)
    ultimately show ?thesis by blast
  qed
  then show ?thesis using with_cookies_carries by blast
qed

lemma unless_username_taken_Some:
  "unless_username_taken m s = (Inr (Some v), s') \<longleftrightarrow> m s = (Inr v, s')"
  by (cases "m s"; cases "fst (m s)") (auto simp: unless_username_taken_def)

section \<open>Routes to evaluate\<close>

text \<open>Over \<open>sample_host\<close>, with the still relying party: the host answers a refusal with a bare 403.\<close>

definition sample_routes :: "(host, unit) sign_in" where
  "sample_routes = \<lparr>sn_relying_party = (\<lambda>_. ret still_rp),
     sn_admission = \<lparr>bound_issuer = py ''https://id.example'', login_group = EverySubject, admin_group = NoAdmins\<rparr>,
     sn_transaction = \<lparr>si_context = rollback_tx, si_stores = host_stores\<rparr>,
     sn_refused = (\<lambda>_ _. ret (\<lambda>_. send_response (empty_answer 403))), sn_keeps_id_token = True, sn_max_sessions = Some 2\<rparr>"

lemma sample_callback_state: "callback_state sample_callback = Inr (Inr (py ''s1''))"
  by (simp add: callback_state_def sample_callback_def parse_qsl_def parse_field_def unquote_plus_def is_utf8_def utf8_encode_ascii Let_def text_eval)

lemma still_login:
  "\<exists>identity. complete_login still_rp sample_begun sample_callback s = (Inr (Inr identity), s)
    \<and> oi_subject identity = py ''u1'' \<and> oi_issuer identity = py ''https://id.example'' \<and> oi_groups identity = []"
proof -
  have utf8: "is_utf8 (py ''s1'')" "is_utf8 (py ''n1'')" by (simp_all add: is_utf8_def utf8_encode_ascii text_eval)
  have code: "authorization_code still_rp sample_begun [(py ''state'', py ''s1''), (py ''code'', py ''c1'')] s = (Inr (Inr (py ''c1'')), s)"
    by (simp add: authorization_code_def sample_begun_def is_same_secret_eval utf8 is_unexpired_def still_rp_def bindA_def
        PENDING_LOGIN_MAX_AGE_SECONDS_def MAX_AUTHORIZATION_CODE_CHARS_def)
  have tokens: "exchanged_tokens still_rp sample_begun (py ''c1'') s = (Inr (Inr (py ''id'', Some (py ''t2''))), s)"
    by (simp add: exchanged_tokens_def token_answer_def code_grant_def grant_request_def still_rp_def judged_token_answer_def
        token_answer_document_def json_object_def still_library_def raw_id_token_of_def issued_refresh_token_def is_refresh_token_text_def
        bindV_def bindA_def MAX_TOKEN_RESPONSE_BYTES_def text_eval)
  have "judged_header still_library (py ''id'') None None = Inr None"
    by (simp add: judged_header_def still_library_def sample_login_library_def has_expected_type_def header_key_id_def RS256_def
        MAX_TOKEN_CHARACTERS_def MAX_HEADER_SEGMENT_CHARACTERS_def text_eval)
  then have "verify still_library (still_verifier\<lparr>jv_audiences := [py ''app'']\<rparr>) (py ''id'') None None s
      = (Inr (Inr (sample_verified_claims (py ''id''))), s)"
    unfolding sample_verified_claims_def
    by (intro still_verifies) (simp_all add: require_comparable_types_def still_library_def sample_login_library_def)
  then have id_token: "verified_id_token still_rp (py ''id'') s = (Inr (Inr (sample_verified_claims (py ''id''))), s)"
    by (simp add: verified_id_token_def still_rp_parts bindA_def still_audience)
  have begun: "pl_nonce sample_begun = py ''n1''" by (simp add: sample_begun_def)
  have nonce: "map_of (sample_claims (py ''id'')) (py ''nonce'') = Some (PyStr (py ''n1''))"
    "map_of (sample_claims (py ''id'')) (py ''azp'') = None"
    by (simp_all add: sample_claims_def)
  show ?thesis
    by (simp add: complete_login_def sample_callback_parameters)
      (simp add: bindV_def bindA_def code tokens id_token nonce sample_verified_claims_def is_same_secret_eval utf8 begun
        is_authorized_party_def identity_of_def)
qed

lemma still_login_pure: "pure_act (complete_login still_rp login query)"
proof -
  have "pure_act (token_answer still_rp request)" for request
    by (simp add: pure_act_def token_answer_def still_rp_def)
  then have tokens: "pure_act (exchanged_tokens still_rp login code)" for code
    unfolding exchanged_tokens_def by (intro pure_intros)
  have code: "pure_act (authorization_code still_rp login callback)" for callback
    unfolding authorization_code_def is_unexpired_def still_rp_parts Let_def by (intro pure_intros)
  show ?thesis
    unfolding complete_login_def verified_id_token_def still_rp_parts
    by (intro pure_intros tokens code still_verification_pure)
qed

section \<open>Properties\<close>

text \<open>C3. Whatever becomes of a callback, its pending-login cookie goes. Once the callback names a login, it
  is answered without an exception of its own, and every response start of that answer, after any number
  of steps, whether the library's or the host's, a success, a refusal or the plain 500 of a failure,
  carries the deletion of that login's cookie.\<close>

theorem callback_answers_clear_the_pending_login:
  assumes "web_auth_config sc = Inr cfg" and "url_query sc = Inr query" and "callback_state query = Inr (Inr named)"
    and "pending_login_cookie_name named (cf_cookie_secure cfg) = Inr name"
    and "take_pending_login parse_cookie sc (empty_answer 200) named cfg = Inr taken"
  shows "\<exists>app s'. callback_route parse_cookie url_query routes sc s = (Inr app, s')
    \<and> (\<forall>n t ins outs. \<forall>m\<in>set (starts (sent (run n (app sc) t ins outs))). deleted_cookie cfg Lax name \<in> set (start_cookies m))"
proof -
  obtain pending carrier where taken: "taken = (pending, carrier)" by (cases taken)
  have cookies: "rs_cookies carrier = [deleted_cookie cfg Lax name]"
    using assms(5) unfolding taken
    by (auto simp: take_pending_login_def assms(4) clear_pending_login_cookie_def empty_answer_def add_cookie_def Let_def split: list.splits)
  obtain outcome s' where "callback_route parse_cookie url_query routes sc s
      = (Inr (route_answer (rs_cookies carrier) outcome plain_server_error), s')"
  proof (cases "sign_in_answer parse_cookie url_query routes sc cfg pending s")
    case (Pair r s')
    have run: "callback_route parse_cookie url_query routes sc s = rescue
        (bindA (sign_in_answer parse_cookie url_query routes sc cfg pending) (\<lambda>answer.
           ret (route_answer (rs_cookies carrier) (Inr (asgi_of answer)) plain_server_error)))
        (\<lambda>failure. route_answer (rs_cookies carrier) (Inl failure) plain_server_error) s"
      using assms(1-3,5) by (simp add: callback_route_def taken)
    from that Pair show ?thesis unfolding run by (cases r) (auto simp: rescue_def bindA_def)
  qed
  with route_answer_starts[where cookies = "rs_cookies carrier"] cookies show ?thesis by fastforce
qed

lemma callback_answers_clear_the_pending_login_witness:
  "\<exists>app h name. callback_route (\<lambda>_. []) (\<lambda>_. Inr sample_callback) sample_routes (sample_scope []) sample_host = (Inr app, h)
    \<and> (\<forall>n t ins outs. \<forall>m\<in>set (starts (sent (run n (app (sample_scope [])) t ins outs))).
        deleted_cookie (sample_config :: host web_auth_config) Lax name \<in> set (start_cookies m))"
proof -
  let ?cfg = "sample_config :: host web_auth_config"
  obtain name where name: "pending_login_cookie_name (py ''s1'') (cf_cookie_secure ?cfg) = Inr name"
    by (fastforce simp: pending_login_cookie_name_def utf8_encode_ascii text_eval)
  have "cookie_values (\<lambda>_. []) (sample_scope [] :: host scope) name = []"
    by (simp add: cookie_values_def cookie_pairs_def sample_scope_def getlist_def text_eval)
  then have "take_pending_login (\<lambda>_. []) (sample_scope [] :: host scope) (empty_answer 200) (py ''s1'') ?cfg
      = Inr (None, clear_pending_login_cookie (empty_answer 200) name ?cfg)"
    by (simp add: take_pending_login_def name)
  from callback_answers_clear_the_pending_login[OF sample_config_installed refl sample_callback_state name this, of sample_routes sample_host]
  show ?thesis by blast
qed

lemma signed_in_answer_leads:
  assumes "signed_in_answer sc login sid cfg = Inr answer"
  shows "\<exists>bs loc c key. rs_status answer = 303 \<and> rs_body answer = NoBody
        \<and> rs_headers answer = [(py ''location'', loc)] \<and> loc = quote_bytes redirect_safe bs
        \<and> rs_cookies answer = [c] \<and> ck_name c = session_cookie_name cfg
        \<and> signing_key cfg = Inr key \<and> verify_session_cookie (ck_value c) key = Inr (Some sid)
        \<and> (case same_app_path sc (pl_return_to login) of
            Some path \<Rightarrow> bs = path \<and> startswith loc [47] \<and> \<not> reads_as_another_host loc \<and> is_under (sc_root_path sc) loc
          | None \<Rightarrow> utf8_encode (app_root sc) = Inr bs
              \<and> (startswith (app_root sc) [47] \<and> \<not> reads_as_another_host (app_root sc)
                  \<longrightarrow> startswith loc [47] \<and> \<not> reads_as_another_host loc))"
proof -
  obtain bs key c where
    bs: "utf8_encode (case same_app_path sc (pl_return_to login) of None \<Rightarrow> app_root sc | Some path \<Rightarrow> path) = Inr bs"
    and answer: "rs_status answer = 303" "rs_body answer = NoBody" "rs_headers answer = [(py ''location'', quote_bytes redirect_safe bs)]"
      "rs_cookies answer = [c]" "ck_name c = session_cookie_name cfg" "signing_key cfg = Inr key"
      "verify_session_cookie (ck_value c) key = Inr (Some sid)"
    by (rule signed_in_answerD[OF assms])
  show ?thesis
  proof (rule exI[of _ bs], rule exI[of _ "quote_bytes redirect_safe bs"], rule exI[of _ c], rule exI[of _ key], intro conjI answer refl)
    show "case same_app_path sc (pl_return_to login) of
            Some path \<Rightarrow> bs = path \<and> startswith (quote_bytes redirect_safe bs) [47]
              \<and> \<not> reads_as_another_host (quote_bytes redirect_safe bs) \<and> is_under (sc_root_path sc) (quote_bytes redirect_safe bs)
          | None \<Rightarrow> utf8_encode (app_root sc) = Inr bs
              \<and> (startswith (app_root sc) [47] \<and> \<not> reads_as_another_host (app_root sc)
                  \<longrightarrow> startswith (quote_bytes redirect_safe bs) [47] \<and> \<not> reads_as_another_host (quote_bytes redirect_safe bs))"
    proof (cases "same_app_path sc (pl_return_to login)")
      case None
      with bs app_root_location[of sc bs] show ?thesis by simp
    next
      case (Some path)
      with bs return_path_location[OF Some] show ?thesis by simp
    qed
  qed
qed

text \<open>C2. The redirect that signs a browser in is sent only for a proven, admitted and stored sign-in, over
  any host that keeps its contracts; every other answer to a callback is the host's own refusal or a bare
  500. The pending login was there; its identity is of a login that completed,
  vouched for by the bound issuer, and its groups gave a role; that subject's session is stored and its
  account carries the role; the browser's earlier session is gone. The answer is a 303 with one cookie,
  under the session cookie's name, which reads back under the signing key as that very session. It leads
  to the pending login's return path when that is a path of this application, under its root path, and
  its address then has one leading slash and does not read as another host's; otherwise it leads to the
  application's root, which stays on the site whenever the server's root path does.\<close>

theorem callback_signs_in_only_admitted_logins:
  assumes contract: "sign_in_contract (si_stores (sn_transaction routes)) lookup account events ok"
    and tx: "si_context (sn_transaction routes) = rollback_tx"
    and clock: "\<forall>s. cf_wall_clock cfg s = (Inr t, s)" and cap: "\<forall>n. sn_max_sessions routes = Some n \<longrightarrow> 1 \<le> n"
    and issuer: "\<forall>s. sn_relying_party routes sc s = (Inr rp, s)" "\<forall>login query. keeps ok (complete_login rp login query)"
    and "ok s"
    and run: "sign_in_answer parse_cookie url_query routes sc cfg pending s = (Inr (LibraryAnswer answer), s')"
  shows "\<exists>login query identity s1 derived replaced sid r. pending = Some login \<and> url_query sc = Inr query
    \<and> complete_login rp login query s = (Inr (Inr identity), s1)
    \<and> oi_issuer identity = bound_issuer (sn_admission routes) \<and> app_role (oi_groups identity) (sn_admission routes) = Some derived
    \<and> session_id_from_request parse_cookie sc cfg = Inr replaced
    \<and> lookup s' sid = Some r \<and> ur_id (sr_user r) = oi_subject identity
    \<and> map_option ur_role (account s' (oi_subject identity)) = Some (role_value derived)
    \<and> (\<forall>old. replaced = Some old \<and> old \<noteq> sid \<longrightarrow> lookup s' old = None)
    \<and> signed_in_answer sc login sid cfg = Inr answer
    \<and> (\<exists>bs loc c key. rs_status answer = 303 \<and> rs_body answer = NoBody
        \<and> rs_headers answer = [(py ''location'', loc)] \<and> loc = quote_bytes redirect_safe bs
        \<and> rs_cookies answer = [c] \<and> ck_name c = session_cookie_name cfg
        \<and> signing_key cfg = Inr key \<and> verify_session_cookie (ck_value c) key = Inr (Some sid)
        \<and> (case same_app_path sc (pl_return_to login) of
            Some path \<Rightarrow> bs = path \<and> startswith loc [47] \<and> \<not> reads_as_another_host loc \<and> is_under (sc_root_path sc) loc
          | None \<Rightarrow> utf8_encode (app_root sc) = Inr bs
              \<and> (startswith (app_root sc) [47] \<and> \<not> reads_as_another_host (app_root sc)
                  \<longrightarrow> startswith loc [47] \<and> \<not> reads_as_another_host loc)))"
proof -
  have refused: "refuse_sign_in routes sc' cause s \<noteq> (Inr (LibraryAnswer answer), s')" for sc' cause s s'
    by (auto simp: refuse_sign_in_def bindA_eq_Inr)
  obtain login where login: "pending = Some login"
    using run refused by (cases pending) (auto simp: sign_in_answer_def)
  obtain query identity s1 where query: "url_query sc = Inr query"
    and proven: "complete_login rp login query s = (Inr (Inr identity), s1)"
    and rest: "(case decide_admission identity (sn_admission routes) of
            Inl cause \<Rightarrow> refuse_sign_in routes sc (AdmissionCause cause)
          | Inr admitted_who \<Rightarrow>
              bindA (liftR (session_id_from_request parse_cookie sc cfg)) (\<lambda>replaced.
              bindA (unless_username_taken (write_in_transaction routes admitted_who cfg replaced)) (\<lambda>written. case written of
                None \<Rightarrow> refuse_sign_in routes sc (AdmissionCause USERNAME_TAKEN)
              | Some session_id \<Rightarrow>
                  bindA (liftR (signed_in_answer sc login session_id cfg)) (\<lambda>answer. ret (LibraryAnswer answer))))) s1
        = (Inr (LibraryAnswer answer), s')"
    using run login issuer(1) by (auto simp: sign_in_answer_def bindA_apply bindA_cases_Inr refused)
  obtain who where admitted: "decide_admission identity (sn_admission routes) = Inr who"
    using rest refused by (cases "decide_admission identity (sn_admission routes)") auto
  then obtain derived where derived: "oi_issuer identity = bound_issuer (sn_admission routes)"
      "app_role (oi_groups identity) (sn_admission routes) = Some derived" "al_identity who = identity" "al_role who = role_value derived"
    by (auto simp: decide_admission_def split: if_splits option.splits)
  obtain replaced sid where replaced: "session_id_from_request parse_cookie sc cfg = Inr replaced"
    and written: "write_in_transaction routes who cfg replaced s1 = (Inr sid, s')"
    and signed: "signed_in_answer sc login sid cfg = Inr answer"
    using rest admitted by (auto simp: bindA_cases_Inr refused unless_username_taken_Some)
  have "ok s1" using keepsD[OF issuer(2)[rule_format] proven] \<open>ok s\<close> by simp
  have "write_sign_in (si_stores (sn_transaction routes)) who cfg replaced (sn_max_sessions routes) (sn_keeps_id_token routes) s1
      = (Inr sid, s')"
    using written by (auto simp: write_in_transaction_def tx in_rollback_tx split: sum.splits prod.splits)
  from sign_in_contract.write_sign_in_effect[OF contract \<open>ok s1\<close> clock cap this] obtain r a where
    "lookup s' sid = Some r" "ur_id (sr_user r) = oi_subject identity"
    and account: "account s' = (account s1)(oi_subject identity \<mapsto> a)" "ur_role a = role_value derived"
    and others: "\<forall>k. k \<noteq> sid \<longrightarrow> (if replaced = Some k then lookup s' k = None else lifespan lookup s' k \<in> {None, lifespan lookup s1 k})"
    unfolding derived by blast
  moreover have "\<forall>old. replaced = Some old \<and> old \<noteq> sid \<longrightarrow> lookup s' old = None" using others by auto
  moreover have "map_option ur_role (account s' (oi_subject identity)) = Some (role_value derived)" using account by simp
  ultimately show ?thesis
    using login query proven derived(1,2) replaced signed signed_in_answer_leads[OF signed] by blast
qed

lemma sample_session_written:
  assumes "oi_subject (al_identity who) = py ''u1''" and "al_role who = py ''user''"
  shows "\<exists>h. write_sign_in host_stores who sample_config None (Some 2) True sample_host = (Inr (session_name 0), h)"
proof -
  have now: "whole_second_now sample_config h = (Inr (1000 * SECOND), h)" for h :: host
    by (simp add: whole_second_now_def sample_config_def bindA_def Let_def truncate_rat_def in_calendar_def SECOND_def)
  have expiry: "renewed_expiry (cf_session_lifetime (sample_config :: host web_auth_config)) (1000 * SECOND) (1000 * SECOND) = Inr (4600 * SECOND)"
    by (simp add: renewed_expiry_def sample_config_def datetime_add_def in_calendar_def Let_def SECOND_def)
  have fresh: "session_name n \<noteq> py ''s1''" "session_name n \<noteq> py ''b''" for n by (simp_all add: session_name_def text_eval)
  show ?thesis
    using assms by (simp add: write_sign_in_def fresh admit_account_def with_role_def host_defs on_memory_def mem_get_def mem_set_role_def
        sample_host_def bindA_def Let_def claimant_of_identity_def require_held_lock_def now expiry remove_record_def
        mem_prune_overflow_def slice_from_def sorted_newest_first_def sessions_of_def liftR_def mem_create_def view_session_def next_free_def)
qed

lemma sample_signed_in_answer:
  "\<exists>answer. signed_in_answer (sample_scope [] :: 's scope) sample_begun (session_name 0) sample_config = Inr answer"
proof -
  obtain key where key: "signing_key (sample_config :: 's web_auth_config) = Inr key"
    by (fastforce simp: signing_key_def sample_config_def utf8_encode_def is_scalar_def list_all_iff)
  have short: "session_name 0 = py ''session-0''" by (simp add: session_name_def nat_dec.simps text_eval)
  have "\<exists>bs. utf8_encode (session_name 0) = Inr bs" by (simp add: short utf8_encode_def is_scalar_def text_eval)
  then obtain sig where sig: "session_signature (session_name 0) key = Inr sig"
    by (auto simp: session_signature_def signature_of_def)
  have "length sig = 64" using sig by (simp add: session_signature_def signature_hex(1))
  with sig obtain c where c: "sign_session_id (session_name 0) key = Inr c"
    by (simp add: sign_session_id_def MAX_SESSION_COOKIE_CHARS_def short text_eval)
  have "same_app_path (sample_scope [] :: 's scope) (pl_return_to sample_begun) = None"
    by (simp add: same_app_path_def sample_begun_def)
  moreover have "app_root (sample_scope [] :: 's scope) = [47]" by (simp add: app_root_def sample_scope_def rstrip_char_def)
  moreover have "redirect_to [47] = Inr ((empty_answer 303)\<lparr>rs_headers := [(py ''location'', quote_bytes redirect_safe [47])]\<rparr>)"
    by (simp add: redirect_to_def utf8_encode_ascii isascii_def)
  ultimately show ?thesis by (simp add: signed_in_answer_def issue_session_cookies_def key c)
qed

lemma callback_signs_in_only_admitted_logins_witness:
  "\<exists>answer h sid r. sign_in_answer (\<lambda>_. []) (\<lambda>_. Inr sample_callback) sample_routes (sample_scope []) sample_config (Some sample_begun) sample_host
      = (Inr (LibraryAnswer answer), h)
    \<and> host_lookup h sid = Some r \<and> ur_id (sr_user r) = py ''u1'' \<and> rs_status answer = 303"
proof -
  let ?cfg = "sample_config :: host web_auth_config" and ?sc = "sample_scope [] :: host scope"
  obtain identity where identity: "complete_login still_rp sample_begun sample_callback sample_host = (Inr (Inr identity), sample_host)"
      "oi_subject identity = py ''u1''" "oi_issuer identity = py ''https://id.example''" "oi_groups identity = []"
    using still_login[of sample_host] by (elim exE conjE) (rule that)
  let ?who = "\<lparr>al_identity = identity, al_role = py ''user''\<rparr>"
  have who: "decide_admission identity (sn_admission sample_routes) = Inr ?who"
    by (simp add: decide_admission_def sample_routes_def identity app_role_def)
  have none: "session_id_from_request (\<lambda>_. []) ?sc ?cfg = Inr None"
  proof -
    have "cookie_values (\<lambda>_. []) ?sc n = []" for n by (simp add: cookie_values_def cookie_pairs_def sample_scope_def getlist_def text_eval)
    moreover have "sc_bearer_admission ?sc = None" by (simp add: sample_scope_def)
    ultimately show ?thesis by (simp add: session_id_from_request_def is_bearer_admitted_def read_session_cookie_def)
  qed
  obtain h where h: "write_sign_in host_stores ?who ?cfg None (Some 2) True sample_host = (Inr (session_name 0), h)"
    using sample_session_written[of ?who] identity(2) by auto
  obtain answer where answer: "signed_in_answer ?sc sample_begun (session_name 0) ?cfg = Inr answer"
    using sample_signed_in_answer by blast
  have routes: "sn_relying_party sample_routes sc = ret still_rp" "sn_transaction sample_routes = \<lparr>si_context = rollback_tx, si_stores = host_stores\<rparr>"
    "sn_max_sessions sample_routes = Some 2" "sn_keeps_id_token sample_routes" for sc
    by (simp_all add: sample_routes_def)
  have written: "unless_username_taken (write_in_transaction sample_routes ?who ?cfg None) sample_host = (Inr (Some (session_name 0)), h)"
    by (simp add: unless_username_taken_Some write_in_transaction_def routes in_rollback_tx h)
  have bound: "bindA (complete_login still_rp sample_begun sample_callback) f sample_host = f (Inr identity) sample_host"
    "bindA (unless_username_taken (write_in_transaction sample_routes ?who ?cfg None)) g sample_host = g (Some (session_name 0)) h"
    for f :: "oidc_refusal + oidc_identity \<Rightarrow> (host, host route_response) act" and g :: "pystr option \<Rightarrow> (host, host route_response) act"
    by (simp_all only: bindA_def identity(1) written prod.case sum.case)
  have run: "sign_in_answer (\<lambda>_. []) (\<lambda>_. Inr sample_callback) sample_routes ?sc ?cfg (Some sample_begun) sample_host
      = (Inr (LibraryAnswer answer), h)"
    by (simp add: sign_in_answer_def routes(1) bound(1) who none bound(2) answer)
  have contract: "sign_in_contract (si_stores (sn_transaction sample_routes)) host_lookup host_account snd host_ok"
    "si_context (sn_transaction sample_routes) = rollback_tx"
    by (simp_all add: routes host.sign_in_contract_axioms)
  have clock: "\<forall>s. cf_wall_clock ?cfg s = (Inr 1000, s)" by (simp add: sample_config_def)
  have cap: "\<forall>n. sn_max_sessions sample_routes = Some n \<longrightarrow> 1 \<le> n" by (simp add: routes)
  have rp: "\<forall>s. sn_relying_party sample_routes ?sc s = (Inr still_rp, s)" by (simp add: routes)
  have keeps: "\<forall>login query. keeps host_ok (complete_login still_rp login query)"
    using still_login_pure keeps_pure by blast
  from callback_signs_in_only_admitted_logins[OF contract clock cap rp keeps sample_host_ok run] identity(1,2) run
  show ?thesis by auto
qed

end
