(* ===== verification/Stack.thy ===== *)
theory Stack
  imports BearerAdmission RateGate CsrfGate SecurityHeaders BodySize SessionGate
begin

text \<open>
  \<open>middleware/stack.py\<close>: the one order the library's middleware runs in. Starlette's \<open>app\<close> is a
  parameter: \<open>user_middleware\<close> reads the entries an app carries, outermost first, and
  \<open>add_middleware\<close> puts one outside them. \<open>served\<close> is the application Starlette builds of a list
  of entries; the theorems compare it with one decision of the gates in their order (\<open>in_turn\<close>).
\<close>

datatype ('s, 'k) library_entry =
    SecurityHeadersMiddleware security_headers_policy
  | BodySizeLimitMiddleware body_size_policy
  | IpRateLimitMiddleware rate_limit_policy
  | BearerMiddleware "('s, 'k) bearer_gate"
  | CsrfOriginMiddleware csrf_policy
  | SessionGateMiddleware "'s session_gate"

text \<open>An entry of \<open>app.user_middleware\<close>: of a library class, of a subclass of one, or of another class.\<close>

datatype ('s, 'k) middleware_entry =
    LibraryEntry "('s, 'k) library_entry"
  | SubclassEntry "'s asgi \<Rightarrow> 's asgi"
  | HostEntry "'s asgi \<Rightarrow> 's asgi"

fun is_library_entry :: "('s, 'k) middleware_entry \<Rightarrow> bool" where
  "is_library_entry (HostEntry _) = False"
| "is_library_entry _ = True"

definition no_store_paths :: "('s, 'k) bearer_gate \<Rightarrow> exn + path_rules list" where
  "no_store_paths gate =
     (let machine = (case bg_machine_paths gate of None \<Rightarrow> [] | Some m \<Rightarrow> [mp_paths m]) in
      case bg_resource gate of
        None \<Rightarrow> Inr machine
      | Some resource \<Rightarrow> bindR (entry_point_rule resource) (\<lambda>rule. Inr (machine @ [rule])))"

text \<open>\<open>replace(security_headers, ...)\<close>, which checks the policy again.\<close>

definition stack_headers_policy ::
    "security_headers_policy \<Rightarrow> ('s, 'k) bearer_gate option \<Rightarrow> exn + security_headers_policy" where
  "stack_headers_policy policy gate = (case gate of
      None \<Rightarrow> Inr policy
    | Some g \<Rightarrow>
        bindR (no_store_paths g) (\<lambda>paths.
        bindR (mapR (\<lambda>p. CacheControlRule p (py ''no-store'')) paths) (\<lambda>no_store.
          SecurityHeadersPolicy (sh_content_security_policy policy) (no_store @ sh_cache_control_rules policy)
            (sh_permissions_policy policy))))"

definition library_middleware ::
    "security_headers_policy \<Rightarrow> body_size_policy option \<Rightarrow> rate_limit_policy option \<Rightarrow> ('s, 'k) bearer_gate option
     \<Rightarrow> csrf_policy \<Rightarrow> 's session_gate option \<Rightarrow> exn + ('s, 'k) library_entry list" where
  "library_middleware headers body rate bearer csrf session =
     bindR (stack_headers_policy headers bearer) (\<lambda>policy. Inr (
       [SecurityHeadersMiddleware policy]
       @ (case body of None \<Rightarrow> [] | Some p \<Rightarrow> [BodySizeLimitMiddleware p])
       @ (case rate of None \<Rightarrow> [] | Some p \<Rightarrow> [IpRateLimitMiddleware p])
       @ (case bearer of None \<Rightarrow> [] | Some p \<Rightarrow> [BearerMiddleware p])
       @ [CsrfOriginMiddleware csrf]
       @ (case session of None \<Rightarrow> [] | Some p \<Rightarrow> [SessionGateMiddleware p])))"

definition refuse_an_unsound_stack :: "('s, 'k) middleware_entry list \<Rightarrow> exn + unit" where
  "refuse_an_unsound_stack entries = check (\<not> list_ex is_library_entry entries) RuntimeError"

fun add_each :: "('app \<Rightarrow> 'e \<Rightarrow> exn + 'app) \<Rightarrow> 'e list \<Rightarrow> 'app \<Rightarrow> exn + 'app" where
  "add_each add_middleware [] app = Inr app"
| "add_each add_middleware (e # es) app = bindR (add_middleware app e) (add_each add_middleware es)"

definition install_web_auth_middleware ::
    "('app \<Rightarrow> ('s, 'k) middleware_entry list) \<Rightarrow> ('app \<Rightarrow> ('s, 'k) middleware_entry \<Rightarrow> exn + 'app) \<Rightarrow> 'app
     \<Rightarrow> security_headers_policy \<Rightarrow> csrf_policy \<Rightarrow> body_size_policy option \<Rightarrow> rate_limit_policy option
     \<Rightarrow> ('s, 'k) bearer_gate option \<Rightarrow> 's session_gate option \<Rightarrow> exn + 'app" where
  "install_web_auth_middleware user_middleware add_middleware app headers csrf body rate bearer session =
     bindR (refuse_an_unsound_stack (user_middleware app)) (\<lambda>_.
     bindR (library_middleware headers body rate bearer csrf session) (\<lambda>entries.
       add_each add_middleware (map LibraryEntry (rev entries)) app))"

section \<open>The application a stack serves\<close>

text \<open>What each class makes of the application inside it. The bearer gate keeps its resource's keys
  in the host's state, read and written by \<open>get\<close> and \<open>put\<close>.\<close>

fun wrapped_by ::
    "cookie_parser \<Rightarrow> ('s \<Rightarrow> 'k verifier_state) \<Rightarrow> ('k verifier_state \<Rightarrow> 's \<Rightarrow> 's) \<Rightarrow> ('s, 'k) library_entry \<Rightarrow> 's asgi
     \<Rightarrow> exn + 's asgi" where
  "wrapped_by parse_cookie get put (SecurityHeadersMiddleware policy) app = Inr (security_headers policy app)"
| "wrapped_by parse_cookie get put (BodySizeLimitMiddleware policy) app = Inr (body_size_limit policy app)"
| "wrapped_by parse_cookie get put (IpRateLimitMiddleware policy) app = Inr (refusal_middleware (rate_gate policy) app)"
| "wrapped_by parse_cookie get put (BearerMiddleware policy) app =
     bindR (BearerGateMiddleware get put policy) (\<lambda>mw. Inr (refusal_middleware (BearerGate.bearer_gate mw) app))"
| "wrapped_by parse_cookie get put (CsrfOriginMiddleware policy) app = Inr (refusal_middleware (csrf_gate policy) app)"
| "wrapped_by parse_cookie get put (SessionGateMiddleware policy) app =
     Inr (refusal_middleware (session_gate parse_cookie policy) app)"

fun served ::
    "cookie_parser \<Rightarrow> ('s \<Rightarrow> 'k verifier_state) \<Rightarrow> ('k verifier_state \<Rightarrow> 's \<Rightarrow> 's) \<Rightarrow> ('s, 'k) library_entry list \<Rightarrow> 's asgi
     \<Rightarrow> exn + 's asgi" where
  "served parse_cookie get put [] app = Inr app"
| "served parse_cookie get put (e # es) app = bindR (served parse_cookie get put es app) (wrapped_by parse_cookie get put e)"

section \<open>Gates one after the other\<close>

fun in_turn :: "'s gate list \<Rightarrow> 's gate" where
  "in_turn [] sc = ret (None, sc)"
| "in_turn (g # gs) sc = bindA (g sc) (\<lambda>(refusal, sc'). case refusal of
      Some r \<Rightarrow> ret (Some r, sc')
    | None \<Rightarrow> in_turn gs sc')"

definition keeps_type :: "'s gate \<Rightarrow> bool" where
  "keeps_type g \<longleftrightarrow> (\<forall>sc s r sc' s'. g sc s = (Inr (r, sc'), s') \<longrightarrow> sc_type sc' = sc_type sc)"

lemma keeps_typeD: "keeps_type g \<Longrightarrow> g sc s = (Inr (r, sc'), s') \<Longrightarrow> sc_type sc' = sc_type sc"
  unfolding keeps_type_def by blast

lemma nested_passes:
  assumes "\<forall>g\<in>set gates. keeps_type g" and "sc_type sc = Http" and "in_turn gates sc s = (Inr (None, sc'), s')"
  shows "run (length gates + n) (foldr refusal_middleware gates app sc) s ins outs = run n (app sc') s' ins outs"
  using assms
proof (induction gates arbitrary: sc s)
  case (Cons g gates)
  then obtain sc1 s1 where "g sc s = (Inr (None, sc1), s1)" "in_turn gates sc1 s1 = (Inr (None, sc'), s')"
    by (auto simp: bindA_eq_Inr split: option.splits prod.splits)
  moreover from this(1) have "sc_type sc1 = Http" using Cons.prems keeps_typeD by (metis list.set_intros(1))
  ultimately show ?case
    using Cons.IH[of sc1 s1] Cons.prems by (simp add: refusal_middleware_run)
qed simp

lemma nested_refuses:
  assumes "\<forall>g\<in>set gates. keeps_type g" and "sc_type sc = Http" and "in_turn gates sc s = (Inr (Some r, sc'), s')"
  shows "\<exists>k. \<forall>n. run (k + n) (foldr refusal_middleware gates app sc) s ins outs = run n (send_response r) s' ins outs"
  using assms
proof (induction gates arbitrary: sc s)
  case (Cons g gates)
  then obtain r1 sc1 s1 where g: "g sc s = (Inr (r1, sc1), s1)" by (auto simp: bindA_eq_Inr)
  then have type1: "sc_type sc1 = Http" using Cons.prems keeps_typeD by (metis list.set_intros(1))
  show ?case
  proof (cases r1)
    case (Some x)
    then have "r = x" "s' = s1" using Cons.prems(3) g by (auto simp: bindA_def)
    then show ?thesis using g Some Cons.prems(2) by (intro exI[of _ 1]) (simp add: refusal_middleware_run)
  next
    case None
    then have "in_turn gates sc1 s1 = (Inr (Some r, sc'), s')" using Cons.prems(3) g by (simp add: bindA_def)
    from Cons.IH[OF _ type1 this] Cons.prems(1) obtain k where
      "\<And>n. run (k + n) (foldr refusal_middleware gates app sc1) s1 ins outs = run n (send_response r) s' ins outs" by auto
    with g None Cons.prems(2) show ?thesis by (intro exI[of _ "Suc k"]) (simp add: refusal_middleware_run)
  qed
qed simp

lemma nested_raises:
  assumes "\<forall>g\<in>set gates. keeps_type g" and "sc_type sc = Http" and "in_turn gates sc s = (Inl e, s')"
  shows "\<exists>k. \<forall>n. run (k + n) (foldr refusal_middleware gates app sc) s ins outs = run n (Fail e) s' ins outs"
  using assms
proof (induction gates arbitrary: sc s)
  case (Cons g gates)
  show ?case
  proof (cases "g sc s")
    case (Pair d s1)
    show ?thesis
    proof (cases d)
      case (Inl x)
      then have "x = e" "s' = s1" using Cons.prems(3) Pair by (auto simp: bindA_def)
      then show ?thesis using Pair Inl Cons.prems(2) by (intro exI[of _ 1]) (simp add: refusal_middleware_run)
    next
      case (Inr decided)
      obtain r1 sc1 where d1: "decided = (r1, sc1)" by (cases decided)
      then have g: "g sc s = (Inr (r1, sc1), s1)" using Pair Inr by simp
      then have type1: "sc_type sc1 = Http" using Cons.prems keeps_typeD by (metis list.set_intros(1))
      from g Cons.prems(3) have None: "r1 = None" by (cases r1) (auto simp: bindA_def ret_def)
      then have "in_turn gates sc1 s1 = (Inl e, s')" using Cons.prems(3) g by (simp add: bindA_def)
      from Cons.IH[OF _ type1 this] Cons.prems(1) obtain k where
        "\<And>n. run (k + n) (foldr refusal_middleware gates app sc1) s1 ins outs = run n (Fail e) s' ins outs" by auto
      with g None Cons.prems(2) show ?thesis by (intro exI[of _ "Suc k"]) (simp add: refusal_middleware_run)
    qed
  qed
qed (simp add: ret_def)


section \<open>The library's gates\<close>

lemma rate_gate_keeps_type: "keeps_type (rate_gate policy)"
  by (auto simp: keeps_type_def rate_gate_def Let_def bindA_cases_Inr split: if_split_asm sum.split_asm prod.split_asm)

lemma csrf_gate_keeps_type: "keeps_type (csrf_gate policy)"
  by (auto simp: keeps_type_def csrf_gate_def bindA_cases_Inr split: if_split_asm)

lemma session_gate_keeps_type: "keeps_type (session_gate parse_cookie policy)"
proof -
  have "sc_type sc' = sc_type sc" if "refused_or_passed policy sc cfg reading admission optional = Inr (r, sc')"
    for sc cfg reading admission optional r and sc'
    using that by (auto simp: refused_or_passed_def record_gate_admission_def bindR_eq_Inr split: sum.splits if_split_asm)
  then show ?thesis
    by (auto simp: keeps_type_def session_gate_def Let_def bindA_cases_Inr bindA_eq_Inr record_gate_admission_def
        split: if_split_asm sum.split_asm)
qed

lemma some_answer: "bindA m (\<lambda>r. ret (Some r)) s = (Inr (Some (x, y)), s') \<longleftrightarrow> m s = (Inr (x, y), s')"
  by (auto simp: bindA_eq_Inr)

lemma bearer_gate_keeps_type: "keeps_type (BearerGate.bearer_gate mw)"
proof -
  have admitted: "sc_type sc' = sc_type sc" if "admitted sc caller m s = (Inr (r, sc'), s')" for sc caller m s r sc' s'
    using that by (auto simp: admitted_def record_bearer_admission_def bindA_cases_Inr bindR_eq_Inr split: if_split_asm option.split_asm list.split_asm)
  have refused: "sc_type sc' = sc_type sc" if "refused x ps sc s = (Inr (r, sc'), s')" for x ps sc s r sc' s'
    using that by (auto simp: refused_def)
  have person: "sc_type sc' = sc_type sc" if "on_person_path policy sc s = (Inr (r, sc'), s')" for policy sc s r sc' s'
    using that unfolding on_person_path_def person_refusal_def
    by (auto simp: bindA_cases_Inr mark_person_path_def dest!: admitted refused split: if_split_asm option.split_asm)
  have resource: "sc_type sc' = sc_type sc"
    if "resource_refusal policy resource verify_token b sc s = (Inr (Some (r, sc')), s')" for policy resource verify_token b sc s r sc' s'
    using that unfolding resource_refusal_def
    by (auto simp: bindA_cases_Inr some_answer dest!: admitted refused split: if_split_asm option.split_asm sum.split_asm)
  have machine: "sc_type sc' = sc_type sc" if "machine_refusal policy machine sc s = (Inr (r, sc'), s')" for policy machine sc s r sc' s'
    using that unfolding machine_refusal_def
    by (auto simp: bindA_cases_Inr dest!: admitted refused split: if_split_asm)
  have "sc_type sc' = sc_type sc" if "on_resource mw sc s = (Inr (r, sc'), s')" for sc s r sc' s'
    using that unfolding on_resource_def Let_def
    by (auto simp: bindA_cases_Inr dest: person resource split: if_split_asm option.split_asm)
  with machine show ?thesis
    unfolding keeps_type_def BearerGate.bearer_gate_def by (auto split: option.splits if_split_asm)
qed

section \<open>The two outer layers\<close>

lemma with_policy_state: "state_of (run n (with_policy policy path secure started p) s ins outs) = state_of (run n p s ins outs)"
proof (induction n arbitrary: p started s ins outs)
  case (Suc n)
  have fail: "state_of (run m (Fail e) s ins outs) = s" for m e outs by (cases m) simp_all
  have body: "state_of (run m (Send b (\<lambda>_. Fail e)) s ins outs) = s" for m b e outs by (cases m) (simp_all add: fail)
  show ?case
  proof (cases p)
    case (Fail e)
    have "state_of (run n (case r of Inl _ \<Rightarrow> Fail e | Inr _ \<Rightarrow> Send b (\<lambda>_. Fail e)) s ins outs) = s" for r :: "exn + unit" and b outs
      by (cases r) (simp_all add: fail body)
    with Fail show ?thesis by (cases started) simp_all
  qed (use Suc in simp_all)
qed simp

lemma guarded_state:
  "state_of (run n (guarded p limit received started) s ins outs) = state_of (run n p s (handed limit received ins) outs)"
proof (induction n arbitrary: p received started s ins outs)
  case (Suc n)
  show ?case
  proof (cases p)
    case (Fail e)
    then show ?thesis using state_send_response[of "Suc n" too_large s ins outs] by simp
  next
    case (Receive k)
    show ?thesis
    proof (cases ins)
      case Nil
      with Receive Suc[of "k (Inr HttpDisconnect)" received started s "[]" outs] show ?thesis by (simp add: handed_over_def)
    qed (use Receive Suc in simp)
  qed (use Suc in simp_all)
qed simp

lemma guarded_ended:
  assumes "ended (run n p s (handed limit received ins) outs) = Some r" and "r \<noteq> Inl BodyTooLarge"
  shows "run n (guarded p limit received started) s ins outs = run n p s (handed limit received ins) outs"
  using assms
proof (induction n arbitrary: p received started s ins outs)
  case (Suc n)
  show ?case
  proof (cases p)
    case (Receive k)
    show ?thesis
    proof (cases ins)
      case Nil
      with Receive Suc.IH[of "k (Inr HttpDisconnect)" s received "[]" outs started] Suc.prems
      show ?thesis by (simp add: run.simps handed_over_def)
    next
      case (Cons m ms)
      with Receive Suc.IH[of "k (handed_over limit received m)" s "received + body_bytes m" ms outs started] Suc.prems
      show ?thesis by (simp add: run.simps)
    qed
  next
    case (Send m after)
    let ?r = "case outs of [] \<Rightarrow> Inr () | r # _ \<Rightarrow> r"
    from Send Suc.prems have "ended (run n (after ?r) s (handed limit received ins) (tl outs)) = Some r" by simp
    from Suc.IH[OF this Suc.prems(2)] Send show ?thesis by (simp add: run.simps)
  next
    case (Do u cont)
    then show ?thesis using Suc.IH Suc.prems by (simp add: run.simps)
  qed (use Suc.prems in \<open>auto simp: run.simps ended_def\<close>)
qed simp

lemma run_more: "ended (run n p s ins outs) = Some r \<Longrightarrow> run (n + m) p s ins outs = run n p s ins outs"
proof (induction n arbitrary: p s ins outs)
  case (Suc n)
  show ?case
  proof (cases p)
    case (Send out after)
    from Send Suc.prems have "ended (run n (after (case outs of [] \<Rightarrow> Inr () | r # _ \<Rightarrow> r)) s ins (tl outs)) = Some r" by simp
    from Suc.IH[OF this] Send show ?thesis by (simp add: run.simps)
  qed (use Suc in \<open>simp_all add: run.simps\<close>)
qed simp

definition limited :: "body_size_policy option \<Rightarrow> 's asgi \<Rightarrow> 's asgi" where
  "limited body app = (case body of None \<Rightarrow> app | Some p \<Rightarrow> body_size_limit p app)"

definition declares_too_much :: "body_size_policy option \<Rightarrow> 's scope \<Rightarrow> bool" where
  "declares_too_much body sc =
     (case body of None \<Rightarrow> False | Some p \<Rightarrow> declares_over sc (max_bytes p (route_path sc) (sc_method sc)))"

definition received_by :: "body_size_policy option \<Rightarrow> 's scope \<Rightarrow> (exn + in_message) list \<Rightarrow> (exn + in_message) list" where
  "received_by body sc ins =
     (case body of None \<Rightarrow> ins | Some p \<Rightarrow> handed (max_bytes p (route_path sc) (sc_method sc)) 0 ins)"

lemma limited_ended:
  assumes "sc_type sc = Http" and "\<not> declares_too_much body sc" and "r \<noteq> Inl BodyTooLarge"
    and "run n (app sc) s (received_by body sc ins) outs = (Some r, s', ms)"
  shows "run n (limited body app sc) s ins outs = (Some r, s', ms)"
proof (cases body)
  case None
  with assms(4) show ?thesis by (simp add: limited_def received_by_def)
next
  case (Some p)
  let ?limit = "max_bytes p (route_path sc) (sc_method sc)"
  have "ended (run n (app sc) s (handed ?limit 0 ins) outs) = Some r" using assms(4) Some by (simp add: received_by_def ended_def)
  from guarded_ended[OF this assms(3), of False] assms Some show ?thesis
    by (simp add: limited_def declares_too_much_def body_size_limit_def Let_def received_by_def)
qed

lemma policied_ended:
  assumes "sc_type sc = Http" and "installed_web_auth_config (sc_app sc) = Inr cfg"
    and "run n (app sc) s ins [] = (Some r, s', ms)" and "n + 2 \<le> m"
  shows "run m (security_headers policy app sc) s ins [] = (Some r, s',
    map (policied policy (route_path sc) (cf_cookie_secure cfg)) ms
      @ (if isl r \<and> starts ms = [] then the_500 policy (route_path sc) (cf_cookie_secure cfg) else []))"
proof -
  let ?p = "with_policy policy (route_path sc) (cf_cookie_secure cfg) False (app sc)"
  have "ended (run n (app sc) s ins []) = Some r" using assms(3) by (simp add: ended_def)
  note exact = with_policy_ended[OF this, of policy "route_path sc" "cf_cookie_secure cfg" False]
  then have "run m ?p s ins [] = run (n + 2) ?p s ins []"
    using run_more[of "n + 2" ?p s ins "[]" r "m - (n + 2)"] assms(4) by (simp only: le_add_diff_inverse)
  with exact assms(1-3) show ?thesis
    by (cases "run (n + 2) ?p s ins []") (simp add: security_headers_def ended_def sent_def state_of_def)
qed

section \<open>The library's stack over its gates\<close>

definition option_list :: "'a option \<Rightarrow> 'a list" where
  "option_list x = (case x of None \<Rightarrow> [] | Some v \<Rightarrow> [v])"

definition bearer_middleware_of ::
    "('s \<Rightarrow> 'k verifier_state) \<Rightarrow> ('k verifier_state \<Rightarrow> 's \<Rightarrow> 's) \<Rightarrow> ('s, 'k) bearer_gate option
     \<Rightarrow> exn + ('s, 'k) bearer_middleware option" where
  "bearer_middleware_of get put bearer = (case bearer of
      None \<Rightarrow> Inr None
    | Some g \<Rightarrow> bindR (BearerGateMiddleware get put g) (\<lambda>mw. Inr (Some mw)))"

definition stack_gates ::
    "cookie_parser \<Rightarrow> rate_limit_policy option \<Rightarrow> ('s, 'k) bearer_middleware option \<Rightarrow> csrf_policy \<Rightarrow> 's session_gate option
     \<Rightarrow> 's gate list" where
  "stack_gates parse_cookie rate mw csrf session =
     (case rate of None \<Rightarrow> [] | Some p \<Rightarrow> [rate_gate p])
     @ (case mw of None \<Rightarrow> [] | Some m \<Rightarrow> [BearerGate.bearer_gate m])
     @ [csrf_gate csrf]
     @ (case session of None \<Rightarrow> [] | Some p \<Rightarrow> [session_gate parse_cookie p])"

lemma stack_gates_keep_type: "\<forall>g\<in>set (stack_gates parse_cookie rate mw csrf session). keeps_type g"
  by (auto simp: stack_gates_def rate_gate_keeps_type bearer_gate_keeps_type csrf_gate_keeps_type session_gate_keeps_type
      split: option.splits)

lemma served_stack:
  assumes "library_middleware headers body rate bearer csrf session = Inr entries"
    and "served parse_cookie get put entries app = Inr stacked"
  shows "\<exists>policy mw. stack_headers_policy headers bearer = Inr policy \<and> bearer_middleware_of get put bearer = Inr mw
    \<and> stacked = security_headers policy (limited body
        (foldr refusal_middleware (stack_gates parse_cookie rate mw csrf session) app))"
  using assms unfolding library_middleware_def bindR_eq_Inr
  by (cases body; cases rate; cases bearer; cases session)
    (auto simp: bindR_eq_Inr bearer_middleware_of_def stack_gates_def limited_def)


text \<open>A refusal of any gate, or an exception of one, is the answer of the whole stack.\<close>

lemma stack_refuses:
  assumes http: "sc_type sc = Http" "installed_web_auth_config (sc_app sc) = Inr cfg" and fits: "\<not> declares_too_much body sc"
    and keeps: "\<forall>g\<in>set gates. keeps_type g" and refused: "in_turn gates sc s = (Inr (Some r, sc'), s')"
  shows "\<exists>k. \<forall>m\<ge>k. run m (security_headers policy (limited body (foldr refusal_middleware gates app)) sc) s ins []
    = (Some (Inr ()), s', [policied policy (route_path sc) (cf_cookie_secure cfg) (start_of r), ResponseBody (rs_body r)])"
proof -
  obtain k where "\<And>n. run (k + n) (foldr refusal_middleware gates app sc) s (received_by body sc ins) []
      = run n (send_response r) s' (received_by body sc ins) []"
    using nested_refuses[OF keeps http(1) refused] by blast
  from this[of 3] have "run (k + 3) (foldr refusal_middleware gates app sc) s (received_by body sc ins) []
      = (Some (Inr ()), s', [start_of r, ResponseBody (rs_body r)])"
    using run_send_response[of 0 r s' "received_by body sc ins"] by (simp add: numeral_3_eq_3)
  note limited_ended[where app = "foldr refusal_middleware gates app", OF http(1) fits _ this]
  then have inner: "run (k + 3) (limited body (foldr refusal_middleware gates app) sc) s ins []
      = (Some (Inr ()), s', [start_of r, ResponseBody (rs_body r)])" by simp
  show ?thesis
    by (intro exI[of _ "k + 3 + 2"] allI impI) (simp add: policied_ended[where app = "limited body (foldr refusal_middleware gates app)", OF http inner])
qed

lemma stack_raises:
  assumes http: "sc_type sc = Http" "installed_web_auth_config (sc_app sc) = Inr cfg" and fits: "\<not> declares_too_much body sc"
    and keeps: "\<forall>g\<in>set gates. keeps_type g" and raised: "in_turn gates sc s = (Inl e, s')" "e \<noteq> BodyTooLarge"
  shows "\<exists>k. \<forall>m\<ge>k. run m (security_headers policy (limited body (foldr refusal_middleware gates app)) sc) s ins []
    = (Some (Inl e), s', the_500 policy (route_path sc) (cf_cookie_secure cfg))"
proof -
  obtain k where "\<And>n. run (k + n) (foldr refusal_middleware gates app sc) s (received_by body sc ins) []
      = run n (Fail e) s' (received_by body sc ins) []"
    using nested_raises[OF keeps http(1) raised(1)] by blast
  from this[of 1] have "run (k + 1) (foldr refusal_middleware gates app sc) s (received_by body sc ins) [] = (Some (Inl e), s', [])"
    by (simp add: run.simps)
  note limited_ended[where app = "foldr refusal_middleware gates app", OF http(1) fits _ this]
  then have inner: "run (k + 1) (limited body (foldr refusal_middleware gates app) sc) s ins [] = (Some (Inl e), s', [])"
    using raised(2) by simp
  show ?thesis
    by (intro exI[of _ "k + 1 + 2"] allI impI) (simp add: policied_ended[where app = "limited body (foldr refusal_middleware gates app)", OF http inner])
qed

text \<open>What an admitted request's application does, seen from outside the stack.\<close>

lemma stack_passes:
  fixes app :: "'s asgi" and policy :: security_headers_policy and ins :: "(exn + in_message) list"
  assumes http: "sc_type sc = Http" "installed_web_auth_config (sc_app sc) = Inr cfg" and fits: "\<not> declares_too_much body sc"
    and keeps: "\<forall>g\<in>set gates. keeps_type g" and passed: "in_turn gates sc s = (Inr (None, sc'), s')"
  defines "stack \<equiv> security_headers policy (limited body (foldr refusal_middleware gates app)) sc"
    and "inner \<equiv> (\<lambda>n outs. run n (app sc') s' (received_by body sc ins) outs)"
  shows "state_of (run (length gates + n) stack s ins outs) = state_of (inner n outs)"
    and "\<exists>added. sent (run (length gates + n) stack s ins outs)
        = map (policied policy (route_path sc) (cf_cookie_secure cfg)) (sent (inner n outs)) @ added
      \<and> (added \<noteq> [] \<longrightarrow> starts (sent (inner n outs)) = [])"
proof -
  let ?nest = "foldr refusal_middleware gates app" and ?pol = "policied policy (route_path sc) (cf_cookie_secure cfg)"
  let ?lim = "limited body ?nest sc" and ?n = "length gates + n"
  have nest: "run ?n (?nest sc) s (received_by body sc ins) outs = inner n outs"
    unfolding inner_def using nested_passes[OF keeps http(1) passed] .
  have stack: "stack = with_policy policy (route_path sc) (cf_cookie_secure cfg) False ?lim"
    using http by (simp add: stack_def security_headers_def)
  have lim: "?lim = (case body of None \<Rightarrow> ?nest sc
      | Some p \<Rightarrow> guarded (?nest sc) (max_bytes p (route_path sc) (sc_method sc)) 0 False)"
    using http fits by (auto simp: limited_def declares_too_much_def body_size_limit_def Let_def split: option.splits)
  have "state_of (run ?n ?lim s ins outs) = state_of (inner n outs)"
    unfolding lim nest[symmetric] received_by_def by (cases body) (simp_all add: guarded_state)
  then show "state_of (run ?n stack s ins outs) = state_of (inner n outs)" by (simp add: stack with_policy_state)
  obtain more1 where more1: "sent (run ?n ?lim s ins outs) = sent (inner n outs) @ more1"
      "more1 \<noteq> [] \<longrightarrow> starts (sent (inner n outs)) = []"
  proof (cases body)
    case None
    with lim nest that[of "[]"] show ?thesis by (simp add: received_by_def)
  next
    case (Some p)
    with guarded_run[of ?n "?nest sc" "max_bytes p (route_path sc) (sc_method sc)" 0 False s ins outs] lim nest that
    show ?thesis by (auto simp: received_by_def)
  qed
  obtain more2 where "sent (run ?n stack s ins outs) = map ?pol (sent (run ?n ?lim s ins outs)) @ more2"
      "more2 \<noteq> [] \<longrightarrow> starts (sent (run ?n ?lim s ins outs)) = []"
    unfolding stack using with_policy_run[of ?n policy "route_path sc" "cf_cookie_secure cfg" False ?lim s ins outs] by auto
  with more1 show "\<exists>added. sent (run ?n stack s ins outs) = map ?pol (sent (inner n outs)) @ added
      \<and> (added \<noteq> [] \<longrightarrow> starts (sent (inner n outs)) = [])"
    by (intro exI[of _ "map ?pol more1 @ more2"]) auto
qed

text \<open>The rules put in front of the host's are exactly the gate's own paths.\<close>

lemma stack_cache_control:
  assumes "stack_headers_policy headers bearer = Inr policy"
  shows "cache_control policy path = (case bearer of
      None \<Rightarrow> cache_control headers path
    | Some g \<Rightarrow>
        if (\<exists>m. bg_machine_paths g = Some m \<and> rules_match (mp_paths m) path)
          \<or> (\<exists>resource. bg_resource g = Some resource \<and> entry_point resource = Inr path)
        then Some (py ''no-store'') else cache_control headers path)"
proof (cases bearer)
  case None
  with assms show ?thesis by (simp add: stack_headers_policy_def)
next
  case (Some g)
  then obtain paths rules where paths: "no_store_paths g = Inr paths"
    and rules: "mapR (\<lambda>p. CacheControlRule p (py ''no-store'')) paths = Inr rules"
    and policy: "sh_cache_control_rules policy = rules @ sh_cache_control_rules headers"
    using assms by (auto simp: stack_headers_policy_def SecurityHeadersPolicy_def bindR_eq_Inr)
  have "rules = map (\<lambda>p. \<lparr>cc_paths = p, cc_value = py ''no-store''\<rparr>) paths"
    using rules by (induction paths arbitrary: rules) (auto simp: CacheControlRule_def bindR_eq_Inr)
  moreover have "first_cache_control (map (\<lambda>p. \<lparr>cc_paths = p, cc_value = v\<rparr>) ps @ rest) d path
      = (if \<exists>p\<in>set ps. rules_match p path then Some v else first_cache_control rest d path)" for ps rest d v
    by (induction ps) auto
  moreover have "(\<exists>p\<in>set paths. rules_match p path) \<longleftrightarrow>
      (\<exists>m. bg_machine_paths g = Some m \<and> rules_match (mp_paths m) path)
      \<or> (\<exists>resource. bg_resource g = Some resource \<and> entry_point resource = Inr path)"
    using paths by (auto simp: no_store_paths_def entry_point_rule_def Let_def bindR_eq_Inr split: option.split_asm)
  ultimately show ?thesis by (auto simp: Some cache_control_def policy)
qed

section \<open>Reaching an end\<close>

lemma nested_ends:
  assumes keeps: "\<forall>g\<in>set gates. keeps_type g" and http: "sc_type sc = Http"
    and ends: "\<And>sc' s'. \<exists>n. ended (run n (app sc') s' ins outs) \<noteq> None"
  shows "\<exists>n. ended (run n (foldr refusal_middleware gates app sc) s ins outs) \<noteq> None"
proof (cases "in_turn gates sc s")
  case (Pair decided s')
  show ?thesis
  proof (cases decided)
    case (Inl e)
    from nested_raises[OF keeps http Pair[unfolded this]] obtain k where
      "run (k + 1) (foldr refusal_middleware gates app sc) s ins outs = run 1 (Fail e) s' ins outs" by blast
    then show ?thesis by (intro exI[of _ "k + 1"]) simp
  next
    case (Inr answer)
    obtain refusal sc' where answer: "answer = (refusal, sc')" by (cases answer)
    show ?thesis
    proof (cases refusal)
      case None
      obtain n where "ended (run n (app sc') s' ins outs) \<noteq> None" using ends by blast
      with nested_passes[OF keeps http Pair[unfolded Inr answer None]] show ?thesis by metis
    next
      case (Some r)
      have done_or_failed: "ended (run (Suc n) (then_or_fail Done x) s' ins os) \<noteq> None" for n x os
        by (cases x) simp_all
      have "ended (run (Suc (Suc n)) (then_or_fail (Send (ResponseBody (rs_body r)) (then_or_fail Done)) x) s' ins os) \<noteq> None" for n x os
        by (cases x) (simp_all add: done_or_failed del: ended_run_simps(3), simp add: done_or_failed)
      then have "ended (run (Suc (Suc (Suc 0))) (send_response r) s' ins outs) \<noteq> None" by (simp add: send_response_def)
      with nested_refuses[OF keeps http Pair[unfolded Inr answer Some], of app ins outs] show ?thesis by metis
    qed
  qed
qed

lemma guarded_ends:
  assumes "ended (run n p s (handed limit received ins) []) \<noteq> None"
  shows "ended (run (n + 2) (guarded p limit received started) s ins []) \<noteq> None"
  using assms
proof (induction n arbitrary: p received started s ins)
  case (Suc n)
  show ?case
  proof (cases p)
    case (Fail e)
    have "ended (run (Suc (Suc (Suc n))) (send_response too_large) s ins []) = Some (Inr ())"
      by (simp add: run_send_response ended_def)
    with Fail show ?thesis by simp
  next
    case (Receive k)
    show ?thesis
    proof (cases ins)
      case Nil
      with Receive Suc.IH[of "k (Inr HttpDisconnect)" s received "[]" started] Suc.prems show ?thesis by (simp add: handed_over_def)
    next
      case (Cons m ms)
      with Receive Suc.IH[of "k (handed_over limit received m)" s "received + body_bytes m" ms started] Suc.prems
      show ?thesis by simp
    qed
  qed (use Suc.prems in \<open>simp_all add: Suc.IH[simplified]\<close>)
qed simp

lemma limited_ends:
  assumes "sc_type sc = Http" and "\<And>ins. \<exists>n. ended (run n (app sc) s ins []) \<noteq> None"
  shows "\<exists>n r. ended (run n (limited body app sc) s ins []) = Some r"
proof (cases body)
  case None
  with assms(2)[of ins] show ?thesis by (auto simp: limited_def)
next
  case (Some p)
  let ?limit = "max_bytes p (route_path sc) (sc_method sc)"
  have "ended (run 3 (send_response too_large) s ins []) = Some (Inr ())"
    by (simp add: run_send_response ended_def numeral_3_eq_3)
  moreover obtain n where "ended (run n (app sc) s (handed ?limit 0 ins) []) \<noteq> None" using assms(2) by blast
  from guarded_ends[OF this, of False] obtain r where "ended (run (n + 2) (guarded (app sc) ?limit 0 False) s ins []) = Some r"
    by blast
  ultimately show ?thesis using assms(1) Some by (auto simp: limited_def body_size_limit_def Let_def)
qed

lemma starts_policied [simp]: "starts (map (policied policy path secure) ms) = [] \<longleftrightarrow> starts ms = []"
proof (induction ms)
  case (Cons m ms)
  then show ?case by (cases m) simp_all
qed simp

section \<open>Properties\<close>

text \<open>C15. Installing the stack leaves exactly the one order outside whatever the app carried: headers,
  body limit, rate limit, bearer gate, origin check, session gate, each where its policy was given. The
  app carried no library middleware before, and a second installation is refused. The installed headers
  policy answers \<open>no-store\<close> for the bearer gate's machine paths and its resource's entry point, whatever
  rules the host wrote for them, and every other path as the host's policy does.\<close>

theorem installed_in_one_order:
  fixes app app' :: 'app and user_middleware :: "'app \<Rightarrow> ('s, 'k) middleware_entry list"
  assumes adds: "\<And>a e a'. add_middleware a e = Inr a' \<Longrightarrow> user_middleware a' = e # user_middleware a"
    and installed: "install_web_auth_middleware user_middleware add_middleware app headers csrf body rate bearer session = Inr app'"
  shows "\<exists>policy. user_middleware app' = map LibraryEntry (
        [SecurityHeadersMiddleware policy] @ map BodySizeLimitMiddleware (option_list body) @ map IpRateLimitMiddleware (option_list rate)
        @ map BearerMiddleware (option_list bearer) @ [CsrfOriginMiddleware csrf] @ map SessionGateMiddleware (option_list session))
      @ user_middleware app
    \<and> list_all (Not \<circ> is_library_entry) (user_middleware app)
    \<and> install_web_auth_middleware user_middleware add_middleware app' headers2 csrf2 body2 rate2 bearer2 session2 = Inl RuntimeError
    \<and> (\<forall>path. cache_control policy path = (case bearer of
          None \<Rightarrow> cache_control headers path
        | Some g \<Rightarrow>
            if (\<exists>m. bg_machine_paths g = Some m \<and> rules_match (mp_paths m) path)
              \<or> (\<exists>resource. bg_resource g = Some resource \<and> entry_point resource = Inr path)
            then Some (py ''no-store'') else cache_control headers path))"
proof -
  have sound: "list_all (Not \<circ> is_library_entry) (user_middleware app)"
    and each: "\<exists>entries. library_middleware headers body rate bearer csrf session = Inr entries
      \<and> add_each add_middleware (map LibraryEntry (rev entries)) app = Inr app'"
    using installed by (auto simp: install_web_auth_middleware_def refuse_an_unsound_stack_def check_def bindR_eq_Inr
        list_all_iff list_ex_iff split: if_split_asm)
  then obtain entries policy where entries: "library_middleware headers body rate bearer csrf session = Inr entries"
      "add_each add_middleware (map LibraryEntry (rev entries)) app = Inr app'"
    and policy: "stack_headers_policy headers bearer = Inr policy"
    by (auto simp: library_middleware_def bindR_eq_Inr)
  have "add_each add_middleware es a = Inr a' \<Longrightarrow> user_middleware a' = rev es @ user_middleware a" for es a a'
    by (induction es arbitrary: a) (auto simp: bindR_eq_Inr dest: adds)
  from this[OF entries(2)] have carried: "user_middleware app' = map LibraryEntry entries @ user_middleware app"
    by (simp add: rev_map)
  have order: "entries = [SecurityHeadersMiddleware policy] @ map BodySizeLimitMiddleware (option_list body)
      @ map IpRateLimitMiddleware (option_list rate) @ map BearerMiddleware (option_list bearer) @ [CsrfOriginMiddleware csrf]
      @ map SessionGateMiddleware (option_list session)"
    using entries(1) policy by (auto simp: library_middleware_def option_list_def split: option.splits)
  then have "list_ex is_library_entry (user_middleware app')" by (simp add: carried)
  then have again: "install_web_auth_middleware user_middleware add_middleware app' headers2 csrf2 body2 rate2 bearer2 session2
      = Inl RuntimeError"
    by (simp add: install_web_auth_middleware_def refuse_an_unsound_stack_def check_def)
  have "cache_control policy path = (case bearer of
          None \<Rightarrow> cache_control headers path
        | Some g \<Rightarrow>
            if (\<exists>m. bg_machine_paths g = Some m \<and> rules_match (mp_paths m) path)
              \<or> (\<exists>resource. bg_resource g = Some resource \<and> entry_point resource = Inr path)
            then Some (py ''no-store'') else cache_control headers path)" for path
    using stack_cache_control[OF policy] .
  with carried order sound again show ?thesis by (intro exI[of _ policy]) simp
qed


lemma installed_in_one_order_witness:
  "\<exists>app' policy. install_web_auth_middleware id (\<lambda>a e. Inr (e # a)) [HostEntry id :: (unit, unit) middleware_entry] sample_headers_policy
      \<lparr>cp_exempt = no_paths\<rparr> (Some \<lparr>bp_default_max_bytes = 3, bp_rules = [], bp_start_send_seconds = 10\<rparr>) None None None = Inr app'
    \<and> app' = [LibraryEntry (SecurityHeadersMiddleware policy), LibraryEntry (BodySizeLimitMiddleware \<lparr>bp_default_max_bytes = 3, bp_rules = [], bp_start_send_seconds = 10\<rparr>),
        LibraryEntry (CsrfOriginMiddleware \<lparr>cp_exempt = no_paths\<rparr>), HostEntry id]
    \<and> cache_control policy (py ''/'') = None"
proof -
  let ?add = "\<lambda>a (e :: (unit, unit) middleware_entry). Inr (e # a) :: exn + (unit, unit) middleware_entry list"
  let ?body = "\<lparr>bp_default_max_bytes = 3, bp_rules = [], bp_start_send_seconds = 10\<rparr> :: body_size_policy"
  let ?app' = "[LibraryEntry (SecurityHeadersMiddleware sample_headers_policy), LibraryEntry (BodySizeLimitMiddleware ?body),
        LibraryEntry (CsrfOriginMiddleware \<lparr>cp_exempt = no_paths\<rparr>), HostEntry id] :: (unit, unit) middleware_entry list"
  have run: "install_web_auth_middleware id ?add [HostEntry id] sample_headers_policy \<lparr>cp_exempt = no_paths\<rparr> (Some ?body) None None None = Inr ?app'"
    by (simp add: install_web_auth_middleware_def refuse_an_unsound_stack_def check_def library_middleware_def stack_headers_policy_def)
  have adds: "?add a e = Inr a' \<Longrightarrow> id a' = e # id a" for a e a' by simp
  obtain policy where "id ?app' = map LibraryEntry ([SecurityHeadersMiddleware policy]
      @ map BodySizeLimitMiddleware (option_list (Some ?body)) @ map IpRateLimitMiddleware (option_list None)
      @ map BearerMiddleware (option_list None) @ [CsrfOriginMiddleware \<lparr>cp_exempt = no_paths\<rparr>]
      @ map SessionGateMiddleware (option_list None)) @ id [HostEntry id :: (unit, unit) middleware_entry]"
    "\<forall>path. cache_control policy path = cache_control sample_headers_policy path"
    using installed_in_one_order[OF adds run] unfolding option.case by blast
  then have "policy = sample_headers_policy" by (simp add: option_list_def)
  with run show ?thesis by (intro exI[of _ ?app'] exI[of _ policy]) (simp add: cache_control_def sample_headers_policy_def)
qed

text \<open>C13. The stack decides an http request once, by its gates in their order, and nothing inside a refusal
  is ever touched. A body declared too large is answered 413 before any gate, with the host's state as
  it was. Otherwise the gates run one after the other: the first refusal is the whole answer and the
  first exception the bare 500 that is re-raised, each with the state that gate left, whatever the
  application and the gates inside it are, and each under the headers policy. A request all gates pass
  is the application's, run on the scope and state they left, with the policy on all it sends, and on a
  body within the limit.\<close>

theorem stack_is_one_decision:
  fixes sc :: "'s scope" and bearer :: "('s, 'k) bearer_gate option"
  assumes lib: "library_middleware headers body rate bearer csrf session = Inr entries"
    and built: "served parse_cookie get put entries app = Inr stacked" and mw: "bearer_middleware_of get put bearer = Inr mw"
    and http: "sc_type sc = Http" "installed_web_auth_config (sc_app sc) = Inr cfg"
  shows "\<exists>policy. stack_headers_policy headers bearer = Inr policy
    \<and> (let gates = stack_gates parse_cookie rate mw csrf session;
          on_the_way_out = policied policy (route_path sc) (cf_cookie_secure cfg) in
      if declares_too_much body sc
      then (\<exists>k. \<forall>n\<ge>k. run n (stacked sc) s ins [] = (Some (Inr ()), s, [on_the_way_out (start_of too_large), ResponseBody (rs_body too_large)]))
      else (case in_turn gates sc s of
          (Inr (Some r, _), s') \<Rightarrow>
            \<exists>k. \<forall>n\<ge>k. run n (stacked sc) s ins [] = (Some (Inr ()), s', [on_the_way_out (start_of r), ResponseBody (rs_body r)])
        | (Inl e, s') \<Rightarrow> e \<noteq> BodyTooLarge \<longrightarrow>
            (\<exists>k. \<forall>n\<ge>k. run n (stacked sc) s ins [] = (Some (Inl e), s', the_500 policy (route_path sc) (cf_cookie_secure cfg)))
        | (Inr (None, sc'), s') \<Rightarrow> \<forall>n outs.
            state_of (run (length gates + n) (stacked sc) s ins outs) = state_of (run n (app sc') s' (received_by body sc ins) outs)
            \<and> (\<exists>added. sent (run (length gates + n) (stacked sc) s ins outs)
                = map on_the_way_out (sent (run n (app sc') s' (received_by body sc ins) outs)) @ added
              \<and> (added \<noteq> [] \<longrightarrow> starts (sent (run n (app sc') s' (received_by body sc ins) outs)) = []))))"
proof -
  let ?gates = "stack_gates parse_cookie rate mw csrf session"
  let ?nest = "foldr refusal_middleware ?gates app"
  obtain policy where policy: "stack_headers_policy headers bearer = Inr policy"
    and stacked: "stacked = security_headers policy (limited body ?nest)"
    using served_stack[OF lib built] mw by auto
  note keeps = stack_gates_keep_type[of parse_cookie rate mw csrf session]
  show ?thesis
  proof (cases "declares_too_much body sc")
    case True
    then have "limited body ?nest sc = send_response too_large"
      using http(1) by (auto simp: declares_too_much_def limited_def body_size_limit_def Let_def split: option.splits)
    then have "run 3 (limited body ?nest sc) s ins [] = (Some (Inr ()), s, [start_of too_large, ResponseBody (rs_body too_large)])"
      using run_send_response[of 0 too_large s ins] by (simp add: numeral_3_eq_3)
    from policied_ended[where app = "limited body ?nest", OF http this] True policy stacked show ?thesis
      by (intro exI[of _ policy]) (auto simp: Let_def intro!: exI[of _ 5])
  next
    case False
    note cases = stack_refuses[OF http False keeps] stack_raises[OF http False keeps] stack_passes[OF http False keeps]
    show ?thesis
      unfolding stacked using policy False
      by (intro exI[of _ policy]) (simp add: Let_def cases split: prod.split sum.split option.split)
  qed
qed


text \<open>A cross-site \<open>POST\<close> with a session cookie, before a gate with a host's sessions.\<close>

definition sample_forgery :: "memory scope" where
  "sample_forgery = (sample_scope [(py ''sec-fetch-site'', py ''cross-site'')])\<lparr>sc_method := py ''POST''\<rparr>"

lemma sample_forgery_refused:
  "origin_check_refusal sample_forgery = Inr (Some cross_origin_rejection)" "bearer_admission sample_forgery = None"
  "sc_method sample_forgery \<in> MUTATING_METHODS" "requires_same_origin \<lparr>cp_exempt = no_paths\<rparr> path"
  "sc_type sample_forgery = Http" "installed_web_auth_config (sc_app sample_forgery) = Inr sample_config"
proof -
  have "lower_py (py ''sec-fetch-site'') = py ''sec-fetch-site''" by (simp add: text_eval)
  then have "get_header sample_forgery (py ''sec-fetch-site'') = Some (py ''cross-site'')"
    by (simp add: get_header_def getlist_def sample_forgery_def sample_scope_def)
  then show "origin_check_refusal sample_forgery = Inr (Some cross_origin_rejection)"
    by (simp add: origin_check_refusal_def sec_fetch_site_allows_def)
qed (simp_all add: bearer_admission_def sample_forgery_def sample_scope_def MUTATING_METHODS_def requires_same_origin_def
    installed_web_auth_config_def)

definition sample_entries :: "rate_limit_policy option \<Rightarrow> (memory, unit) library_entry list" where
  "sample_entries rate = [SecurityHeadersMiddleware sample_headers_policy] @ map IpRateLimitMiddleware (option_list rate)
     @ [CsrfOriginMiddleware \<lparr>cp_exempt = no_paths\<rparr>, SessionGateMiddleware (sample_session_gate no_paths)]"

lemma sample_stack:
  "library_middleware sample_headers_policy None rate None \<lparr>cp_exempt = no_paths\<rparr> (Some (sample_session_gate no_paths)) = Inr (sample_entries rate)"
  "\<exists>stacked. served parse_cookie get put (sample_entries rate) app = Inr stacked"
  by (cases rate; simp add: library_middleware_def stack_headers_policy_def sample_entries_def option_list_def)+

lemma stack_is_one_decision_witness:
  "\<exists>stacked policy k. served (\<lambda>_. []) (\<lambda>_. new_verifier_state) (\<lambda>_. id) (sample_entries None) (\<lambda>_. Fail KeyError) = Inr stacked
    \<and> (\<forall>n\<ge>k. run n (stacked sample_forgery) sample_memory [] [] = (Some (Inr ()), sample_memory,
        [policied policy (route_path sample_forgery) True (start_of cross_origin_rejection), ResponseBody (rs_body cross_origin_rejection)]))"
proof -
  obtain stacked where stacked: "served (\<lambda>_. []) (\<lambda>_. new_verifier_state) (\<lambda>_. id) (sample_entries None) (\<lambda>_. Fail KeyError) = Inr stacked"
    using sample_stack(2) by blast
  have gates: "in_turn (stack_gates (\<lambda>_. []) None None \<lparr>cp_exempt = no_paths\<rparr> (Some (sample_session_gate no_paths))) sample_forgery sample_memory
      = (Inr (Some cross_origin_rejection, sample_forgery), sample_memory)"
    by (simp add: stack_gates_def csrf_gate_def sample_forgery_refused)
  have "bearer_middleware_of (\<lambda>_. new_verifier_state) (\<lambda>_. id) (None :: (memory, unit) bearer_gate option) = Inr None"
    by (simp add: bearer_middleware_of_def)
  from stack_is_one_decision[OF sample_stack(1) stacked this sample_forgery_refused(5,6), of sample_memory "[]"]
  obtain policy k where "\<forall>n\<ge>k. run n (stacked sample_forgery) sample_memory [] [] = (Some (Inr ()), sample_memory,
        [policied policy (route_path sample_forgery) True (start_of cross_origin_rejection), ResponseBody (rs_body cross_origin_rejection)])"
    by (auto simp: gates declares_too_much_def Let_def sample_config_def)
  with stacked show ?thesis by blast
qed

text \<open>The mark of a person path changes nothing the origin check reads.\<close>

lemma origin_check_of_mark:
  "sc_method (mark_person_path sc) = sc_method sc" "route_path (mark_person_path sc) = route_path sc"
  "bearer_admission (mark_person_path sc) = bearer_admission sc"
  "origin_check_refusal (mark_person_path sc) = origin_check_refusal sc"
  by (auto simp: mark_person_path_def route_path_def bearer_admission_def getlist_def origin_check_refusal_def get_header_def
      origin_allowlist_refusal_def web_auth_config_def origin_verdict_def split: option.split list.split)

lemma forgery_refused_in_turn:
  assumes policy: "stack_headers_policy headers bearer = Inr policy" and mw: "bearer_middleware_of get put bearer = Inr mw"
    and counted: "rate_gate rate sc s = (Inr (None, sc), s')"
    and forged: "sc_method sc \<in> MUTATING_METHODS" "requires_same_origin csrf (route_path sc)" "bearer_admission sc = None"
      "origin_check_refusal sc = Inr (Some r)"
    and none: "bearer = None \<or> credential_of sc = Inr (Inl Bearer_NO_CREDENTIALS)"
  shows "\<exists>sc'. in_turn (stack_gates parse_cookie (Some rate) mw csrf session) sc s
    = (Inr (Some (case bearer_challenge bearer sc of None \<Rightarrow> r | Some parameters \<Rightarrow> bearer_response Bearer_NO_CREDENTIALS parameters), sc'), s')"
proof -
  note rest = bindA_apply(1)[where m = "rate_gate rate sc", OF counted]
  have refused: "csrf_gate csrf sc' = ret (Some r, sc')" if "sc' \<in> {sc, mark_person_path sc}" for sc'
    using that forged by (auto simp: csrf_gate_def origin_check_of_mark)
  show ?thesis
  proof (cases bearer)
    case None
    with mw refused[of sc] show ?thesis
      by (simp add: bearer_middleware_of_def stack_gates_def rest bearer_challenge_def)
  next
    case (Some g)
    obtain m where m: "mw = Some m" "BearerGateMiddleware get put g = Inr m"
      using mw Some by (auto simp: bearer_middleware_of_def)
    have "\<exists>path. entry_point resource = Inr path" if "bg_resource g = Some resource" for resource
      using policy that by (auto simp: Some stack_headers_policy_def no_store_paths_def entry_point_rule_def Let_def)
    from bearer_gate_without_credential[OF m(2) this] none Some obtain sc' where
      gate: "BearerGate.bearer_gate m sc s'
        = (Inr (map_option (bearer_response Bearer_NO_CREDENTIALS) (bearer_challenge (Some g) sc), sc'), s')"
      and sc': "sc' \<in> {sc, mark_person_path sc}" by blast
    show ?thesis
      by (cases "bearer_challenge (Some g) sc")
        (simp_all add: stack_gates_def rest m(1) Some refused[OF sc'] bindA_apply(1)[where m = "BearerGate.bearer_gate m sc", OF gate])
  qed
qed

text \<open>C14. A forged request spends its client's budget and costs no session. Behind the library's stack,
  with any bearer gate or none, a state-changing request the origin check refuses and that carries no
  bearer credential is answered once the rate limit let it pass, with the policy's headers: with the gate's
  challenge on a machine path or at the protected resource's entry point, and with the origin check's
  refusal everywhere else. The host's state is exactly the one the limiter left: neither the session
  gate, whatever its store, nor the application ran.\<close>

theorem forgery_spends_only_budget:
  fixes sc :: "'s scope" and entries :: "('s, 'k) library_entry list" and bearer :: "('s, 'k) bearer_gate option"
  assumes lib: "library_middleware headers body (Some rate) bearer csrf session = Inr entries"
    and built: "served parse_cookie get put entries app = Inr stacked"
    and http: "sc_type sc = Http" "installed_web_auth_config (sc_app sc) = Inr cfg" and fits: "\<not> declares_too_much body sc"
    and counted: "rate_gate rate sc s = (Inr (None, sc), s')"
    and forged: "sc_method sc \<in> MUTATING_METHODS" "requires_same_origin csrf (route_path sc)" "bearer_admission sc = None"
      "origin_check_refusal sc = Inr (Some r)"
    and none: "bearer = None \<or> credential_of sc = Inr (Inl Bearer_NO_CREDENTIALS)"
  shows "\<exists>policy answer k. stack_headers_policy headers bearer = Inr policy
    \<and> answer = (case bearer_challenge bearer sc of None \<Rightarrow> r | Some parameters \<Rightarrow> bearer_response Bearer_NO_CREDENTIALS parameters)
    \<and> (\<forall>n\<ge>k. run n (stacked sc) s ins [] = (Some (Inr ()), s',
        [policied policy (route_path sc) (cf_cookie_secure cfg) (start_of answer), ResponseBody (rs_body answer)]))"
proof -
  obtain policy mw where policy: "stack_headers_policy headers bearer = Inr policy" and mw: "bearer_middleware_of get put bearer = Inr mw"
    and stacked: "stacked = security_headers policy (limited body
      (foldr refusal_middleware (stack_gates parse_cookie (Some rate) mw csrf session) app))"
    using served_stack[OF lib built] by blast
  obtain sc' where "in_turn (stack_gates parse_cookie (Some rate) mw csrf session) sc s = (Inr (Some (case bearer_challenge bearer sc of
      None \<Rightarrow> r | Some parameters \<Rightarrow> bearer_response Bearer_NO_CREDENTIALS parameters), sc'), s')"
    using forgery_refused_in_turn[OF policy mw counted forged none] by blast
  from stack_refuses[OF http fits stack_gates_keep_type this] policy show ?thesis
    unfolding stacked by (intro exI[of _ policy] exI[of _ "case bearer_challenge bearer sc of
      None \<Rightarrow> r | Some parameters \<Rightarrow> bearer_response Bearer_NO_CREDENTIALS parameters"]) simp
qed

definition sample_budget_policy :: rate_limit_policy where
  "sample_budget_policy = \<lparr>rl_default = \<lparr>rb_name = py ''default'', rb_max_requests = 60, rb_window_seconds = 60\<rparr>,
     rl_rules = [], rl_exempt = no_paths\<rparr>"

text \<open>A cross-site \<open>POST\<close> to a person path, behind a gate with machine and person paths.\<close>

definition agent_forgery :: "host scope" where
  "agent_forgery = (sample_scope [(py ''sec-fetch-site'', py ''cross-site'')])\<lparr>sc_method := py ''POST'', sc_path := py ''/p''\<rparr>"

lemma agent_forgery_refused:
  "origin_check_refusal agent_forgery = Inr (Some cross_origin_rejection)" "bearer_admission agent_forgery = None"
  "sc_method agent_forgery \<in> MUTATING_METHODS" "requires_same_origin \<lparr>cp_exempt = no_paths\<rparr> path"
  "sc_type agent_forgery = Http" "installed_web_auth_config (sc_app agent_forgery) = Inr sample_config"
  "credential_of agent_forgery = Inr (Inl Bearer_NO_CREDENTIALS)" "route_path agent_forgery = py ''/p''"
proof -
  have "lower_py (py ''sec-fetch-site'') = py ''sec-fetch-site''" "lower_py (py ''authorization'') \<noteq> py ''sec-fetch-site''"
    by (simp_all add: text_eval)
  then show "origin_check_refusal agent_forgery = Inr (Some cross_origin_rejection)"
      "credential_of agent_forgery = Inr (Inl Bearer_NO_CREDENTIALS)"
    by (simp_all add: origin_check_refusal_def sec_fetch_site_allows_def get_header_def getlist_def agent_forgery_def sample_scope_def
        credential_of_def strip_of_def)
qed (simp_all add: bearer_admission_def agent_forgery_def sample_scope_def MUTATING_METHODS_def requires_same_origin_def
    installed_web_auth_config_def route_path_def)

lemma forgery_spends_only_budget_witness:
  "\<exists>entries stacked policy k. library_middleware sample_headers_policy None (Some sample_budget_policy) (Some (bm_policy (agent_gate None)))
        \<lparr>cp_exempt = no_paths\<rparr> None = Inr entries
    \<and> served (\<lambda>_. []) (\<lambda>_. new_verifier_state) (\<lambda>_. id) entries (\<lambda>_. Fail KeyError) = Inr stacked
    \<and> (\<forall>n\<ge>k. run n (stacked agent_forgery) sample_host [] [] = (Some (Inr ()), sample_host,
        [policied policy (py ''/p'') True (start_of cross_origin_rejection), ResponseBody (rs_body cross_origin_rejection)]))"
proof -
  let ?bearer = "Some (bm_policy (agent_gate None))"
  have policy: "\<exists>policy. stack_headers_policy sample_headers_policy ?bearer = Inr policy"
    by (simp add: stack_headers_policy_def no_store_paths_def agent_gate_def CacheControlRule_def SecurityHeadersPolicy_def
        require_header_field_value_def is_header_field_value_def is_visible_def sample_headers_policy_def check_def text_eval)
  obtain entries where entries: "library_middleware sample_headers_policy None (Some sample_budget_policy) ?bearer
        \<lparr>cp_exempt = no_paths\<rparr> None = Inr entries"
    using policy by (auto simp: library_middleware_def)
  have "\<exists>mw. BearerGateMiddleware (\<lambda>_. new_verifier_state) (\<lambda>_. id) (bm_policy (agent_gate None)) = Inr mw"
    by (simp add: BearerGateMiddleware_def agent_gate_def)
  then obtain stacked where stacked: "served (\<lambda>_. []) (\<lambda>_. new_verifier_state) (\<lambda>_. id) entries (\<lambda>_. Fail KeyError) = Inr stacked"
    using entries policy by (auto simp: library_middleware_def)
  have config: "web_auth_config agent_forgery = Inr sample_config"
    using agent_forgery_refused(6) by (simp add: web_auth_config_def)
  have "cf_rate_limits sample_config key n w h = (Inr True, h)" for key n w and h :: host by (simp add: sample_config_def ret_def)
  then have counted: "rate_gate sample_budget_policy agent_forgery sample_host = (Inr (None, agent_forgery), sample_host)"
    by (simp add: rate_gate_def Let_def is_exempt_def sample_budget_policy_def config resolve_client_ip_def)
  have fits: "\<not> declares_too_much None agent_forgery" by (simp add: declares_too_much_def)
  have "py ''/p'' \<noteq> py ''/m''" by (simp add: text_eval)
  then have challenge: "bearer_challenge ?bearer agent_forgery = None"
    by (simp add: bearer_challenge_def agent_gate_def agent_forgery_refused(8))
  have "cf_cookie_secure (sample_config :: host web_auth_config)" by (simp add: sample_config_def)
  with forgery_spends_only_budget[OF entries stacked agent_forgery_refused(5,6) fits counted agent_forgery_refused(3,4,2,1)
      disjI2[OF agent_forgery_refused(7)], of "[]"] entries stacked
  show ?thesis by (auto simp: challenge agent_forgery_refused(8))
qed


text \<open>C16. The stack answers when its application does. Whatever gates and limits are installed, and whether
  or not a configuration is, an http request before a server that accepts what it is sent comes to an end
  if the application ends on every scope, state and message sequence; and if it ends in an exception, a
  response start has gone out before.\<close>

theorem stack_answers_when_application_does:
  fixes sc :: "'s scope" and bearer :: "('s, 'k) bearer_gate option"
  assumes lib: "library_middleware headers body rate bearer csrf session = Inr entries"
    and built: "served parse_cookie get put entries app = Inr stacked" and http: "sc_type sc = Http"
    and ends: "\<forall>sc s ins. \<exists>n. ended (run n (app sc) s ins []) \<noteq> None"
  shows "\<exists>k r. ended (run k (stacked sc) s ins []) = Some r
    \<and> (isl r \<longrightarrow> starts (sent (run k (stacked sc) s ins [])) \<noteq> [])"
proof -
  obtain policy mw where stacked: "stacked = security_headers policy (limited body
      (foldr refusal_middleware (stack_gates parse_cookie rate (mw :: ('s, 'k) bearer_middleware option) csrf session) app))"
    using served_stack[OF lib built] by auto
  let ?nest = "foldr refusal_middleware (stack_gates parse_cookie rate mw csrf session) app"
  have nest: "\<exists>n. ended (run n (?nest sc) s ins []) \<noteq> None" for ins
    using nested_ends[OF stack_gates_keep_type http] ends by blast
  obtain n r where "ended (run n (limited body ?nest sc) s ins []) = Some r"
    using limited_ends[where app = ?nest, OF http nest] by blast
  from with_policy_ended[OF this] have behind: "\<exists>k r. ended (run k (with_policy policy path secure False (limited body ?nest sc)) s ins []) = Some r
      \<and> (isl r \<longrightarrow> starts (sent (run k (with_policy policy path secure False (limited body ?nest sc)) s ins [])) \<noteq> [])" for path secure
    by (intro exI[of _ "n + 2"] exI[of _ r]) (auto simp: the_500_def start_of_def)
  have failing: "\<exists>k r. ended (run k (with_policy policy path secure False (Fail e)) s ins []) = Some r
      \<and> (isl r \<longrightarrow> starts (sent (run k (with_policy policy path secure False (Fail e)) s ins [])) \<noteq> [])" for path secure e
    by (intro exI[of _ 3] exI[of _ "Inl e"]) (simp add: numeral_3_eq_3 start_of_def)
  show ?thesis
    unfolding stacked security_headers_def using http behind failing by (simp split: sum.split)
qed

lemma stack_answers_when_application_does_witness:
  "\<exists>stacked k r. served (\<lambda>_. []) (\<lambda>_. new_verifier_state) (\<lambda>_. id) (sample_entries None) (\<lambda>_. Fail KeyError) = Inr stacked
    \<and> ended (run k (stacked sample_forgery) sample_memory [] []) = Some r"
proof -
  obtain stacked where stacked: "served (\<lambda>_. []) (\<lambda>_. new_verifier_state) (\<lambda>_. id) (sample_entries None) (\<lambda>_. Fail KeyError) = Inr stacked"
    using sample_stack(2) by blast
  have "\<forall>sc s ins. \<exists>n. ended (run n ((\<lambda>_ :: memory scope. Fail KeyError) sc) s ins []) \<noteq> None"
    by (intro allI exI[of _ 1]) simp
  from stack_answers_when_application_does[OF sample_stack(1) stacked sample_forgery_refused(5) this] stacked
  show ?thesis by blast
qed

end
