(* ===== verification/ServiceCallers.thy ===== *)
theory ServiceCallers
  imports RelyingParty
begin

text \<open>
  \<open>service_callers.py\<close>: the proof a service runs on the token an app presents as itself and on the
  token of the person it acts for. A set of groups is a finite set of texts; \<open>sorted\<close> is their
  order by code point. A registry is a mapping (\<open>None\<close> is an argument that is none), with \<open>None\<close> for a
  value that is no \<open>RegisteredApp\<close>.
\<close>

section \<open>Facts a service owns\<close>

record service_identity =
  si_issuer :: pystr
  si_audience :: pystr
  si_jwks_url :: pyobj
  si_workload_role :: pystr
  si_group_claim :: pystr
  si_leeway_seconds :: int

definition ServiceIdentity :: "pyobj \<Rightarrow> pyobj \<Rightarrow> pyobj \<Rightarrow> pyobj \<Rightarrow> pyobj \<Rightarrow> pyobj \<Rightarrow> exn + service_identity" where
  "ServiceIdentity issuer audience jwks_url workload_role group_claim leeway_seconds =
     bindR (require_non_empty_string issuer) (\<lambda>iss.
     bindR (require_non_empty_string audience) (\<lambda>aud.
     bindR (require_non_empty_string workload_role) (\<lambda>role.
     bindR (require_non_empty_string group_claim) (\<lambda>claim.
     bindR (require_non_negative_whole_number leeway_seconds) (\<lambda>leeway.
       Inr \<lparr>si_issuer = iss, si_audience = aud, si_jwks_url = jwks_url, si_workload_role = role,
         si_group_claim = claim, si_leeway_seconds = leeway\<rparr>)))))"

record registered_app =
  ra_app :: pystr
  ra_admission :: admission_config

definition RegisteredApp :: "pyobj \<Rightarrow> admission_config \<Rightarrow> exn + registered_app" where
  "RegisteredApp app admission = bindR (require_non_empty_string app) (\<lambda>name.
     Inr \<lparr>ra_app = name, ra_admission = admission\<rparr>)"

text \<open>\<open>Principal\<close>, the verified identity.\<close>

record token_principal =
  tp_issuer :: pystr
  tp_subject :: pystr

record person_caller =
  pc_app :: pystr
  pc_client_id :: pystr
  pc_principal :: token_principal
  pc_groups :: "pystr set"
  pc_role :: app_role

section \<open>Refusals\<close>

datatype caller_refusal_reason =
    CALLER_MISSING_TOKEN | CALLER_KEY_SET_UNAVAILABLE | CALLER_TOKEN_REJECTED | CALLER_INVALID_SUBJECT
  | CALLER_MALFORMED_GROUPS | CALLER_NOT_A_WORKLOAD | CALLER_UNBOUND_CLIENT | CALLER_UNREGISTERED_CLIENT
  | CALLER_CLIENT_MISMATCH | CALLER_SAME_SUBJECT | CALLER_NOT_A_MEMBER

datatype caller_refusal_class = UNAUTHENTICATED | UNAVAILABLE | FORBIDDEN

definition UNAUTHENTICATED_REASONS :: "caller_refusal_reason set" where
  "UNAUTHENTICATED_REASONS =
     {CALLER_MISSING_TOKEN, CALLER_TOKEN_REJECTED, CALLER_INVALID_SUBJECT, CALLER_MALFORMED_GROUPS}"

record caller_refusal =
  cr_reason :: caller_refusal_reason
  cr_token_rejection :: "rejection_reason option"

definition CallerRefusal :: "caller_refusal_reason \<Rightarrow> rejection_reason option \<Rightarrow> exn + caller_refusal" where
  "CallerRefusal reason token_rejection =
     (if (reason = CALLER_TOKEN_REJECTED) \<noteq> (token_rejection \<noteq> None) then Inl ValueError
      else Inr \<lparr>cr_reason = reason, cr_token_rejection = token_rejection\<rparr>)"

definition refusal_class :: "caller_refusal \<Rightarrow> caller_refusal_class" where
  "refusal_class refusal =
     (if cr_reason refusal = CALLER_KEY_SET_UNAVAILABLE then UNAVAILABLE
      else if cr_reason refusal \<in> UNAUTHENTICATED_REASONS then UNAUTHENTICATED
      else FORBIDDEN)"

definition verifier_refusal :: "rejection_reason \<Rightarrow> exn + caller_refusal" where
  "verifier_refusal reason =
     (if reason = KEY_SET_UNAVAILABLE then CallerRefusal CALLER_KEY_SET_UNAVAILABLE None
      else CallerRefusal CALLER_TOKEN_REJECTED (Some reason))"

section \<open>Reading claims\<close>

definition groups_of :: "json_object \<Rightarrow> pystr \<Rightarrow> pystr set option" where
  "groups_of claims group_claim = map_option set (groups_claim claims group_claim)"

definition has_role :: "json_object \<Rightarrow> pystr \<Rightarrow> bool" where
  "has_role claims role = (case map_of claims (py ''realm_access'') of
      Some (PyDict realm_access) \<Rightarrow> (case map_of realm_access (py ''roles'') of
          Some (PyList roles) \<Rightarrow> PyStr role \<in> set roles
        | _ \<Rightarrow> False)
    | _ \<Rightarrow> False)"

definition authorized_party :: "json_object \<Rightarrow> pystr option" where
  "authorized_party claims = (case map_of claims (py ''azp'') of
      Some (PyStr azp) \<Rightarrow> if azp \<noteq> [] then Some azp else None
    | _ \<Rightarrow> None)"

definition bound_client_id :: "json_object \<Rightarrow> pystr option" where
  "bound_client_id claims = (case authorized_party claims of
      Some azp \<Rightarrow> if map_of claims (py ''client_id'') = Some (PyStr azp) then Some azp else None
    | None \<Rightarrow> None)"

section \<open>The check\<close>

record ('s, 'k) service_caller_check =
  scc_identity :: service_identity
  scc_registered_apps :: "pystr \<rightharpoonup> registered_app"
  scc_library :: "'k jwt_library"
  scc_verifier :: "('s, 'k) jwt_verifier"

fun require_registered :: "pystr \<Rightarrow> (pyobj \<times> registered_app option) list \<Rightarrow> exn + (pystr \<times> registered_app) list" where
  "require_registered issuer [] = Inr []"
| "require_registered issuer ((client_id, registered) # rest) =
     bindR (require_non_empty_string client_id) (\<lambda>name.
     case registered of
       None \<Rightarrow> Inl ValueError
     | Some app \<Rightarrow>
         if bound_issuer (ra_admission app) \<noteq> issuer then Inl ValueError
         else bindR (require_registered issuer rest) (\<lambda>apps. Inr ((name, app) # apps)))"

definition require_registry :: "(pyobj \<times> registered_app option) list option \<Rightarrow> pystr \<Rightarrow> exn + (pystr \<times> registered_app) list" where
  "require_registry registered_apps issuer = (case registered_apps of
      None \<Rightarrow> Inl ValueError
    | Some [] \<Rightarrow> Inl ValueError
    | Some items \<Rightarrow> require_registered issuer items)"

definition ServiceCallerCheck ::
    "service_identity \<Rightarrow> (pyobj \<times> registered_app option) list option \<Rightarrow> 'k jwt_library \<Rightarrow> (pystr \<Rightarrow> ('s, nat list) act)
     \<Rightarrow> ('s, rat) act \<Rightarrow> ('s, rat) act \<Rightarrow> ('s \<Rightarrow> 'k verifier_state) \<Rightarrow> ('k verifier_state \<Rightarrow> 's \<Rightarrow> 's)
     \<Rightarrow> exn + ('s, 'k) service_caller_check" where
  "ServiceCallerCheck identity registered_apps lib fetch_key_set wall_clock monotonic_clock get put =
     bindR (require_registry registered_apps (si_issuer identity)) (\<lambda>apps.
     bindR (JwtVerifier (PyStr (si_issuer identity)) (PyTuple [PyStr (si_audience identity)]) (si_jwks_url identity)
         (PyInt (si_leeway_seconds identity)) fetch_key_set wall_clock monotonic_clock get put) (\<lambda>verifier.
       Inr \<lparr>scc_identity = identity, scc_registered_apps = map_of apps, scc_library = lib, scc_verifier = verifier\<rparr>))"

text \<open>The refusals of \<open>person_caller\<close> as left results; an exception is the action's own.\<close>

definition caller_refused :: "caller_refusal_reason \<Rightarrow> ('s, caller_refusal + 'a) act" where
  "caller_refused reason = bindA (liftR (CallerRefusal reason None)) refuse"

definition verified_caller ::
    "('s, 'k) service_caller_check \<Rightarrow> pystr option \<Rightarrow> ('s, caller_refusal + verified_claims) act" where
  "verified_caller scc token = (case token of
      None \<Rightarrow> caller_refused CALLER_MISSING_TOKEN
    | Some t \<Rightarrow>
        if t = [] then caller_refused CALLER_MISSING_TOKEN
        else bindA (verify (scc_library scc) (scc_verifier scc) t None None) (\<lambda>verified. case verified of
            Inl reason \<Rightarrow> bindA (liftR (verifier_refusal reason)) refuse
          | Inr claims \<Rightarrow> ret (Inr claims)))"

definition identified ::
    "('s, 'k) service_caller_check \<Rightarrow> verified_claims \<Rightarrow> ('s, caller_refusal + token_principal \<times> pystr set) act" where
  "identified scc verified = (case vc_subject verified of
      None \<Rightarrow> caller_refused CALLER_INVALID_SUBJECT
    | Some subject \<Rightarrow>
        if \<not> is_utf8 subject then caller_refused CALLER_INVALID_SUBJECT
        else (case groups_of (vc_claims verified) (si_group_claim (scc_identity scc)) of
            None \<Rightarrow> caller_refused CALLER_MALFORMED_GROUPS
          | Some groups \<Rightarrow> ret (Inr (\<lparr>tp_issuer = vc_issuer verified, tp_subject = subject\<rparr>, groups))))"

definition workload_of ::
    "('s, 'k) service_caller_check \<Rightarrow> verified_claims \<Rightarrow> ('s, caller_refusal + registered_app \<times> pystr) act" where
  "workload_of scc verified =
     (if \<not> has_role (vc_claims verified) (si_workload_role (scc_identity scc)) then caller_refused CALLER_NOT_A_WORKLOAD
      else case bound_client_id (vc_claims verified) of
          None \<Rightarrow> caller_refused CALLER_UNBOUND_CLIENT
        | Some client_id \<Rightarrow> (case scc_registered_apps scc client_id of
              None \<Rightarrow> caller_refused CALLER_UNREGISTERED_CLIENT
            | Some registered \<Rightarrow> ret (Inr (registered, client_id))))"

definition person_caller ::
    "('s, 'k) service_caller_check \<Rightarrow> pystr option \<Rightarrow> pystr option \<Rightarrow> ('s, caller_refusal + person_caller) act" where
  "person_caller scc workload_token person_token =
     bindV (verified_caller scc workload_token) (\<lambda>verified_workload.
     bindV (verified_caller scc person_token) (\<lambda>verified_person.
     bindV (identified scc verified_workload) (\<lambda>(workload_principal, workload_groups).
     bindV (identified scc verified_person) (\<lambda>(person_principal, person_groups).
     bindV (workload_of scc verified_workload) (\<lambda>(registered, client_id).
       if authorized_party (vc_claims verified_person) \<noteq> Some client_id then caller_refused CALLER_CLIENT_MISMATCH
       else if tp_subject person_principal = tp_subject workload_principal then caller_refused CALLER_SAME_SUBJECT
       else (case app_role (sorted_list_of_set person_groups) (ra_admission registered) of
           None \<Rightarrow> caller_refused CALLER_NOT_A_MEMBER
         | Some role \<Rightarrow> ret (Inr \<lparr>pc_app = ra_app registered, pc_client_id = client_id, pc_principal = person_principal,
             pc_groups = person_groups, pc_role = role\<rparr>)))))))"


section \<open>What each stage answers\<close>

lemma caller_refused_run:
  "reason \<noteq> CALLER_TOKEN_REJECTED \<Longrightarrow>
     caller_refused reason s = (Inr (Inl \<lparr>cr_reason = reason, cr_token_rejection = None\<rparr>), s)"
  by (simp add: caller_refused_def CallerRefusal_def refuse_def)

lemma verifier_refusal_run:
  "verifier_refusal reason = Inr (if reason = KEY_SET_UNAVAILABLE
     then \<lparr>cr_reason = CALLER_KEY_SET_UNAVAILABLE, cr_token_rejection = None\<rparr>
     else \<lparr>cr_reason = CALLER_TOKEN_REJECTED, cr_token_rejection = Some reason\<rparr>)"
  by (simp add: verifier_refusal_def CallerRefusal_def)

lemma verified_caller_Inr:
  "verified_caller scc token s = (Inr (Inr c), s') \<longleftrightarrow>
     (\<exists>t. token = Some t \<and> t \<noteq> [] \<and> verify (scc_library scc) (scc_verifier scc) t None None s = (Inr (Inr c), s'))"
  by (cases token) (auto simp: verified_caller_def caller_refused_run bindA_cases_Inr verifier_refusal_run refuse_def)

definition well_formed_refusal :: "caller_refusal \<Rightarrow> bool" where
  "well_formed_refusal r \<longleftrightarrow> (cr_token_rejection r \<noteq> None \<longleftrightarrow> cr_reason r = CALLER_TOKEN_REJECTED)
     \<and> cr_token_rejection r \<noteq> Some KEY_SET_UNAVAILABLE"

lemma verified_caller_Inl:
  assumes "verified_caller scc token s = (Inr (Inl r), s')"
  shows "refusal_class r \<noteq> FORBIDDEN \<and> well_formed_refusal r"
  using assms
  by (cases token)
    (auto simp: verified_caller_def caller_refused_run bindA_cases_Inr verifier_refusal_run refuse_def refusal_class_def
      UNAUTHENTICATED_REASONS_def well_formed_refusal_def split: if_split_asm)

lemma identified_run:
  "identified scc v s = (Inr (case vc_subject v of
      None \<Rightarrow> Inl \<lparr>cr_reason = CALLER_INVALID_SUBJECT, cr_token_rejection = None\<rparr>
    | Some subject \<Rightarrow>
        if \<not> is_utf8 subject then Inl \<lparr>cr_reason = CALLER_INVALID_SUBJECT, cr_token_rejection = None\<rparr>
        else (case groups_of (vc_claims v) (si_group_claim (scc_identity scc)) of
            None \<Rightarrow> Inl \<lparr>cr_reason = CALLER_MALFORMED_GROUPS, cr_token_rejection = None\<rparr>
          | Some groups \<Rightarrow> Inr (\<lparr>tp_issuer = vc_issuer v, tp_subject = subject\<rparr>, groups))), s)"
  by (auto simp: identified_def caller_refused_run split: option.split)

lemma workload_of_run:
  "workload_of scc v s = (Inr (
     if \<not> has_role (vc_claims v) (si_workload_role (scc_identity scc)) then Inl \<lparr>cr_reason = CALLER_NOT_A_WORKLOAD, cr_token_rejection = None\<rparr>
     else case bound_client_id (vc_claims v) of
         None \<Rightarrow> Inl \<lparr>cr_reason = CALLER_UNBOUND_CLIENT, cr_token_rejection = None\<rparr>
       | Some client_id \<Rightarrow> (case scc_registered_apps scc client_id of
             None \<Rightarrow> Inl \<lparr>cr_reason = CALLER_UNREGISTERED_CLIENT, cr_token_rejection = None\<rparr>
           | Some registered \<Rightarrow> Inr (registered, client_id))), s)"
  by (auto simp: workload_of_def caller_refused_run split: option.split)

lemma bindV_apply:
  "bindV m f s = (case m s of (Inl e, s') \<Rightarrow> (Inl e, s') | (Inr (Inl x), s') \<Rightarrow> (Inr (Inl x), s') | (Inr (Inr v), s') \<Rightarrow> f v s')"
  by (auto simp: bindV_def bindA_def split: prod.split sum.split)

section \<open>The table of faults\<close>

text \<open>\<open>docs/host-contract.md\<close>: the faults of two verified tokens in table order. The last rows are read
  only where the rows above them found no fault.\<close>

definition has_valid_subject :: "verified_claims \<Rightarrow> bool" where
  "has_valid_subject v \<longleftrightarrow> (case vc_subject v of None \<Rightarrow> False | Some subject \<Rightarrow> is_utf8 subject)"

definition caller_groups :: "('s, 'k) service_caller_check \<Rightarrow> verified_claims \<Rightarrow> pystr set option" where
  "caller_groups scc v = groups_of (vc_claims v) (si_group_claim (scc_identity scc))"

definition caller_app :: "('s, 'k) service_caller_check \<Rightarrow> verified_claims \<Rightarrow> registered_app option" where
  "caller_app scc workload = Option.bind (bound_client_id (vc_claims workload)) (scc_registered_apps scc)"

definition person_role :: "('s, 'k) service_caller_check \<Rightarrow> verified_claims \<Rightarrow> verified_claims \<Rightarrow> app_role option" where
  "person_role scc workload person =
     app_role (sorted_list_of_set (the (caller_groups scc person))) (ra_admission (the (caller_app scc workload)))"

definition caller_faults ::
    "('s, 'k) service_caller_check \<Rightarrow> verified_claims \<Rightarrow> verified_claims \<Rightarrow> (caller_refusal_reason \<times> bool) list" where
  "caller_faults scc workload person =
     [(CALLER_INVALID_SUBJECT, \<not> has_valid_subject workload),
      (CALLER_MALFORMED_GROUPS, caller_groups scc workload = None),
      (CALLER_INVALID_SUBJECT, \<not> has_valid_subject person),
      (CALLER_MALFORMED_GROUPS, caller_groups scc person = None),
      (CALLER_NOT_A_WORKLOAD, \<not> has_role (vc_claims workload) (si_workload_role (scc_identity scc))),
      (CALLER_UNBOUND_CLIENT, bound_client_id (vc_claims workload) = None),
      (CALLER_UNREGISTERED_CLIENT, caller_app scc workload = None),
      (CALLER_CLIENT_MISMATCH, authorized_party (vc_claims person) \<noteq> bound_client_id (vc_claims workload)),
      (CALLER_SAME_SUBJECT, vc_subject person = vc_subject workload),
      (CALLER_NOT_A_MEMBER, person_role scc workload person = None)]"

definition first_fault :: "(caller_refusal_reason \<times> bool) list \<Rightarrow> caller_refusal_reason option" where
  "first_fault faults = map_option fst (find snd faults)"

definition faultless_caller :: "('s, 'k) service_caller_check \<Rightarrow> verified_claims \<Rightarrow> verified_claims \<Rightarrow> person_caller" where
  "faultless_caller scc workload person =
     \<lparr>pc_app = ra_app (the (caller_app scc workload)), pc_client_id = the (bound_client_id (vc_claims workload)),
      pc_principal = \<lparr>tp_issuer = vc_issuer person, tp_subject = the (vc_subject person)\<rparr>,
      pc_groups = the (caller_groups scc person), pc_role = the (person_role scc workload person)\<rparr>"

lemma first_fault_is_the_table:
  assumes workload: "verify (scc_library scc) (scc_verifier scc) w None None s = (Inr (Inr wc), s1)" "w \<noteq> []"
    and person: "verify (scc_library scc) (scc_verifier scc) p None None s1 = (Inr (Inr pc), s2)" "p \<noteq> []"
  shows "person_caller scc (Some w) (Some p) s = (Inr (case first_fault (caller_faults scc wc pc) of
      Some reason \<Rightarrow> Inl \<lparr>cr_reason = reason, cr_token_rejection = None\<rparr>
    | None \<Rightarrow> Inr (faultless_caller scc wc pc)), s2)"
proof -
  have verified: "verified_caller scc (Some w) s = (Inr (Inr wc), s1)" "verified_caller scc (Some p) s1 = (Inr (Inr pc), s2)"
    using workload person by (simp_all add: verified_caller_Inr)
  let ?wid = "bound_client_id (vc_claims wc)" and ?wg = "groups_of (vc_claims wc) (si_group_claim (scc_identity scc))"
    and ?pg = "groups_of (vc_claims pc) (si_group_claim (scc_identity scc))"
  note runs = person_caller_def bindV_apply verified identified_run workload_of_run caller_refused_run
  note table = first_fault_def caller_faults_def has_valid_subject_def caller_groups_def caller_app_def person_role_def faultless_caller_def
  show ?thesis
  proof (cases "has_valid_subject wc \<and> ?wg \<noteq> None \<and> has_valid_subject pc \<and> ?pg \<noteq> None")
    case False
    then show ?thesis by (auto simp: runs table split: option.split)
  next
    case True
    then obtain ws wg ps pg where subjects: "vc_subject wc = Some ws" "is_utf8 ws" "?wg = Some wg" "vc_subject pc = Some ps" "is_utf8 ps" "?pg = Some pg"
      by (auto simp: has_valid_subject_def split: option.splits)
    show ?thesis
    proof (cases "\<exists>client_id registered. ?wid = Some client_id \<and> scc_registered_apps scc client_id = Some registered")
      case False
      then show ?thesis by (cases ?wid) (auto simp: runs table subjects)
    next
      case registered: True
      then show ?thesis by (auto simp: runs table subjects split: option.split)
    qed
  qed
qed

section \<open>A constructed check\<close>

lemma require_registered_issuer:
  "require_registered issuer items = Inr apps \<Longrightarrow> (name, app) \<in> set apps \<Longrightarrow> bound_issuer (ra_admission app) = issuer"
proof (induction issuer items arbitrary: apps rule: require_registered.induct)
  case (2 issuer client_id registered rest)
  then obtain r where "registered = Some r" by (cases registered) (auto simp: bindR_eq_Inr)
  with 2 show ?case by (auto simp: bindR_eq_Inr split: if_split_asm)
qed simp

lemma ServiceCallerCheck_Inr:
  assumes "ServiceCallerCheck identity registered_apps lib fetch_key_set wall_clock monotonic_clock get put = Inr scc"
  shows "scc_identity scc = identity" "scc_library scc = lib" "jv_issuer (scc_verifier scc) = si_issuer identity"
    "jv_audiences (scc_verifier scc) = [si_audience identity]"
    "scc_registered_apps scc client_id = Some registered \<Longrightarrow> bound_issuer (ra_admission registered) = si_issuer identity"
proof -
  obtain apps verifier where apps: "require_registry registered_apps (si_issuer identity) = Inr apps"
    and verifier: "JwtVerifier (PyStr (si_issuer identity)) (PyTuple [PyStr (si_audience identity)]) (si_jwks_url identity)
         (PyInt (si_leeway_seconds identity)) fetch_key_set wall_clock monotonic_clock get put = Inr verifier"
    and scc: "scc = \<lparr>scc_identity = identity, scc_registered_apps = map_of apps, scc_library = lib, scc_verifier = verifier\<rparr>"
    using assms by (auto simp: ServiceCallerCheck_def bindR_eq_Inr)
  show "scc_identity scc = identity" "scc_library scc = lib" by (simp_all add: scc)
  show "jv_issuer (scc_verifier scc) = si_issuer identity" "jv_audiences (scc_verifier scc) = [si_audience identity]"
    using verifier by (auto simp: scc JwtVerifier_def bindR_eq_Inr split: if_split_asm pyobj.splits list.splits option.splits)
  assume "scc_registered_apps scc client_id = Some registered"
  then have "(client_id, registered) \<in> set apps" by (simp add: scc map_of_SomeD)
  with apps show "bound_issuer (ra_admission registered) = si_issuer identity"
    by (auto simp: require_registry_def dest: require_registered_issuer split: option.splits list.splits)
qed

section \<open>A service and two tokens\<close>

definition sample_workload_claims :: json_object where
  "sample_workload_claims = [(py ''exp'', PyInt 200), (py ''iat'', PyInt 100), (py ''aud'', PyStr (py ''app'')), (py ''sub'', PyStr (py ''svc'')),
     (py ''azp'', PyStr (py ''bot'')), (py ''client_id'', PyStr (py ''bot'')),
     (py ''realm_access'', PyDict [(py ''roles'', PyList [PyStr (py ''workload'')])])]"

definition sample_person_claims :: json_object where
  "sample_person_claims = [(py ''exp'', PyInt 200), (py ''iat'', PyInt 100), (py ''aud'', PyStr (py ''app'')), (py ''sub'', PyStr (py ''u1'')),
     (py ''azp'', PyStr (py ''bot'')), (py ''groups'', PyList [PyStr (py ''/staff'')])]"

definition sample_service_library :: "unit jwt_library" where
  "sample_service_library = sample_library\<lparr>jl_decode :=
     (\<lambda>token _ _ _. Inr (if token = py ''w'' then sample_workload_claims else sample_person_claims))\<rparr>"

definition sample_service :: service_identity where
  "sample_service = \<lparr>si_issuer = py ''https://id.example'', si_audience = py ''app'', si_jwks_url = PyStr (py ''https://id.example/keys''),
     si_workload_role = py ''workload'', si_group_claim = py ''groups'', si_leeway_seconds = 5\<rparr>"

definition sample_registered :: registered_app where
  "sample_registered = \<lparr>ra_app = py ''helper'',
     ra_admission = \<lparr>bound_issuer = py ''https://id.example'', login_group = LoginGroup (py ''/staff''), admin_group = NoAdmins\<rparr>\<rparr>"

definition sample_check :: "(unit verifier_world, unit) service_caller_check" where
  "sample_check = \<lparr>scc_identity = sample_service, scc_registered_apps = [py ''bot'' \<mapsto> sample_registered],
     scc_library = sample_service_library, scc_verifier = sample_verifier\<rparr>"

lemma sample_check_built:
  "ServiceCallerCheck sample_service (Some [(PyStr (py ''bot''), Some sample_registered)]) sample_service_library
     (jv_fetch_key_set sample_verifier) (jv_wall_clock sample_verifier) (jv_monotonic_clock sample_verifier)
     (jv_state sample_verifier) (jv_set_state sample_verifier) = Inr sample_check"
proof -
  have "is_https_text (py ''https://id.example/keys'')"
    by (simp add: is_https_text_def is_url_control_or_space_def urlsplit_def split_scheme_def is_netloc_end_def url_port_def hostinfo_def
        hostname_def has_userinfo_def is_scheme_char_def is_alpha_ascii_def Let_def text_eval)
  then have "JwtVerifier (PyStr (py ''https://id.example'')) (PyTuple [PyStr (py ''app'')]) (PyStr (py ''https://id.example/keys'')) (PyInt 5)
      (jv_fetch_key_set sample_verifier) (jv_wall_clock sample_verifier) (jv_monotonic_clock sample_verifier)
      (jv_state sample_verifier) (jv_set_state sample_verifier) = Inr sample_verifier"
    by (simp add: JwtVerifier_def require_non_negative_whole_number_def sample_verifier_def world_verifier_def text_eval)
  then show ?thesis
    by (simp add: ServiceCallerCheck_def require_registry_def sample_service_def sample_registered_def sample_check_def text_eval)
qed

lemma service_tokens_verify:
  "\<exists>wc. verify sample_service_library sample_verifier (py ''w'') None None sample_world = (Inr (Inr wc), sample_world)
    \<and> vc_claims wc = sample_workload_claims \<and> vc_subject wc = Some (py ''svc'') \<and> vc_issuer wc = py ''https://id.example''"
  "\<exists>pc. verify sample_service_library sample_verifier (py ''p'') None None sample_world = (Inr (Inr pc), sample_world)
    \<and> vc_claims pc = sample_person_claims \<and> vc_subject pc = Some (py ''u1'') \<and> vc_issuer pc = py ''https://id.example''"
proof -
  have judged: "judged_header sample_service_library t None None = Inr None" if "length t < 10" "isascii t" "46 \<notin> set t" for t
    using that by (simp add: judged_header_def sample_service_library_def sample_library_def has_expected_type_def header_key_id_def RS256_def
        MAX_TOKEN_CHARACTERS_def MAX_HEADER_SEGMENT_CHARACTERS_def partition_on_none text_eval)
  have w: "verify sample_service_library sample_verifier (py ''w'') None None sample_world
      = (Inr (Inr \<lparr>vc_subject = Some (py ''svc''), vc_issuer = py ''https://id.example'', vc_audiences = [PyStr (py ''app'')],
          vc_expires_at = 200, vc_issued_at = 100, vc_claims = sample_workload_claims\<rparr>), sample_world)"
    by (rule sample_world_verifies[OF judged])
      (simp_all add: sample_service_library_def sample_workload_claims_def require_comparable_types_def subject_of_def audiences_of_def isascii_def text_eval)
  then show "\<exists>wc. verify sample_service_library sample_verifier (py ''w'') None None sample_world = (Inr (Inr wc), sample_world)
    \<and> vc_claims wc = sample_workload_claims \<and> vc_subject wc = Some (py ''svc'') \<and> vc_issuer wc = py ''https://id.example''"
    by simp
  have "verify sample_service_library sample_verifier (py ''p'') None None sample_world
      = (Inr (Inr \<lparr>vc_subject = Some (py ''u1''), vc_issuer = py ''https://id.example'', vc_audiences = [PyStr (py ''app'')],
          vc_expires_at = 200, vc_issued_at = 100, vc_claims = sample_person_claims\<rparr>), sample_world)"
    by (rule sample_world_verifies[OF judged])
      (simp_all add: sample_service_library_def sample_person_claims_def require_comparable_types_def subject_of_def audiences_of_def isascii_def text_eval)
  then show "\<exists>pc. verify sample_service_library sample_verifier (py ''p'') None None sample_world = (Inr (Inr pc), sample_world)
    \<and> vc_claims pc = sample_person_claims \<and> vc_subject pc = Some (py ''u1'') \<and> vc_issuer pc = py ''https://id.example''"
    by simp
qed

lemma sample_judged:
  fixes wc pc :: verified_claims
  assumes "vc_claims wc = sample_workload_claims" "vc_subject wc = Some (py ''svc'')"
    and "vc_claims pc = sample_person_claims" "vc_subject pc = Some (py ''u1'')"
  shows "first_fault (caller_faults sample_check wc pc) = None" "faultless_caller sample_check wc pc =
      \<lparr>pc_app = py ''helper'', pc_client_id = py ''bot'', pc_principal = \<lparr>tp_issuer = vc_issuer pc, tp_subject = py ''u1''\<rparr>,
       pc_groups = {py ''/staff''}, pc_role = USER\<rparr>"
    "first_fault (caller_faults sample_check wc wc) = Some CALLER_SAME_SUBJECT"
proof -
  have wc: "groups_of sample_workload_claims (py ''groups'') = Some {}" "bound_client_id sample_workload_claims = Some (py ''bot'')"
      "has_role sample_workload_claims (py ''workload'')" "authorized_party sample_workload_claims = Some (py ''bot'')"
    by (simp_all add: groups_of_def groups_claim_def bound_client_id_def authorized_party_def has_role_def sample_workload_claims_def text_eval)
  have pc: "groups_of sample_person_claims (py ''groups'') = Some {py ''/staff''}" "authorized_party sample_person_claims = Some (py ''bot'')"
    by (simp_all add: groups_of_def groups_claim_def authorized_party_def sample_person_claims_def text_eval)
  have role: "app_role [py ''/staff''] (ra_admission sample_registered) = Some USER"
    by (simp add: app_role_def sample_registered_def is_member_of_def)
  have texts: "is_utf8 (py ''svc'')" "is_utf8 (py ''u1'')" "py ''u1'' \<noteq> py ''svc''"
    by (simp_all add: is_utf8_def utf8_encode_ascii isascii_def text_eval)
  note defs = has_valid_subject_def caller_groups_def caller_app_def person_role_def sample_check_def sample_service_def
  show "first_fault (caller_faults sample_check wc pc) = None" "faultless_caller sample_check wc pc =
      \<lparr>pc_app = py ''helper'', pc_client_id = py ''bot'', pc_principal = \<lparr>tp_issuer = vc_issuer pc, tp_subject = py ''u1''\<rparr>,
       pc_groups = {py ''/staff''}, pc_role = USER\<rparr>"
    by (simp_all add: first_fault_def caller_faults_def faultless_caller_def defs assms wc pc role texts)
      (simp add: sample_registered_def)
  show "first_fault (caller_faults sample_check wc wc) = Some CALLER_SAME_SUBJECT"
    by (simp add: first_fault_def caller_faults_def defs assms wc texts)
qed

lemma sample_answered:
  "\<exists>caller. person_caller sample_check (Some (py ''w'')) (Some (py ''p'')) sample_world = (Inr (Inr caller), sample_world)
    \<and> pc_app caller = py ''helper'' \<and> pc_client_id caller = py ''bot''"
  "person_caller sample_check (Some (py ''w'')) (Some (py ''w'')) sample_world
    = (Inr (Inl \<lparr>cr_reason = CALLER_SAME_SUBJECT, cr_token_rejection = None\<rparr>), sample_world)"
proof -
  obtain wc where wc: "verify sample_service_library sample_verifier (py ''w'') None None sample_world = (Inr (Inr wc), sample_world)"
      "vc_claims wc = sample_workload_claims" "vc_subject wc = Some (py ''svc'')"
    using service_tokens_verify(1) by blast
  obtain pc where pc: "verify sample_service_library sample_verifier (py ''p'') None None sample_world = (Inr (Inr pc), sample_world)"
      "vc_claims pc = sample_person_claims" "vc_subject pc = Some (py ''u1'')"
    using service_tokens_verify(2) by blast
  have parts: "scc_library sample_check = sample_service_library" "scc_verifier sample_check = sample_verifier"
    by (simp_all add: sample_check_def)
  have "py ''w'' \<noteq> []" "py ''p'' \<noteq> []" by (simp_all add: text_eval)
  note run = first_fault_is_the_table[of sample_check, unfolded parts, OF wc(1) this(1)]
  show "\<exists>caller. person_caller sample_check (Some (py ''w'')) (Some (py ''p'')) sample_world = (Inr (Inr caller), sample_world)
    \<and> pc_app caller = py ''helper'' \<and> pc_client_id caller = py ''bot''"
    using run[OF pc(1) \<open>py ''p'' \<noteq> []\<close>] by (simp add: sample_judged(1,2)[OF wc(2,3) pc(2,3)])
  show "person_caller sample_check (Some (py ''w'')) (Some (py ''w'')) sample_world
    = (Inr (Inl \<lparr>cr_reason = CALLER_SAME_SUBJECT, cr_token_rejection = None\<rparr>), sample_world)"
    using run[OF wc(1) \<open>py ''w'' \<noteq> []\<close>] by (simp add: sample_judged(3)[OF wc(2,3) pc(2,3)])
qed

section \<open>Properties\<close>

text \<open>C37. Two verified tokens are judged exactly by the documented table: the caller is refused with the
  first fault of the table that holds, or answered when none does, and judging touches no state.\<close>

theorem first_fault_is_the_refusal:
  assumes workload: "verify (scc_library scc) (scc_verifier scc) w None None s = (Inr (Inr wc), s1)" "w \<noteq> []"
    and person: "verify (scc_library scc) (scc_verifier scc) p None None s1 = (Inr (Inr pc), s2)" "p \<noteq> []"
  shows "person_caller scc (Some w) (Some p) s = (Inr (case first_fault (caller_faults scc wc pc) of
      Some reason \<Rightarrow> Inl \<lparr>cr_reason = reason, cr_token_rejection = None\<rparr>
    | None \<Rightarrow> Inr (faultless_caller scc wc pc)), s2)"
  by (rule first_fault_is_the_table[OF assms])

lemma first_fault_is_the_refusal_witness:
  "\<exists>wc pc. person_caller sample_check (Some (py ''w'')) (Some (py ''p'')) sample_world = (Inr (Inr (faultless_caller sample_check wc pc)), sample_world)
    \<and> pc_app (faultless_caller sample_check wc pc) = py ''helper''"
proof -
  obtain wc where wc: "verify sample_service_library sample_verifier (py ''w'') None None sample_world = (Inr (Inr wc), sample_world)"
      "vc_claims wc = sample_workload_claims" "vc_subject wc = Some (py ''svc'')"
    using service_tokens_verify(1) by blast
  obtain pc where pc: "verify sample_service_library sample_verifier (py ''p'') None None sample_world = (Inr (Inr pc), sample_world)"
      "vc_claims pc = sample_person_claims" "vc_subject pc = Some (py ''u1'')"
    using service_tokens_verify(2) by blast
  have parts: "scc_library sample_check = sample_service_library" "scc_verifier sample_check = sample_verifier"
    by (simp_all add: sample_check_def)
  have "py ''w'' \<noteq> []" "py ''p'' \<noteq> []" by (simp_all add: text_eval)
  from first_fault_is_the_refusal[of sample_check, unfolded parts, OF wc(1) this(1) pc(1) this(2)]
  have "person_caller sample_check (Some (py ''w'')) (Some (py ''p'')) sample_world = (Inr (Inr (faultless_caller sample_check wc pc)), sample_world)"
    by (simp add: sample_judged(1)[OF wc(2,3) pc(2,3)])
  then show ?thesis using sample_judged(2)[OF wc(2,3) pc(2,3)] by fastforce
qed

text \<open>C36. A person's caller is proven by two tokens of this issuer for this service. Whoever a check built by
  its constructor answers with presented two tokens that verify, one after the other, as signed for the
  service's own audience by its own issuer. The first carries the workload role and is bound by \<open>azp\<close> and
  \<open>client_id\<close> alike to a registered app, the one answered; the second was issued to that same client
  for another subject, the principal answered, and the groups and the role are that person's own, by
  the admission the app was registered with.\<close>

theorem person_caller_is_proven:
  assumes built: "ServiceCallerCheck identity registered_apps lib fetch_key_set wall_clock monotonic_clock get put = Inr scc"
    and answered: "person_caller scc workload_token person_token s = (Inr (Inr caller), s')"
  shows "\<exists>w p wc pc s1 registered subject. workload_token = Some w \<and> person_token = Some p
    \<and> verify lib (scc_verifier scc) w None None s = (Inr (Inr wc), s1)
    \<and> verify lib (scc_verifier scc) p None None s1 = (Inr (Inr pc), s')
    \<and> (\<exists>key. jl_decode lib w key [si_audience identity] (si_issuer identity) = Inr (vc_claims wc))
    \<and> (\<exists>key. jl_decode lib p key [si_audience identity] (si_issuer identity) = Inr (vc_claims pc))
    \<and> has_role (vc_claims wc) (si_workload_role identity)
    \<and> map_of (vc_claims wc) (py ''azp'') = Some (PyStr (pc_client_id caller))
    \<and> map_of (vc_claims wc) (py ''client_id'') = Some (PyStr (pc_client_id caller))
    \<and> scc_registered_apps scc (pc_client_id caller) = Some registered \<and> pc_app caller = ra_app registered
    \<and> bound_issuer (ra_admission registered) = si_issuer identity
    \<and> map_of (vc_claims pc) (py ''azp'') = Some (PyStr (pc_client_id caller))
    \<and> vc_subject pc = Some subject \<and> vc_subject wc \<noteq> Some subject
    \<and> pc_principal caller = \<lparr>tp_issuer = si_issuer identity, tp_subject = subject\<rparr>
    \<and> groups_of (vc_claims pc) (si_group_claim identity) = Some (pc_groups caller)
    \<and> app_role (sorted_list_of_set (pc_groups caller)) (ra_admission registered) = Some (pc_role caller)"
proof -
  note parts = ServiceCallerCheck_Inr[OF built]
  obtain wc s1 pc s2 where verified: "verified_caller scc workload_token s = (Inr (Inr wc), s1)"
      "verified_caller scc person_token s1 = (Inr (Inr pc), s2)"
    using answered unfolding person_caller_def bindV_eq_Inr by blast
  then obtain w p where w: "workload_token = Some w" "w \<noteq> []" "verify lib (scc_verifier scc) w None None s = (Inr (Inr wc), s1)"
    and p: "person_token = Some p" "p \<noteq> []" and reached: "verify lib (scc_verifier scc) p None None s1 = (Inr (Inr pc), s2)"
    by (auto simp: verified_caller_Inr parts(2))
  note table = first_fault_is_the_table[where scc = scc, unfolded parts(2), OF w(3,2) reached p(2)]
  then have person: "verify lib (scc_verifier scc) p None None s1 = (Inr (Inr pc), s')"
    using answered w(1) p(1) reached by simp
  have judged: "first_fault (caller_faults scc wc pc) = None" "caller = faultless_caller scc wc pc"
    using table w(1) p(1) answered by (auto split: option.splits)
  then have sound: "has_valid_subject wc" "has_valid_subject pc" "caller_groups scc pc \<noteq> None"
      "has_role (vc_claims wc) (si_workload_role (scc_identity scc))" "bound_client_id (vc_claims wc) \<noteq> None"
      "caller_app scc wc \<noteq> None" "authorized_party (vc_claims pc) = bound_client_id (vc_claims wc)"
      "vc_subject pc \<noteq> vc_subject wc" "person_role scc wc pc \<noteq> None"
    by (auto simp: first_fault_def caller_faults_def split: if_split_asm)
  then obtain client_id registered subject groups where
    client: "bound_client_id (vc_claims wc) = Some client_id" "scc_registered_apps scc client_id = Some registered"
    and subject: "vc_subject pc = Some subject" "caller_groups scc pc = Some groups"
    by (auto simp: caller_app_def has_valid_subject_def split: option.splits)
  note claims = verified_claims_held[OF w(3)] verified_claims_held[OF person]
  have caller: "pc_client_id caller = client_id" "pc_app caller = ra_app registered" "pc_groups caller = groups"
      "pc_principal caller = \<lparr>tp_issuer = si_issuer identity, tp_subject = subject\<rparr>"
      "app_role (sorted_list_of_set groups) (ra_admission registered) = Some (pc_role caller)"
    using sound(9) claims(7) by (auto simp: judged(2) faultless_caller_def caller_app_def client subject person_role_def parts)
  have azp: "map_of c (py ''azp'') = Some (PyStr x)" if "authorized_party c = Some x" for c x
    using that by (auto simp: authorized_party_def split: option.splits pyobj.splits if_split_asm)
  have bound: "authorized_party (vc_claims wc) = Some client_id" "map_of (vc_claims wc) (py ''client_id'') = Some (PyStr client_id)"
    using client(1) by (auto simp: bound_client_id_def split: option.splits if_split_asm)
  have decoded: "\<exists>key. jl_decode lib w key [si_audience identity] (si_issuer identity) = Inr (vc_claims wc)"
    "\<exists>key. jl_decode lib p key [si_audience identity] (si_issuer identity) = Inr (vc_claims pc)"
    using claims(2,6) unfolding parts(3,4) by blast+
  show ?thesis
    by (rule exI[of _ w], rule exI[of _ p], rule exI[of _ wc], rule exI[of _ pc], rule exI[of _ s1], rule exI[of _ registered],
        rule exI[of _ subject])
      (use w(1,3) p(1) person decoded sound(4,7,8) client subject caller azp[OF bound(1)] bound(2) azp[of "vc_claims pc" client_id]
        parts(5)[OF client(2)] in \<open>simp add: parts(1) caller_groups_def\<close>)
qed

lemma person_caller_is_proven_witness:
  "\<exists>caller registered. person_caller sample_check (Some (py ''w'')) (Some (py ''p'')) sample_world = (Inr (Inr caller), sample_world)
    \<and> scc_registered_apps sample_check (pc_client_id caller) = Some registered \<and> pc_app caller = ra_app registered
    \<and> tp_issuer (pc_principal caller) = py ''https://id.example''"
proof -
  obtain caller where run: "person_caller sample_check (Some (py ''w'')) (Some (py ''p'')) sample_world = (Inr (Inr caller), sample_world)"
    using sample_answered(1) by blast
  have "si_issuer sample_service = py ''https://id.example''" by (simp add: sample_service_def)
  with person_caller_is_proven[OF sample_check_built run] run show ?thesis by force
qed

text \<open>A 401 or a 503 never gives way to a 403. A refusal carries the verifier's reason exactly when it is
  \<open>TOKEN_REJECTED\<close>, and never \<open>KEY_SET_UNAVAILABLE\<close> as one; and a refusal of the class \<open>FORBIDDEN\<close> says that
  both tokens were presented, verified, and read without a fault in subject or groups.\<close>

theorem forbidden_only_after_both_are_read:
  assumes "person_caller scc workload_token person_token s = (Inr (Inl refusal), s')"
  shows "(cr_token_rejection refusal \<noteq> None \<longleftrightarrow> cr_reason refusal = CALLER_TOKEN_REJECTED)
    \<and> cr_token_rejection refusal \<noteq> Some KEY_SET_UNAVAILABLE
    \<and> (refusal_class refusal = FORBIDDEN \<longrightarrow> (\<exists>w p wc pc s1. workload_token = Some w \<and> person_token = Some p
        \<and> verify (scc_library scc) (scc_verifier scc) w None None s = (Inr (Inr wc), s1)
        \<and> verify (scc_library scc) (scc_verifier scc) p None None s1 = (Inr (Inr pc), s')
        \<and> has_valid_subject wc \<and> caller_groups scc wc \<noteq> None \<and> has_valid_subject pc \<and> caller_groups scc pc \<noteq> None))"
proof (cases "\<exists>wc pc s1 s2. verified_caller scc workload_token s = (Inr (Inr wc), s1) \<and> verified_caller scc person_token s1 = (Inr (Inr pc), s2)")
  case False
  then obtain token t t' where "verified_caller scc token t = (Inr (Inl refusal), t')"
    using assms by (auto simp: person_caller_def bindV_apply split: prod.split_asm sum.split_asm)
  from verified_caller_Inl[OF this] show ?thesis by (simp add: well_formed_refusal_def)
next
  case True
  then obtain w p wc pc s1 s2 where w: "workload_token = Some w" "w \<noteq> []" "verify (scc_library scc) (scc_verifier scc) w None None s = (Inr (Inr wc), s1)"
    and p: "person_token = Some p" "p \<noteq> []" "verify (scc_library scc) (scc_verifier scc) p None None s1 = (Inr (Inr pc), s2)"
    by (auto simp: verified_caller_Inr)
  from first_fault_is_the_table[OF w(3,2) p(3,2)] assms w(1) p(1) obtain reason where
    fault: "first_fault (caller_faults scc wc pc) = Some reason" "refusal = \<lparr>cr_reason = reason, cr_token_rejection = None\<rparr>" "s' = s2"
    by (auto split: option.splits)
  then have "reason \<noteq> CALLER_TOKEN_REJECTED" by (auto simp: first_fault_def caller_faults_def split: if_split_asm)
  moreover have "has_valid_subject wc \<and> caller_groups scc wc \<noteq> None \<and> has_valid_subject pc \<and> caller_groups scc pc \<noteq> None"
    if "refusal_class refusal = FORBIDDEN"
    using that fault
    by (auto simp: first_fault_def caller_faults_def refusal_class_def UNAUTHENTICATED_REASONS_def split: if_split_asm)
  ultimately show ?thesis using fault w p by auto
qed

lemma forbidden_only_after_both_are_read_witness:
  "\<exists>wc. verify sample_service_library sample_verifier (py ''w'') None None sample_world = (Inr (Inr wc), sample_world) \<and> has_valid_subject wc"
proof -
  have "refusal_class \<lparr>cr_reason = CALLER_SAME_SUBJECT, cr_token_rejection = None\<rparr> = FORBIDDEN"
    by (simp add: refusal_class_def UNAUTHENTICATED_REASONS_def)
  moreover have "scc_library sample_check = sample_service_library" "scc_verifier sample_check = sample_verifier"
    by (simp_all add: sample_check_def)
  moreover obtain w0 where "verify sample_service_library sample_verifier (py ''w'') None None sample_world = (Inr (Inr w0), sample_world)"
    using service_tokens_verify(1) by blast
  ultimately show ?thesis
    using forbidden_only_after_both_are_read[OF sample_answered(2)] by auto
qed

end
