(* ===== verification/RedisLimit.thy ===== *)
theory RedisLimit
  imports RateLimit "HOL-Library.Finite_Map"
begin

text \<open>
  \<open>RedisRateLimitBackend\<close> of \<open>webauth/rate_limit.py\<close>: one Lua script per check, which Redis runs
  without interleaving, at the time its clock shows. Redis is a parameter: the commands the script calls
  are the fields of a \<open>redis\<close>, each given the time of the script, and the locale \<open>redis_server\<close> states
  what its documentation says of them. \<open>visible r t key\<close> are the members of the sorted set a command
  would find at \<open>key\<close> at time \<open>t\<close>, with their scores; a key whose time to live is over has none. The
  client's \<open>uuid4\<close> is a supply of distinct texts, the host's state the server and how many were drawn.
\<close>

record 'r redis =
  rc_failure :: "'r \<Rightarrow> exn option"
  rc_zremrangebyscore :: "pystr \<Rightarrow> rat \<Rightarrow> rat \<Rightarrow> rat \<Rightarrow> 'r \<Rightarrow> 'r"
  rc_zcard :: "pystr \<Rightarrow> rat \<Rightarrow> 'r \<Rightarrow> int"
  rc_zadd :: "pystr \<Rightarrow> rat \<Rightarrow> pystr \<Rightarrow> rat \<Rightarrow> 'r \<Rightarrow> 'r"
  rc_expire :: "pystr \<Rightarrow> int \<Rightarrow> rat \<Rightarrow> 'r \<Rightarrow> 'r"

definition lua_sliding_window :: "'r redis \<Rightarrow> pystr \<Rightarrow> int \<Rightarrow> int \<Rightarrow> pystr \<Rightarrow> rat \<Rightarrow> 'r \<Rightarrow> int \<times> 'r" where
  "lua_sliding_window redis key window max_requests member now r =
     (let trimmed = rc_zremrangebyscore redis key 0 (now - of_int window) now r;
          count = rc_zcard redis key now trimmed
      in if max_requests \<le> count then (count + 1, trimmed)
         else (count + 1, rc_expire redis key window now (rc_zadd redis key now member now trimmed)))"

definition redis_is_allowed ::
    "'r redis \<Rightarrow> (nat \<Rightarrow> pystr) \<Rightarrow> pystr \<Rightarrow> 'r \<times> nat \<Rightarrow> rat \<Rightarrow> pystr \<Rightarrow> int \<Rightarrow> int \<Rightarrow> (exn + bool) \<times> ('r \<times> nat)" where
  "redis_is_allowed redis uuid4 key_prefix st now key limit window_seconds = (case st of (r, drawn) \<Rightarrow>
     (case rc_failure redis r of
        Some e \<Rightarrow> (Inl e, (r, Suc drawn))
      | None \<Rightarrow> (case lua_sliding_window redis (key_prefix @ 58 # key) window_seconds limit (uuid4 drawn) now r of
          (count, r') \<Rightarrow> (Inr (count \<le> limit), (r', Suc drawn)))))"

section \<open>What Redis documents\<close>

definition remove_scores :: "rat \<Rightarrow> rat \<Rightarrow> (pystr \<rightharpoonup> rat) \<Rightarrow> pystr \<rightharpoonup> rat" where
  "remove_scores lo hi members m = (case members m of Some s \<Rightarrow> if lo \<le> s \<and> s \<le> hi then None else Some s | None \<Rightarrow> None)"

locale redis_server =
  fixes redis :: "'r redis"
    and visible :: "'r \<Rightarrow> rat \<Rightarrow> pystr \<Rightarrow> pystr \<rightharpoonup> rat"
  assumes answers: "rc_failure redis r = None"
    and finite_set: "finite (dom (visible r t key))"
    and zcard: "rc_zcard redis key t r = int (card (dom (visible r t key)))"
    and zremrangebyscore: "t \<le> t' \<Longrightarrow> visible (rc_zremrangebyscore redis key lo hi t r) t' k =
      (if k = key then remove_scores lo hi (visible r t' key) else visible r t' k)"
    and zadd: "visible (rc_zadd redis key s m t r) t key = (visible r t key)(m \<mapsto> s)"
    and zadd_other: "k \<noteq> key \<Longrightarrow> t \<le> t' \<Longrightarrow> visible (rc_zadd redis key s m t r) t' k = visible r t' k"
    and expire_lives: "t \<le> t' \<Longrightarrow> t' < t + of_int w \<Longrightarrow> visible (rc_expire redis key w t r) t' key = visible r t key"
    and expire_over: "0 < w \<Longrightarrow> t + of_int w \<le> t' \<Longrightarrow> visible (rc_expire redis key w t r) t' key \<in> {visible r t key, Map.empty}"
    and expire_other: "k \<noteq> key \<Longrightarrow> t \<le> t' \<Longrightarrow> visible (rc_expire redis key w t r) t' k = visible r t' k"
begin

definition younger :: "'r \<Rightarrow> rat \<Rightarrow> pystr \<Rightarrow> rat \<Rightarrow> pystr set" where
  "younger r t key c = {m. \<exists>s. visible r t key m = Some s \<and> c < s}"

lemma finite_younger: "finite (younger r t key c)"
  by (rule finite_subset[OF _ finite_set[of r t key]]) (auto simp: younger_def)

text \<open>The server agrees with a history: at every later time and every cutoff inside the window it holds
  as many members as the history has events, every score lies in the past and every member was drawn.\<close>

definition agrees_with :: "pystr \<Rightarrow> (nat \<Rightarrow> pystr) \<Rightarrow> (pystr \<Rightarrow> int) \<Rightarrow> 'r \<times> nat \<Rightarrow> history \<Rightarrow> rat \<Rightarrow> bool" where
  "agrees_with key_prefix uuid4 W st h t \<longleftrightarrow> 0 \<le> t \<and> (\<forall>e\<in>set h. fst e \<le> t)
     \<and> (\<forall>key t' m s. t \<le> t' \<longrightarrow> visible (fst st) t' (key_prefix @ 58 # key) m = Some s \<longrightarrow> 0 \<le> s \<and> s \<le> t \<and> m \<in> uuid4 ` {..<snd st})
     \<and> (\<forall>key t' c. t \<le> t' \<longrightarrow> t' - of_int (W key) \<le> c \<longrightarrow>
          card (younger (fst st) t' (key_prefix @ 58 # key) c) = length (events_of h key c))"

lemma agrees_later: "agrees_with key_prefix uuid4 W st h t \<Longrightarrow> t \<le> t' \<Longrightarrow> agrees_with key_prefix uuid4 W st h t'"
  unfolding agrees_with_def by (meson order_trans)

lemma younger_trimmed:
  assumes "t \<le> t'" and "hi \<le> c"
  shows "younger (rc_zremrangebyscore redis key lo hi t r) t' k c = younger r t' k c"
  using assms by (auto simp: younger_def zremrangebyscore remove_scores_def split: option.splits if_split_asm)

lemma agrees_withD:
  assumes "agrees_with key_prefix uuid4 W (r, drawn) h t" and "t \<le> t'"
  shows "visible r t' (key_prefix @ 58 # k) m = Some s \<Longrightarrow> 0 \<le> s \<and> s \<le> t \<and> m \<in> uuid4 ` {..<drawn}"
    and "t' - of_int (W k) \<le> c \<Longrightarrow> card (younger r t' (key_prefix @ 58 # k) c) = length (events_of h k c)"
  using assms by (auto simp: agrees_with_def)

lemma agrees_drawn: "agrees_with key_prefix uuid4 W (r, drawn) h t \<Longrightarrow> agrees_with key_prefix uuid4 W (r, Suc drawn) h t"
  unfolding agrees_with_def fst_conv snd_conv by (fastforce simp: image_iff less_Suc_eq)

lemma trim_agrees:
  fixes key :: pystr
  assumes agr: "agrees_with key_prefix uuid4 W (r, drawn) h t"
  defines "trimmed \<equiv> rc_zremrangebyscore redis (key_prefix @ 58 # key) 0 (t - of_int (W key)) t r"
  shows "agrees_with key_prefix uuid4 W (trimmed, drawn) h t"
    and "dom (visible trimmed t (key_prefix @ 58 # key)) = younger r t (key_prefix @ 58 # key) (t - of_int (W key))"
proof -
  show "dom (visible trimmed t (key_prefix @ 58 # key)) = younger r t (key_prefix @ 58 # key) (t - of_int (W key))"
    using agrees_withD(1)[OF agr, of t key]
    by (force simp: trimmed_def younger_def zremrangebyscore remove_scores_def split: option.splits if_split_asm)
  show "agrees_with key_prefix uuid4 W (trimmed, drawn) h t"
    unfolding agrees_with_def fst_conv snd_conv
  proof (intro conjI allI impI)
    show "0 \<le> t" "\<forall>e\<in>set h. fst e \<le> t" using agr by (simp_all add: agrees_with_def)
  next
    fix k t' m s assume t': "t \<le> t'" and "visible trimmed t' (key_prefix @ 58 # k) m = Some s"
    then have "visible r t' (key_prefix @ 58 # k) m = Some s"
      by (auto simp: trimmed_def zremrangebyscore remove_scores_def split: option.splits if_split_asm)
    from agrees_withD(1)[OF agr t' this] show "0 \<le> s" "s \<le> t" "m \<in> uuid4 ` {..<drawn}" by simp_all
  next
    fix k t' c assume t': "t \<le> t'" "t' - of_int (W k) \<le> c"
    have "younger trimmed t' (key_prefix @ 58 # k) c = younger r t' (key_prefix @ 58 # k) c"
    proof (cases "k = key")
      case True
      with t' show ?thesis unfolding trimmed_def by (intro younger_trimmed) auto
    qed (use t' in \<open>simp add: trimmed_def younger_def zremrangebyscore\<close>)
    with agrees_withD(2)[OF agr t'] show "card (younger trimmed t' (key_prefix @ 58 # k) c) = length (events_of h k c)" by simp
  qed
qed

text \<open>Recording the event: inside the key's time to live the set has one member more, after it every score is old.\<close>

lemma record_agrees:
  assumes agr: "agrees_with key_prefix uuid4 W (r, drawn) h t" and pos: "0 < W key" and inj: "inj uuid4"
  defines "r' \<equiv> rc_expire redis (key_prefix @ 58 # key) (W key) t (rc_zadd redis (key_prefix @ 58 # key) t (uuid4 drawn) t r)"
  shows "agrees_with key_prefix uuid4 W (r', Suc drawn) (h @ [(t, key)]) t"
proof -
  let ?key = "key_prefix @ 58 # key" and ?h = "h @ [(t, key)]" and ?m = "uuid4 drawn"
  have own: "visible r' t' ?key = (visible r t ?key)(?m \<mapsto> t)" if "t \<le> t'" "t' < t + of_int (W key)" for t'
    using that by (simp add: r'_def expire_lives zadd)
  have over: "visible r' t' ?key \<in> {(visible r t ?key)(?m \<mapsto> t), Map.empty}" if "t + of_int (W key) \<le> t'" for t'
    using expire_over[OF pos that, of ?key "rc_zadd redis ?key t ?m t r"] by (simp add: r'_def zadd)
  have other: "visible r' t' (key_prefix @ 58 # k) = visible r t' (key_prefix @ 58 # k)" if "k \<noteq> key" "t \<le> t'" for k t'
    using that by (simp add: r'_def expire_other zadd_other)
  have past: "0 \<le> t" "\<forall>e\<in>set ?h. fst e \<le> t" using agr by (simp_all add: agrees_with_def)
  have "?m \<notin> uuid4 ` {..<drawn}" using inj by (auto simp: inj_eq)
  then have fresh: "visible r t ?key ?m = None" using agrees_withD(1)[OF agr, of t key ?m] by (meson not_None_eq order_refl)
  have scored: "0 \<le> s \<and> s \<le> t \<and> m \<in> uuid4 ` {..<Suc drawn}" if "t \<le> t'" "visible r' t' (key_prefix @ 58 # k) m = Some s" for t' k m s
  proof (cases "k = key")
    case True
    then have "((visible r t ?key)(?m \<mapsto> t)) m = Some s"
      using that own[OF that(1)] over[of t'] by (cases "t' < t + of_int (W key)") auto
    then show ?thesis using agrees_withD(1)[OF agr order_refl, of key m s] past(1) by (auto split: if_split_asm)
  next
    case False
    with agrees_withD(1)[OF agr that(1), of k m s] that other[OF False that(1)] show ?thesis by auto
  qed
  have sized: "card (younger r' t' ?key c) = length (events_of ?h key c)" if t': "t \<le> t'" "t' - of_int (W key) \<le> c" for t' c
  proof (cases "c < t")
    case True
    then have "t' < t + of_int (W key)" using t' by simp
    then have "younger r' t' ?key c = insert ?m (younger r t ?key c)"
      using own[OF t'(1)] True by (auto simp: younger_def)
    moreover have "?m \<notin> younger r t ?key c" using fresh by (simp add: younger_def)
    moreover have "card (younger r t ?key c) = length (events_of h key c)" using t' by (intro agrees_withD(2)[OF agr]) simp_all
    ultimately show ?thesis using True by (simp add: finite_younger events_of_def)
  next
    case False
    then have "younger r' t' ?key c = {}" using scored[OF t'(1), of key] by (force simp: younger_def)
    moreover have "events_of ?h key c = []" using past(2) False by (force simp: events_of_def filter_empty_conv)
    ultimately show ?thesis by simp
  qed
  have "card (younger r' t' (key_prefix @ 58 # k) c) = length (events_of ?h k c)" if "t \<le> t'" "t' - of_int (W k) \<le> c" for k t' c
    using that sized other[OF _ that(1), of k] agrees_withD(2)[OF agr that]
    by (cases "k = key") (simp_all add: younger_def events_of_def)
  with scored past show ?thesis unfolding agrees_with_def by auto
qed

lemma script_agrees:
  assumes agr: "agrees_with key_prefix uuid4 W (r, drawn) h t" and pos: "0 < W key" and inj: "inj uuid4"
    and run: "lua_sliding_window redis (key_prefix @ 58 # key) (W key) l (uuid4 drawn) t r = (count, r')"
  shows "count \<le> l \<longleftrightarrow> int (length (events_of h key (t - of_int (W key)))) < l"
    and "agrees_with key_prefix uuid4 W (r', Suc drawn) (if count \<le> l then h @ [(t, key)] else h) t"
proof -
  have size: "rc_zcard redis (key_prefix @ 58 # key) t (rc_zremrangebyscore redis (key_prefix @ 58 # key) 0 (t - of_int (W key)) t r)
      = int (length (events_of h key (t - of_int (W key))))"
    using agrees_withD(2)[OF agr order_refl, of key "t - of_int (W key)"] by (simp add: zcard trim_agrees(2)[OF agr])
  note trimmed = trim_agrees(1)[OF agr, of key]
  show "count \<le> l \<longleftrightarrow> int (length (events_of h key (t - of_int (W key)))) < l"
    using run by (auto simp: lua_sliding_window_def Let_def size split: if_split_asm)
  show "agrees_with key_prefix uuid4 W (r', Suc drawn) (if count \<le> l then h @ [(t, key)] else h) t"
    using run record_agrees[OF trimmed pos inj] agrees_drawn[OF trimmed]
    by (auto simp: lua_sliding_window_def Let_def size split: if_split_asm)
qed

lemma redis_run_is_reference:
  assumes inj: "inj uuid4"
    and "agrees_with key_prefix uuid4 W st h start" "\<forall>c\<in>set calls. start \<le> fst c"
    "sorted (map fst calls)" "\<forall>c\<in>set calls. 0 < W (snd c)"
  shows "fst (run_checks (redis_is_allowed redis uuid4 key_prefix) L W st calls) = map Inr (fst (reference_run L W h calls))"
  using assms(2-)
proof (induction calls arbitrary: st h start)
  case (Cons c calls)
  obtain t key where c: "c = (t, key)" by (cases c)
  obtain r drawn where st: "st = (r, drawn)" by (cases st)
  have pos: "0 < W key" and "start \<le> t" using Cons.prems c by auto
  then have agr: "agrees_with key_prefix uuid4 W (r, drawn) h t" using Cons.prems(1) st agrees_later by blast
  obtain count r' where run: "lua_sliding_window redis (key_prefix @ 58 # key) (W key) (L key) (uuid4 drawn) t r = (count, r')"
    by (cases "lua_sliding_window redis (key_prefix @ 58 # key) (W key) (L key) (uuid4 drawn) t r")
  note step = script_agrees[OF agr pos inj run]
  have admits: "count \<le> L key \<longleftrightarrow> reference_admits L W h t key" using step(1) by (simp add: reference_admits_def)
  have check: "redis_is_allowed redis uuid4 key_prefix st t key (L key) (W key) = (Inr (reference_admits L W h t key), (r', Suc drawn))"
    by (simp add: redis_is_allowed_def st answers run admits)
  have "fst (run_checks (redis_is_allowed redis uuid4 key_prefix) L W (r', Suc drawn) calls)
      = map Inr (fst (reference_run L W (if reference_admits L W h t key then h @ [(t, key)] else h) calls))"
    using Cons.prems c step(2) by (intro Cons.IH[of _ _ t]) (auto simp: admits)
  then show ?case by (auto simp: c check Let_def split: prod.split)
qed simp

end


section \<open>A server in memory\<close>

text \<open>A Redis that keeps what the contract says: each key's members and the end of its time to live.\<close>

type_synonym redis_memory = "pystr \<rightharpoonup> (pystr, rat) fmap \<times> rat option"

definition alive :: "redis_memory \<Rightarrow> rat \<Rightarrow> pystr \<Rightarrow> ((pystr, rat) fmap \<times> rat option) option" where
  "alive r t key = (case r key of
      Some (members, Some over) \<Rightarrow> if over \<le> t then None else Some (members, Some over)
    | entry \<Rightarrow> entry)"

definition memory_visible :: "redis_memory \<Rightarrow> rat \<Rightarrow> pystr \<Rightarrow> pystr \<rightharpoonup> rat" where
  "memory_visible r t key = (case alive r t key of None \<Rightarrow> Map.empty | Some (members, _) \<Rightarrow> fmlookup members)"

definition memory_redis :: "redis_memory redis" where
  "memory_redis = \<lparr>rc_failure = (\<lambda>_. None),
     rc_zremrangebyscore = (\<lambda>key lo hi t r. case alive r t key of
         None \<Rightarrow> r
       | Some (members, over) \<Rightarrow> r(key \<mapsto>
           (fmfilter (\<lambda>m. \<not> (lo \<le> the (fmlookup members m) \<and> the (fmlookup members m) \<le> hi)) members, over))),
     rc_zcard = (\<lambda>key t r. int (card (dom (memory_visible r t key)))),
     rc_zadd = (\<lambda>key s m t r. case alive r t key of
         None \<Rightarrow> r(key \<mapsto> (fmupd m s fmempty, None))
       | Some (members, over) \<Rightarrow> r(key \<mapsto> (fmupd m s members, over))),
     rc_expire = (\<lambda>key seconds t r. case alive r t key of
         None \<Rightarrow> r
       | Some (members, _) \<Rightarrow> r(key \<mapsto> (members, Some (t + of_int seconds))))\<rparr>"

lemma alive_Some: "alive r t key = Some entry \<Longrightarrow> r key = Some entry"
  by (auto simp: alive_def split: option.splits if_split_asm)

lemma alive_None: "alive r t key = None \<Longrightarrow> t \<le> t' \<Longrightarrow> alive r t' key = None"
  by (auto simp: alive_def split: option.splits if_split_asm)

lemma alive_update: "alive (r(key \<mapsto> (members, over))) t' k =
  (if k = key then (case over of Some d \<Rightarrow> if d \<le> t' then None else Some (members, over) | None \<Rightarrow> Some (members, over)) else alive r t' k)"
  by (auto simp: alive_def split: option.split)

interpretation in_memory: redis_server memory_redis memory_visible
proof
  fix r :: redis_memory and t t' :: rat and key k m :: pystr and lo hi s :: rat and w :: int
  show "rc_failure memory_redis r = None" "rc_zcard memory_redis key t r = int (card (dom (memory_visible r t key)))"
    by (simp_all add: memory_redis_def)
  show "finite (dom (memory_visible r t key))"
    by (auto simp: memory_visible_def split: option.split)
  show "memory_visible (rc_zremrangebyscore memory_redis key lo hi t r) t' k =
      (if k = key then remove_scores lo hi (memory_visible r t' key) else memory_visible r t' k)" if "t \<le> t'"
  proof (cases "alive r t key")
    case None
    with alive_None[OF None that] show ?thesis by (auto simp: memory_redis_def memory_visible_def remove_scores_def)
  next
    case (Some entry)
    then obtain members over where entry: "alive r t key = Some (members, over)" by (cases entry) auto
    note alive_Some[OF this]
    then have "alive r t' key = (case over of Some d \<Rightarrow> if d \<le> t' then None else Some (members, over) | None \<Rightarrow> Some (members, over))"
      by (auto simp: alive_def split: option.split)
    then show ?thesis
      by (auto simp: memory_redis_def entry memory_visible_def alive_update remove_scores_def fun_eq_iff split: option.split)
  qed
  show "memory_visible (rc_zadd memory_redis key s m t r) t key = (memory_visible r t key)(m \<mapsto> s)"
    by (auto simp: memory_redis_def memory_visible_def alive_update split: option.split dest: alive_Some simp: alive_def)
  show "memory_visible (rc_zadd memory_redis key s m t r) t' k = memory_visible r t' k" if "k \<noteq> key"
    using that by (auto simp: memory_redis_def memory_visible_def alive_update split: option.split)
  show "memory_visible (rc_expire memory_redis key w t r) t' key = memory_visible r t key" if "t \<le> t'" "t' < t + of_int w"
    using that alive_None[of r t key t'] by (auto simp: memory_redis_def memory_visible_def alive_update split: option.split)
  show "memory_visible (rc_expire memory_redis key w t r) t' key \<in> {memory_visible r t key, Map.empty}" if "0 < w" "t + of_int w \<le> t'"
  proof -
    have "t \<le> t'" using that by (meson le_add_same_cancel1 of_int_nonneg order_less_imp_le order_trans)
    then show ?thesis
      using that alive_None[of r t key t'] by (auto simp: memory_redis_def memory_visible_def alive_update split: option.split)
  qed
  show "memory_visible (rc_expire memory_redis key w t r) t' k = memory_visible r t' k" if "k \<noteq> key"
    using that by (auto simp: memory_redis_def memory_visible_def alive_update split: option.split)
qed

section \<open>Properties\<close>

text \<open>C18. Both backends are the one sliding window. Over any Redis that does what its documentation says, and
  a namespace that held nothing, every sequence of checks on clocks that do not go back is answered by
  the shared backend and by the in-process one alike, exactly as the counter that remembers every
  admitted check; so no interval as long as a key's window holds more admitted checks than the key's
  limit, whatever the sweeping, trimming and expiring in between.\<close>

theorem both_backends_are_the_window:
  assumes "redis_server redis visible" and "inj uuid4" and "0 \<le> start"
    and unused: "\<forall>t key. start \<le> t \<longrightarrow> visible r t (key_prefix @ 58 # key) = Map.empty"
    and calls: "\<forall>c\<in>set calls. start \<le> fst c" "sorted (map fst calls)" "\<forall>c\<in>set calls. 0 < W (snd c)"
  shows "fst (run_checks (redis_is_allowed redis uuid4 key_prefix) L W (r, 0) calls) = map Inr (fst (reference_run L W [] calls))
    \<and> fst (run_checks sp_is_allowed L W new_single_process calls) = map Inr (fst (reference_run L W [] calls))
    \<and> int (spent_between (granted calls (map Inr (fst (reference_run L W [] calls)))) key (x - of_int (W key)) x) \<le> max 0 (L key)"
proof (intro conjI)
  have "redis_server.agrees_with visible key_prefix uuid4 W (r, 0) [] start"
    using assms(3) unused
    by (simp add: redis_server.agrees_with_def[OF assms(1)] redis_server.younger_def[OF assms(1)] events_of_def)
  from redis_server.redis_run_is_reference[OF assms(1,2) this calls]
  show "fst (run_checks (redis_is_allowed redis uuid4 key_prefix) L W (r, 0) calls) = map Inr (fst (reference_run L W [] calls))" .
  show in_process: "fst (run_checks sp_is_allowed L W new_single_process calls) = map Inr (fst (reference_run L W [] calls))"
    by (rule rate_limit_is_reference[OF calls])
  show "int (spent_between (granted calls (map Inr (fst (reference_run L W [] calls)))) key (x - of_int (W key)) x) \<le> max 0 (L key)"
    using rate_limit_never_overspends[OF calls, of L key x] unfolding in_process .
qed

lemma both_backends_are_the_window_witness:
  "fst (run_checks (redis_is_allowed memory_redis (\<lambda>n. replicate n 48) (py ''app'')) (\<lambda>_. 1) (\<lambda>_. 10) (Map.empty, 0)
      [(0, [97]), (1, [98]), (2, [97]), (70, [97])]) = map Inr [True, True, False, True]"
proof -
  have "inj (\<lambda>n. replicate n (48 :: nat))" by (auto simp: inj_def replicate_eq_replicate)
  from both_backends_are_the_window[OF in_memory.redis_server_axioms this, of 0 Map.empty _ "[(0, [97]), (1, [98]), (2, [97]), (70, [97])]"
      "\<lambda>_. 10" "\<lambda>_. 1"]
  show ?thesis by (simp add: memory_visible_def alive_def reference_admits_def events_of_def)
qed

end
