(* ===== verification/Lifecycle.thy ===== *)
theory Lifecycle
  imports SignOut
begin

text \<open>
  A host's transactions in any order. Every change the library makes of a host's accounts and sessions is
  one transaction: the writing of a sign-in, the end of a browser's session, the end of a subject's
  sessions, the admission of a session (which renews it), the two looks around a refresh grant, and the
  admission of a token's holder. What happens between two transactions of one request (the calls to the
  issuer) touches none of this state, so concurrent requests on a host whose transactions are serializable
  are a sequence of these transactions. \<open>transacts\<close> is one of them, \<open>runs\<close> a sequence, on a
  host whose transactions roll back when they raise (\<open>rollback_tx\<close>), one of the hosts \<open>ports.py\<close> allows; each reads the clock for itself, and no
  reading is assumed to follow another.
\<close>

section \<open>Transactions and their sequences\<close>

record 's host_system =
  sy_stores :: "'s sign_in_stores"
  sy_config :: "'s web_auth_config"
  sy_max_sessions :: "int option"
  sy_keeps_id_token :: bool
  sy_admission :: admission_config

text \<open>A transaction reads the clock at most once: \<open>t\<close> is what it reads.\<close>

definition config_at :: "'s host_system \<Rightarrow> rat \<Rightarrow> 's web_auth_config" where
  "config_at sys t = (sy_config sys)\<lparr>cf_wall_clock := ret t\<rparr>"

abbreviation (input) lifetime :: "'s host_system \<Rightarrow> session_lifetime" where
  "lifetime sys \<equiv> cf_session_lifetime (sy_config sys)"

abbreviation (input) session_tx :: "'s host_system \<Rightarrow> 's session_transaction" where
  "session_tx sys \<equiv> \<lparr>st_context = rollback_tx, st_store = sessions (sy_stores sys)\<rparr>"

abbreviation (input) sign_in_tx :: "'s host_system \<Rightarrow> 's sign_in_transaction" where
  "sign_in_tx sys \<equiv> \<lparr>si_context = rollback_tx, si_stores = sy_stores sys\<rparr>"

text \<open>What was run, at what clock reading, and what it answered or raised.\<close>

datatype transacted =
    SignsIn admitted_login rat "pystr option" "exn + pystr"
  | LogsOut pystr "exn + pystr option"
  | EndsSubject pystr "exn + unit"
  | Admits pystr rat "exn + admission"
  | Looks pystr rat "exn + (access_token_refusal + standing_evidence)"
  | Keeps pystr rat pystr "pystr option" "exn + bool"
  | AdmitsToken verified_access_token "exn + (admission_refusal + authenticated_user)"

inductive transacts :: "'s host_system \<Rightarrow> 's \<Rightarrow> transacted \<Rightarrow> 's \<Rightarrow> bool" for sys where
  signs_in: "in_tx rollback_tx (write_sign_in (sy_stores sys) who (config_at sys t) replaced (sy_max_sessions sys)
      (sy_keeps_id_token sys)) s = (res, s') \<Longrightarrow> transacts sys s (SignsIn who t replaced res) s'"
| logs_out: "in_tx rollback_tx (id_token_of_ended_session (sessions (sy_stores sys)) sid) s = (res, s') \<Longrightarrow>
    transacts sys s (LogsOut sid res) s'"
| ends_subject: "in_tx rollback_tx (end_sessions_of_subject (sy_stores sys) subject) s = (res, s') \<Longrightarrow>
    transacts sys s (EndsSubject subject res) s'"
| admits: "in_tx rollback_tx (admit_session sid (sessions (sy_stores sys)) (config_at sys t)) s = (res, s') \<Longrightarrow>
    transacts sys s (Admits sid t res) s'"
| looks: "evidence_of_standing_session sid (session_tx sys) (config_at sys t) s = (res, s') \<Longrightarrow>
    transacts sys s (Looks sid t res) s'"
| keeps_grant: "kept_after_grant sid (session_tx sys) (config_at sys t) sent_token rotated s = (res, s') \<Longrightarrow>
    transacts sys s (Keeps sid t sent_token rotated res) s'"
| admits_token: "admit_token_holder (sign_in_tx sys) verified (sy_admission sys) s = (res, s') \<Longrightarrow>
    transacts sys s (AdmitsToken verified res) s'"

inductive_cases transactsE:
  "transacts sys s (SignsIn who t replaced res) s'" "transacts sys s (LogsOut sid res) s'"
  "transacts sys s (EndsSubject subject res) s'" "transacts sys s (Admits sid t res) s'"
  "transacts sys s (Looks sid t res) s'" "transacts sys s (Keeps sid t sent_token rotated res) s'"
  "transacts sys s (AdmitsToken verified res) s'"

inductive runs :: "'s host_system \<Rightarrow> 's \<Rightarrow> transacted list \<Rightarrow> 's \<Rightarrow> bool" for sys where
  none: "runs sys s [] s"
| more: "transacts sys s e s1 \<Longrightarrow> runs sys s1 es s' \<Longrightarrow> runs sys s (e # es) s'"

inductive_simps runs_simps [simp]: "runs sys s [] s'" "runs sys s (e # es) s'"

lemma runs_append: "runs sys s (es @ fs) s' \<longleftrightarrow> (\<exists>s1. runs sys s es s1 \<and> runs sys s1 fs s')"
  by (induction es arbitrary: s) auto

text \<open>Which sequences a session outlives: a logout in its browser, the end of its subject's sessions and a
  sign-in in its browser end it, each when its transaction committed.\<close>

fun ends_session :: "transacted \<Rightarrow> pystr \<Rightarrow> pystr \<Rightarrow> bool" where
  "ends_session (LogsOut k (Inr _)) sid user \<longleftrightarrow> k = sid"
| "ends_session (EndsSubject v (Inr _)) sid user \<longleftrightarrow> v = user"
| "ends_session (SignsIn _ _ replaced (Inr _)) sid user \<longleftrightarrow> replaced = Some sid"
| "ends_session _ sid user \<longleftrightarrow> False"

text \<open>A sign-in of one account, which may prune it.\<close>

fun signs_in_as :: "transacted \<Rightarrow> pystr \<Rightarrow> bool" where
  "signs_in_as (SignsIn who _ _ _) user \<longleftrightarrow> oi_subject (al_identity who) = user"
| "signs_in_as _ user \<longleftrightarrow> False"

section \<open>What one transaction does\<close>

lemma committed_or_back:
  "in_tx rollback_tx body s = (res, s') \<Longrightarrow> (\<exists>v. res = Inr v \<and> body s = (Inr v, s')) \<or> (\<exists>e. res = Inl e \<and> s' = s)"
  by (auto simp: in_rollback_tx split: sum.splits prod.splits)

lemma config_at_parts [simp]:
  "cf_wall_clock (config_at sys t) = ret t" "cf_session_lifetime (config_at sys t) = cf_session_lifetime (sy_config sys)"
  by (simp_all add: config_at_def)

text \<open>A clock that only reads, at any reading: the calendar may refuse it.\<close>

lemma whole_second_cases:
  "cf_wall_clock cfg = ret t \<Longrightarrow> whole_second_now cfg s = (Inr (truncate_rat t * SECOND), s) \<or> whole_second_now cfg s = (Inl ValueError, s)"
  by (simp add: whole_second_now_def bindA_def Let_def)

lemma renewed_within_age: "renewed_expiry l now created = Inr e \<Longrightarrow> e \<le> created + absolute_max_age_seconds l * SECOND"
  by (auto simp: renewed_expiry_def Let_def datetime_add_def split: if_splits)

lemma admitted_window: "is_admitted l r now = Inr True \<Longrightarrow> as_instant (sr_created_at r) \<le> now + 60 * SECOND
    \<and> now \<le> as_instant (sr_created_at r) + absolute_max_age_seconds l * SECOND"
  by (auto simp: is_admitted_def Let_def bindR_eq_Inr datetime_add_def EXPIRY_TOLERANCE_def split: if_splits)

text \<open>The sequence ends in a sign-in that opened session \<open>k\<close> of \<open>u\<close> at \<open>c\<close>, and nothing that ends it.\<close>

definition opened_by :: "transacted list \<Rightarrow> pystr \<Rightarrow> pystr \<Rightarrow> stored_datetime \<Rightarrow> bool" where
  "opened_by es k u c \<longleftrightarrow> (\<exists>before who t replaced after. es = before @ SignsIn who t replaced (Inr k) # after
     \<and> oi_subject (al_identity who) = u \<and> c = utc_datetime (truncate_rat t * SECOND) \<and> (\<forall>e\<in>set after. \<not> ends_session e k u))"

lemma opened_now: "opened_by (es @ [SignsIn who t replaced (Inr k)]) k (oi_subject (al_identity who)) (utc_datetime (truncate_rat t * SECOND))"
  unfolding opened_by_def by (intro exI[of _ es] exI[of _ who] exI[of _ t] exI[of _ replaced] exI[of _ "[]"]) simp

lemma opened_before:
  assumes "opened_by es k u c" and "\<not> ends_session e k u"
  shows "opened_by (es @ [e]) k u c"
proof -
  from assms(1) obtain before who t replaced after where "es = before @ SignsIn who t replaced (Inr k) # after"
      "oi_subject (al_identity who) = u" "c = utc_datetime (truncate_rat t * SECOND)" "\<forall>e\<in>set after. \<not> ends_session e k u"
    unfolding opened_by_def by blast
  with assms(2) show ?thesis
    unfolding opened_by_def
    by (intro exI[of _ before] exI[of _ who] exI[of _ t] exI[of _ replaced] exI[of _ "after @ [e]"]) auto
qed

text \<open>A session's requests come in order, each at most an idle period after the last and within its age.\<close>

fun used_regularly :: "session_lifetime \<Rightarrow> int \<Rightarrow> pystr \<Rightarrow> int \<Rightarrow> transacted list \<Rightarrow> bool" where
  "used_regularly l start sid seen [] \<longleftrightarrow> True"
| "used_regularly l start sid seen (Admits k t res # es) \<longleftrightarrow> (if k \<noteq> sid then used_regularly l start sid seen es
     else let now = truncate_rat t * SECOND in usable_now now \<and> seen \<le> now \<and> now \<le> seen + idle_seconds l * SECOND
       \<and> now \<le> start + absolute_max_age_seconds l * SECOND \<and> used_regularly l start sid now es)"
| "used_regularly l start sid seen (_ # es) \<longleftrightarrow> used_regularly l start sid seen es"

context sign_in_contract
begin

text \<open>An admission renews its session within the absolute age, or changes nothing.\<close>

lemma admission_effect:
  assumes "ok s" and clock: "cf_wall_clock cfg = ret t"
    and run: "admit_session sid (sessions stores) cfg s = (Inr answer, s')"
  shows "ok s' \<and> account s' = account s
    \<and> (lookup s' = lookup s \<and> (\<forall>user. answer \<noteq> Inr user)
      \<or> (\<exists>r e. lookup s sid = Some r \<and> lookup s' = (lookup s)(sid \<mapsto> r\<lparr>sr_expires_at := utc_datetime e\<rparr>)
          \<and> e \<le> as_instant (sr_created_at r) + absolute_max_age_seconds (cf_session_lifetime cfg) * SECOND
          \<and> answer = Inr (authenticated (sr_user r)) \<and> is_admitted (cf_session_lifetime cfg) r (truncate_rat t * SECOND) = Inr True))"
proof (cases "\<exists>r e. lookup s sid = Some r \<and> is_admitted (cf_session_lifetime cfg) r (truncate_rat t * SECOND) = Inr True
      \<and> whole_second_now cfg s = (Inr (truncate_rat t * SECOND), s)
      \<and> renewed_expiry (cf_session_lifetime cfg) (truncate_rat t * SECOND) (as_instant (sr_created_at r)) = Inr e")
  case True
  then obtain r e where r: "lookup s sid = Some r" "is_admitted (cf_session_lifetime cfg) r (truncate_rat t * SECOND) = Inr True"
      "whole_second_now cfg s = (Inr (truncate_rat t * SECOND), s)"
      "renewed_expiry (cf_session_lifetime cfg) (truncate_rat t * SECOND) (as_instant (sr_created_at r)) = Inr e" by blast
  obtain s1 where s1: "ss_touch (sessions stores) sid e s = (Inr (BoolAnswer True), s1)"
      "lookup s1 = (lookup s)(sid \<mapsto> r\<lparr>sr_expires_at := utc_datetime e\<rparr>)"
    using touch_present[OF r(1), of e] by blast
  then have "s' = s1" "answer = Inr (authenticated (sr_user r))"
    using run r by (simp_all add: admit_session_def bindA_def load)
  moreover have "ok s1" "account s1 = account s"
    using touch_ok[OF \<open>ok s\<close>, of sid e] touch_frame[OF \<open>ok s\<close>, of sid e] s1(1) by simp_all
  ultimately show ?thesis using r s1(2) renewed_within_age[OF r(4)] by blast
next
  case False
  then have "s' = s \<and> (\<forall>user. answer \<noteq> Inr user)"
    using run whole_second_cases[OF clock, of s]
    by (auto simp: admit_session_def bindA_def load split: option.splits sum.splits if_splits)
  then show ?thesis using \<open>ok s\<close> by simp
qed

text \<open>Keeping what a refresh grant rotated rewrites one stored session's token, or changes nothing.\<close>

lemma grant_kept_effect:
  assumes "ok s" and clock: "cf_wall_clock cfg = ret t"
    and run: "kept_after_grant sid \<lparr>st_context = rollback_tx, st_store = sessions stores\<rparr> cfg sent_token rotated s = (res, s')"
  shows "ok s' \<and> account s' = account s \<and> lifespan lookup s' = lifespan lookup s"
proof (cases "s' = s")
  case False
  note unfolds = kept_after_grant_def in_rollback_tx bindA_def load stands_now_def stored_def
  obtain r x where r: "lookup s sid = Some r" "rotated = Some x"
    using run False whole_second_cases[OF clock, of s]
    by (cases "lookup s sid"; cases rotated) (auto simp: unfolds split: sum.splits)
  obtain s1 where s1: "ss_replace_refresh_token (sessions stores) sid x s = (Inr (BoolAnswer True), s1)" "ok s1"
      "lookup s1 = (lookup s)(sid \<mapsto> r\<lparr>sr_refresh_token := Some x\<rparr>)"
    using replace_present[OF \<open>ok s\<close> r(1), of x] by blast
  then have "s' = s1"
    using run r False whole_second_cases[OF clock, of s] by (auto simp: unfolds split: sum.splits if_splits)
  moreover have "lifespan lookup s1 = lifespan lookup s"
    using r(1) s1(3) by (auto simp: lifespan_def fun_eq_iff)
  moreover have "account s1 = account s" using replace_frame[OF \<open>ok s\<close>, of sid x] s1(1) by simp
  ultimately show ?thesis using s1(2) by simp
qed (use \<open>ok s\<close> in simp)

lemma look_effect:
  assumes "cf_wall_clock cfg = ret t"
    and run: "evidence_of_standing_session sid \<lparr>st_context = rollback_tx, st_store = sessions stores\<rparr> cfg s = (res, s')"
  shows "s' = s"
  using run whole_second_cases[OF assms(1), of s]
  by (cases "lookup s sid")
    (auto simp: evidence_of_standing_session_def in_rollback_tx bindA_def load stands_now_def refuse_def split: sum.splits if_splits option.splits)

lemma ended_session_effect:
  assumes "ok s" and run: "id_token_of_ended_session (sessions stores) sid s = (Inr v, s')"
  shows "ok s' \<and> account s' = account s \<and> lookup s' = (lookup s)(sid := None)"
proof -
  have deleted: "ss_delete (sessions stores) sid s = (Inr (), s')"
    using run by (auto simp: id_token_of_ended_session_def bindA_eq_Inr load)
  obtain s1 where "ss_delete (sessions stores) sid s = (Inr (), s1)" "ok s1" "lookup s1 = (lookup s)(sid := None)"
    using delete[OF \<open>ok s\<close>] by blast
  with deleted delete_frame[OF deleted] show ?thesis by simp
qed

lemma token_holder_effect:
  assumes "ok s" and run: "admit_token_holder \<lparr>si_context = rollback_tx, si_stores = stores\<rparr> verified admission s = (res, s')"
  shows "ok s' \<and> lifespan lookup s' = lifespan lookup s \<and> (s' = s \<or> (\<exists>u a. account s' = (account s)(u \<mapsto> a)))"
proof (cases "s' = s")
  case False
  then obtain role a where "admit_account (accounts stores) (audit stores) (claimant_of_token verified) role s = (Inr a, s')"
    using run by (auto simp: admit_token_holder_def in_rollback_tx bindA_def refuse_def split: option.splits prod.splits sum.splits exn.splits)
  with admit_account_effect[OF \<open>ok s\<close> this] admit_account_lifespan[OF \<open>ok s\<close> this] show ?thesis by blast
qed (use \<open>ok s\<close> in simp)

text \<open>
  Two shapes of effect cover every transaction but a sign-in: it takes sessions away, those it ends of
  known accounts among them, or it renews one within the absolute age. Neither forgets an account.
\<close>

definition keeps_accounts :: "'s \<Rightarrow> 's \<Rightarrow> bool" where
  "keeps_accounts s s' \<longleftrightarrow> (\<forall>u. account s u \<noteq> None \<longrightarrow> account s' u \<noteq> None)"

definition takes_away :: "transacted \<Rightarrow> 's \<Rightarrow> 's \<Rightarrow> bool" where
  "takes_away e s s' \<longleftrightarrow> ok s' \<and> keeps_accounts s s' \<and> (\<exists>K. lifespan lookup s' = (lifespan lookup s) |` (- K)
     \<and> (\<forall>k u. owner lookup s k = Some u \<longrightarrow> (k \<in> K \<longrightarrow> ends_session e k u) \<and> (ends_session e k u \<and> account s u \<noteq> None \<longrightarrow> k \<in> K)))"

definition renews :: "session_lifetime \<Rightarrow> transacted \<Rightarrow> 's \<Rightarrow> 's \<Rightarrow> bool" where
  "renews l e s s' \<longleftrightarrow> ok s' \<and> keeps_accounts s s' \<and> (\<exists>k t r i. e = Admits k t (Inr (Inr (authenticated (sr_user r))))
     \<and> lookup s k = Some r \<and> is_admitted l r (truncate_rat t * SECOND) = Inr True
     \<and> lookup s' = (lookup s)(k \<mapsto> r\<lparr>sr_expires_at := utc_datetime i\<rparr>)
     \<and> i \<le> as_instant (sr_created_at r) + absolute_max_age_seconds l * SECOND)"

lemma takes_nothing:
  assumes "ok s'" and "keeps_accounts s s'" and "lifespan lookup s' = lifespan lookup s" and "\<And>k u. \<not> ends_session e k u"
  shows "takes_away e s s'"
  unfolding takes_away_def using assms by (intro conjI exI[of _ "{}"]) (simp_all add: restrict_map_def)

lemma takes_away_same: "ok s \<Longrightarrow> (\<And>k u. \<not> ends_session e k u) \<Longrightarrow> takes_away e s s"
  by (rule takes_nothing) (simp_all add: keeps_accounts_def)

lemma logs_out_takes_away:
  assumes "in_tx rollback_tx (id_token_of_ended_session (sessions stores) sid) s = (res, s')" and "ok s"
  shows "takes_away (LogsOut sid res) s s'"
  using committed_or_back[OF assms(1)]
proof
  assume "\<exists>v. res = Inr v \<and> id_token_of_ended_session (sessions stores) sid s = (Inr v, s')"
  then obtain v where v: "res = Inr v" "id_token_of_ended_session (sessions stores) sid s = (Inr v, s')" by blast
  note effect = ended_session_effect[OF assms(2) v(2)]
  then have "lifespan lookup s' = (lifespan lookup s) |` (- {sid})" by (auto simp: lifespan_def restrict_map_def)
  with effect show ?thesis unfolding takes_away_def v(1) by (intro conjI exI[of _ "{sid}"]) (auto simp: keeps_accounts_def)
qed (use assms(2) in \<open>auto intro: takes_away_same\<close>)

lemma ends_subject_takes_away:
  assumes "in_tx rollback_tx (end_sessions_of_subject stores subject) s = (res, s')" and "ok s"
  shows "takes_away (EndsSubject subject res) s s'"
proof (cases res)
  case (Inl e)
  with committed_or_back[OF assms(1)] assms(2) show ?thesis by (auto intro: takes_away_same)
next
  case (Inr v)
  note effect = end_sessions_effect[OF sign_in_contract_axioms assms(2) assms(1)[unfolded Inr unit_eq[of v]]]
  show ?thesis
  proof (cases "account s subject = None")
    case True
    with effect have "s' = s" by simp
    with True assms(2) show ?thesis
      unfolding takes_away_def by (intro conjI exI[of _ "{}"]) (auto simp: Inr keeps_accounts_def)
  next
    case False
    with effect have "lifespan lookup s' = (lifespan lookup s) |` (- owned lookup s subject)"
      by (auto simp: lifespan_def restrict_map_def)
    with False effect show ?thesis
      unfolding takes_away_def by (intro conjI exI[of _ "owned lookup s subject"]) (auto simp: Inr keeps_accounts_def owned_def)
  qed
qed

lemma admits_renews:
  assumes "in_tx rollback_tx (admit_session sid (sessions stores) cfg) s = (res, s')" and "ok s" and "cf_wall_clock cfg = ret t"
  shows "takes_away (Admits sid t res) s s' \<or> renews (cf_session_lifetime cfg) (Admits sid t res) s s'"
  using committed_or_back[OF assms(1)]
proof
  assume "\<exists>v. res = Inr v \<and> admit_session sid (sessions stores) cfg s = (Inr v, s')"
  then obtain v where v: "res = Inr v" "admit_session sid (sessions stores) cfg s = (Inr v, s')" by blast
  note effect = admission_effect[OF assms(2,3) v(2)]
  then have kept: "ok s'" "keeps_accounts s s'" by (simp_all add: keeps_accounts_def)
  show ?thesis
  proof (cases "lookup s' = lookup s \<and> (\<forall>user. v \<noteq> Inr user)")
    case True
    then have "lifespan lookup s' = lifespan lookup s" by (auto simp: lifespan_def)
    from takes_nothing[OF kept this] show ?thesis by simp
  next
    case False
    with effect kept show ?thesis unfolding renews_def v(1) by blast
  qed
qed (use assms(2) in \<open>auto intro: takes_away_same\<close>)

lemma transaction_effect:
  assumes "transacts sys s e s'" and "ok s" and "sy_stores sys = stores" and "\<And>who t replaced sid. e \<noteq> SignsIn who t replaced (Inr sid)"
  shows "takes_away e s s' \<or> renews (lifetime sys) e s s'"
  using assms(1)
proof cases
  case (signs_in who t replaced res)
  with assms(4) obtain x where "res = Inl x" by (cases res) auto
  with signs_in committed_or_back[OF signs_in(2)] assms(2) show ?thesis by (auto intro: takes_away_same)
next
  case (logs_out sid res)
  with logs_out_takes_away assms(2,3) show ?thesis by blast
next
  case (ends_subject subject res)
  with ends_subject_takes_away assms(2,3) show ?thesis by blast
next
  case (admits sid t res)
  with admits_renews[OF _ assms(2), of sid "config_at sys t"] assms(3) show ?thesis by simp
next
  case (looks sid t res)
  with look_effect[of "config_at sys t" t sid s res s'] assms(2,3) show ?thesis by (auto intro: takes_away_same)
next
  case (keeps_grant sid t sent_token rotated res)
  with grant_kept_effect[OF assms(2), of "config_at sys t" t sid sent_token rotated res s'] assms(3)
  show ?thesis by (auto intro!: takes_nothing simp: keeps_accounts_def)
next
  case (admits_token verified res)
  with token_holder_effect[OF assms(2), of verified "sy_admission sys" res s'] assms(3)
  show ?thesis by (auto intro!: takes_nothing simp: keeps_accounts_def)
qed

text \<open>Every standing session is of a known account, within its age, and accounted for by the sequence so far.\<close>

definition accounted_for :: "session_lifetime \<Rightarrow> transacted list \<Rightarrow> 's \<Rightarrow> bool" where
  "accounted_for l es s \<longleftrightarrow> ok s \<and> (\<forall>k u c x. lifespan lookup s k = Some (u, c, x) \<longrightarrow> account s u \<noteq> None
     \<and> as_instant x \<le> as_instant c + absolute_max_age_seconds l * SECOND \<and> opened_by es k u c)"

lemma takes_away_accounted:
  assumes "accounted_for l es s" and "takes_away e s s'"
  shows "accounted_for l (es @ [e]) s'"
proof -
  from assms(2) obtain K where K: "ok s'" "keeps_accounts s s'" "lifespan lookup s' = (lifespan lookup s) |` (- K)"
    and ended: "\<And>k u. owner lookup s k = Some u \<Longrightarrow> ends_session e k u \<Longrightarrow> account s u \<noteq> None \<Longrightarrow> k \<in> K"
    unfolding takes_away_def by blast
  have "account s' u \<noteq> None \<and> as_instant x \<le> as_instant c + absolute_max_age_seconds l * SECOND \<and> opened_by (es @ [e]) k u c"
    if "lifespan lookup s' k = Some (u, c, x)" for k u c x
  proof -
    from that K(3) have k: "k \<notin> K" "lifespan lookup s k = Some (u, c, x)" by (auto simp: restrict_map_def split: if_splits)
    with assms(1) have u: "account s u \<noteq> None" "as_instant x \<le> as_instant c + absolute_max_age_seconds l * SECOND" "opened_by es k u c"
      unfolding accounted_for_def by blast+
    have "\<not> ends_session e k u" using ended[of k u] k u(1) by (auto simp: owner_lifespan)
    with u K(2) show ?thesis by (simp add: keeps_accounts_def opened_before)
  qed
  with K(1) show ?thesis unfolding accounted_for_def by blast
qed

lemma renews_accounted:
  assumes "accounted_for l es s" and "renews l e s s'"
  shows "accounted_for l (es @ [e]) s'"
proof -
  from assms(2) obtain sid t r i where e: "e = Admits sid t (Inr (Inr (authenticated (sr_user r))))" "lookup s sid = Some r"
      "lookup s' = (lookup s)(sid \<mapsto> r\<lparr>sr_expires_at := utc_datetime i\<rparr>)"
      "i \<le> as_instant (sr_created_at r) + absolute_max_age_seconds l * SECOND"
    and kept: "ok s'" "keeps_accounts s s'" unfolding renews_def by blast
  have "account s' u \<noteq> None \<and> as_instant x \<le> as_instant c + absolute_max_age_seconds l * SECOND \<and> opened_by (es @ [e]) k u c"
    if now: "lifespan lookup s' k = Some (u, c, x)" for k u c x
  proof -
    obtain y where y: "lifespan lookup s k = Some (u, c, y)" "x = y \<or> as_instant x \<le> as_instant c + absolute_max_age_seconds l * SECOND"
      using now e(2-4) by (cases "k = sid") (auto simp: lifespan_def)
    with assms(1) have "account s u \<noteq> None" "as_instant y \<le> as_instant c + absolute_max_age_seconds l * SECOND" "opened_by es k u c"
      unfolding accounted_for_def by blast+
    with y(2) kept(2) show ?thesis by (auto simp: keeps_accounts_def e(1) intro: opened_before)
  qed
  with kept(1) show ?thesis unfolding accounted_for_def by blast
qed

lemma sign_in_accounted:
  assumes "accounted_for (lifetime sys) es s" and "sy_stores sys = stores" and "\<forall>n. sy_max_sessions sys = Some n \<longrightarrow> 1 \<le> n"
    and "transacts sys s (SignsIn who t replaced (Inr sid)) s'"
  shows "accounted_for (lifetime sys) (es @ [SignsIn who t replaced (Inr sid)]) s'"
proof -
  let ?l = "lifetime sys" and ?e = "SignsIn who t replaced (Inr sid)" and ?user = "oi_subject (al_identity who)"
  have run: "write_sign_in stores who (config_at sys t) replaced (sy_max_sessions sys) (sy_keeps_id_token sys) s = (Inr sid, s')"
    using assms(2,4) by (auto elim!: transactsE dest: committed_or_back)
  have "ok s" and clock: "\<forall>s. cf_wall_clock (config_at sys t) s = (Inr t, s)" using assms(1) by (simp_all add: accounted_for_def ret_def)
  from write_sign_in_effect[OF this assms(3) run] obtain r a where r: "ok s'" "lookup s' sid = Some r" "ur_id (sr_user r) = ?user"
      "sr_created_at r = utc_datetime (truncate_rat t * SECOND)"
      "sr_expires_at r = utc_datetime (truncate_rat t * SECOND + min (idle_seconds ?l) (absolute_max_age_seconds ?l) * SECOND)"
      "account s' = (account s)(?user \<mapsto> a)"
    and others: "\<forall>k. k \<noteq> sid \<longrightarrow> (if replaced = Some k then lookup s' k = None else lifespan lookup s' k \<in> {None, lifespan lookup s k})"
    unfolding config_at_parts by blast
  have "account s' u \<noteq> None \<and> as_instant x \<le> as_instant c + absolute_max_age_seconds ?l * SECOND \<and> opened_by (es @ [?e]) k u c"
    if now: "lifespan lookup s' k = Some (u, c, x)" for k u c x
  proof (cases "k = sid")
    case True
    have "x = sr_expires_at r" and u: "u = ?user" "c = utc_datetime (truncate_rat t * SECOND)"
      using now r(2-4) True by (simp_all add: lifespan_def)
    from this(1) have "as_instant x = truncate_rat t * SECOND + min (idle_seconds ?l) (absolute_max_age_seconds ?l) * SECOND"
      unfolding r(5) by simp
    with u show ?thesis using r(6) True opened_now[of es who t replaced sid] by (simp add: SECOND_def)
  next
    case False
    have present: "lookup s' k \<noteq> None" using now by (auto simp: lifespan_def)
    with now have k: "replaced \<noteq> Some k" "lifespan lookup s k = Some (u, c, x)"
      using others[rule_format, OF False] present by (cases "replaced = Some k"; simp)+
    with assms(1) have "account s u \<noteq> None" "as_instant x \<le> as_instant c + absolute_max_age_seconds ?l * SECOND" "opened_by es k u c"
      unfolding accounted_for_def by blast+
    with k(1) r(6) show ?thesis by (auto intro: opened_before)
  qed
  with r(1) show ?thesis unfolding accounted_for_def by blast
qed

lemma transaction_accounted:
  assumes "transacts sys s e s'" and "accounted_for (lifetime sys) es s" and "sy_stores sys = stores"
    and "\<forall>n. sy_max_sessions sys = Some n \<longrightarrow> 1 \<le> n"
  shows "accounted_for (lifetime sys) (es @ [e]) s'"
proof (cases "\<exists>who t replaced sid. e = SignsIn who t replaced (Inr sid)")
  case True
  then obtain who t replaced sid where e: "e = SignsIn who t replaced (Inr sid)" by blast
  show ?thesis using sign_in_accounted[OF assms(2-4) assms(1)[unfolded e]] by (simp add: e)
next
  case False
  have "ok s" using assms(2) by (simp add: accounted_for_def)
  with transaction_effect[OF assms(1) this assms(3)] False have "takes_away e s s' \<or> renews (lifetime sys) e s s'" by blast
  with assms(2) takes_away_accounted renews_accounted show ?thesis by blast
qed

lemma runs_accounted:
  assumes "runs sys s es s'" and "accounted_for (lifetime sys) before s" and "sy_stores sys = stores"
    and "\<forall>n. sy_max_sessions sys = Some n \<longrightarrow> 1 \<le> n"
  shows "accounted_for (lifetime sys) (before @ es) s'"
  using assms(1,2)
proof (induction arbitrary: before)
  case (more s e s1 es s')
  from transaction_accounted[OF more.hyps(1) more.prems assms(3,4)] have "accounted_for (lifetime sys) (before @ [e]) s1" .
  from more.IH[OF this] show ?case by simp
qed simp

text \<open>The cap on the sessions of one account.\<close>

definition capped :: "int \<Rightarrow> 's \<Rightarrow> bool" where
  "capped n s \<longleftrightarrow> ok s \<and> (\<forall>u. card (owned lookup s u) \<le> nat n)"

lemma fewer_capped:
  assumes "capped n s" and "ok s'" and "\<And>k u. owner lookup s' k = Some u \<Longrightarrow> owner lookup s k = Some u"
  shows "capped n s'"
proof -
  have "card (owned lookup s' u) \<le> nat n" for u
  proof -
    have "card (owned lookup s' u) \<le> card (owned lookup s u)"
      using assms(3) finite_owned by (intro card_mono) (auto simp: owned_def)
    with assms(1) show ?thesis unfolding capped_def by (meson order_trans)
  qed
  with assms(2) show ?thesis by (simp add: capped_def)
qed

lemma transaction_capped:
  assumes "transacts sys s e s'" and "capped n s" and "sy_stores sys = stores" and "sy_max_sessions sys = Some n" and "1 \<le> n"
  shows "capped n s'"
proof (cases "\<exists>who t replaced sid. e = SignsIn who t replaced (Inr sid)")
  case True
  then obtain who t replaced sid where e: "e = SignsIn who t replaced (Inr sid)" by blast
  let ?user = "oi_subject (al_identity who)"
  have run: "write_sign_in stores who (config_at sys t) replaced (Some n) (sy_keeps_id_token sys) s = (Inr sid, s')"
    using assms(1,3,4) by (auto simp: e elim!: transactsE dest: committed_or_back)
  have pre: "ok s" "\<forall>s. cf_wall_clock (config_at sys t) s = (Inr t, s)" "\<forall>m. Some n = Some m \<longrightarrow> 1 \<le> m"
    using assms(2,5) by (simp_all add: capped_def ret_def)
  from write_sign_in_effect[OF pre run] obtain r where r: "ok s'" "lookup s' sid = Some r" "ur_id (sr_user r) = ?user"
      "card (owned lookup s' ?user) \<le> nat n"
    and others: "\<forall>k. k \<noteq> sid \<longrightarrow> (if replaced = Some k then lookup s' k = None else lifespan lookup s' k \<in> {None, lifespan lookup s k})"
    by blast
  have "card (owned lookup s' u) \<le> nat n" if "u \<noteq> ?user" for u
  proof -
    have "k \<in> owned lookup s u" if k: "k \<in> owned lookup s' u" for k
    proof -
      have "k \<noteq> sid" using k r(2,3) \<open>u \<noteq> ?user\<close> by (auto simp: owned_def owner_def)
      moreover have "lookup s' k \<noteq> None" "lifespan lookup s' k \<noteq> None" using k by (auto simp: owned_def owner_def lifespan_def)
      ultimately have "lifespan lookup s' k = lifespan lookup s k"
        using others[rule_format, of k] by (cases "replaced = Some k") auto
      with k show ?thesis by (simp add: owned_def owner_lifespan)
    qed
    then have "card (owned lookup s' u) \<le> card (owned lookup s u)" using finite_owned by (intro card_mono) auto
    with assms(2) show ?thesis unfolding capped_def by (meson order_trans)
  qed
  with r(1,4) show ?thesis unfolding capped_def by metis
next
  case False
  have "ok s" using assms(2) by (simp add: capped_def)
  with transaction_effect[OF assms(1) this assms(3)] False have "takes_away e s s' \<or> renews (lifetime sys) e s s'" by blast
  then have "ok s' \<and> (\<forall>k u. owner lookup s' k = Some u \<longrightarrow> owner lookup s k = Some u)"
    by (auto simp: takes_away_def renews_def owner_lifespan restrict_map_def split: if_splits) (auto simp: lifespan_def split: if_splits)
  with fewer_capped[OF assms(2)] show ?thesis by blast
qed

lemma runs_capped:
  assumes "runs sys s es s'" and "capped n s" and "sy_stores sys = stores" and "sy_max_sessions sys = Some n" and "1 \<le> n"
  shows "capped n s'"
  using assms(1,2)
proof (induction)
  case (more s e s1 es s')
  with transaction_capped[OF more.hyps(1) _ assms(3-5)] show ?case by blast
qed

text \<open>A session that nothing ends, of an account that does not overflow, stays as it is until its own next request.\<close>

lemma transaction_spares:
  assumes "transacts sys s e s'" and "ok s" and "sy_stores sys = stores" and "\<forall>n. sy_max_sessions sys = Some n \<longrightarrow> 1 \<le> n"
    and "lifespan lookup s k = Some (u, c, x)" and "\<not> ends_session e k u" and "sy_max_sessions sys = None \<or> \<not> signs_in_as e u"
    and "\<And>t res. e \<noteq> Admits k t res"
  shows "ok s' \<and> lifespan lookup s' k = Some (u, c, x)"
proof (cases "\<exists>who t replaced sid. e = SignsIn who t replaced (Inr sid)")
  case True
  then obtain who t replaced sid where e: "e = SignsIn who t replaced (Inr sid)" by blast
  have run: "write_sign_in stores who (config_at sys t) replaced (sy_max_sessions sys) (sy_keeps_id_token sys) s = (Inr sid, s')"
    using assms(1,3) by (auto simp: e elim!: transactsE dest: committed_or_back)
  have clock: "\<forall>s. cf_wall_clock (config_at sys t) s = (Inr t, s)" by (simp add: ret_def)
  have k: "owner lookup s k = Some u" "lookup s k \<noteq> None" "replaced \<noteq> Some k"
    using assms(5,6) e by (auto simp: owner_lifespan lifespan_def)
  from write_sign_in_effect[OF assms(2) clock assms(4) run] obtain r where "ok s'"
    and kept: "\<forall>k. owner lookup s k \<noteq> Some (oi_subject (al_identity who)) \<and> replaced \<noteq> Some k \<longrightarrow>
        k \<noteq> sid \<and> lifespan lookup s' k = lifespan lookup s k \<or> k = sid \<and> lookup s k = None"
    and uncapped: "sy_max_sessions sys = None \<longrightarrow>
        (\<forall>k. replaced \<noteq> Some k \<and> lookup s k \<noteq> None \<longrightarrow> k \<noteq> sid \<and> lifespan lookup s' k = lifespan lookup s k)"
    by blast
  have "lifespan lookup s' k = lifespan lookup s k"
  proof (cases "sy_max_sessions sys = None")
    case True
    with uncapped k(2,3) show ?thesis by blast
  next
    case False
    with assms(7) k(1) have "owner lookup s k \<noteq> Some (oi_subject (al_identity who))" by (auto simp: e)
    with kept[rule_format, of k] k(2,3) show ?thesis by auto
  qed
  with assms(5) \<open>ok s'\<close> show ?thesis by simp
next
  case False
  with transaction_effect[OF assms(1-3)] have "takes_away e s s' \<or> renews (lifetime sys) e s s'" by blast
  then show ?thesis
  proof
    assume "takes_away e s s'"
    then obtain K where "ok s'" "lifespan lookup s' = (lifespan lookup s) |` (- K)"
        "\<forall>k u. owner lookup s k = Some u \<longrightarrow> (k \<in> K \<longrightarrow> ends_session e k u)"
      unfolding takes_away_def by blast
    moreover have "owner lookup s k = Some u" using assms(5) by (simp add: owner_lifespan)
    ultimately have "ok s'" "lifespan lookup s' = (lifespan lookup s) |` (- K)" "k \<notin> K" using assms(6) by blast+
    with assms(5) show ?thesis by (simp add: restrict_map_def)
  next
    assume "renews (lifetime sys) e s s'"
    then obtain j t res r i where "ok s'" "e = Admits j t res" "lookup s' = (lookup s)(j \<mapsto> r\<lparr>sr_expires_at := utc_datetime i\<rparr>)"
      unfolding renews_def by blast
    moreover from this(2) have "j \<noteq> k" using assms(8) by blast
    ultimately show ?thesis using assms(5) by (simp add: lifespan_def)
  qed
qed

lemma used_session_admitted:
  assumes "runs sys s es s'" and "sy_stores sys = stores" and "\<forall>n. sy_max_sessions sys = Some n \<longrightarrow> 1 \<le> n"
    and life: "lifetime_ok (lifetime sys)" and "ok s" and "start \<le> seen"
    and "lifespan lookup s sid = Some (u, utc_datetime start, utc_datetime (min (seen + idle_seconds (lifetime sys) * SECOND)
        (start + absolute_max_age_seconds (lifetime sys) * SECOND)))"
    and "\<forall>e\<in>set es. \<not> ends_session e sid u \<and> (sy_max_sessions sys = None \<or> \<not> signs_in_as e u)"
    and "used_regularly (lifetime sys) start sid seen es"
  shows "\<forall>t res. Admits sid t res \<in> set es \<longrightarrow> (\<exists>user. res = Inr (Inr user) \<and> au_id user = u)"
  using assms(1,5-)
proof (induction arbitrary: seen)
  case (more s e s1 es s')
  let ?l = "lifetime sys"
  show ?case
  proof (cases "\<exists>t res. e = Admits sid t res")
    case False
    note spared = transaction_spares[OF more.hyps(1) more.prems(1) assms(2,3) more.prems(3)]
    from spared False more.prems(4) have s1: "ok s1" "lifespan lookup s1 sid = lifespan lookup s sid"
      using more.prems(3) by auto
    have "used_regularly ?l start sid seen es" using more.prems(5) False by (cases e) auto
    from more.IH[OF s1(1) more.prems(2) s1(2)[unfolded more.prems(3)] _ this] more.prems(4) False show ?thesis by auto
  next
    case True
    then obtain t res where e: "e = Admits sid t res" by blast
    define now where "now = truncate_rat t * SECOND"
    have now: "usable_now now" "seen \<le> now" "now \<le> seen + idle_seconds ?l * SECOND"
        "now \<le> start + absolute_max_age_seconds ?l * SECOND" and rest: "used_regularly ?l start sid now es"
      using more.prems(5) by (simp_all add: e now_def Let_def)
    obtain r where r: "lookup s sid = Some r" "ur_id (sr_user r) = u" "sr_created_at r = utc_datetime start"
        "sr_expires_at r = utc_datetime (min (seen + idle_seconds ?l * SECOND) (start + absolute_max_age_seconds ?l * SECOND))"
      using more.prems(3) by (auto simp: lifespan_def)
    have window: "session_window ?l now r"
      using now more.prems(2) unfolding session_window_def r(3,4) as_instant_utc by (auto simp: SECOND_def)
    have clock: "cf_wall_clock (config_at sys t) s = (Inr t, s)" by (simp add: ret_def)
    obtain s2 where s2: "admit_session sid (sessions stores) (config_at sys t) s = (Inr (Inr (authenticated (sr_user r))), s2)"
        "lookup s2 = (lookup s)(sid \<mapsto> r\<lparr>sr_expires_at := utc_datetime (next_expiry ?l now r)\<rparr>)"
      using admit_admitted[OF clock, of sid r] now(1) life r(1) window unfolding now_def config_at_parts by blast
    have s1: "res = Inr (Inr (authenticated (sr_user r)))" "s1 = s2"
      using more.hyps(1) s2(1) assms(2) by (auto simp: e in_rollback_tx elim!: transactsE)
    have "ok s1" using admission_effect[OF more.prems(1) _ s2(1)] s1(2) by (simp add: config_at_parts(1))
    moreover have "lifespan lookup s1 sid = Some (u, utc_datetime start, utc_datetime (min (now + idle_seconds ?l * SECOND)
        (start + absolute_max_age_seconds ?l * SECOND)))"
      using r(2,3) by (simp add: s1(2) s2(2) lifespan_def next_expiry_def)
    moreover have "start \<le> now" using now(2) more.prems(2) by simp
    ultimately have "\<forall>t res. Admits sid t res \<in> set es \<longrightarrow> (\<exists>user. res = Inr (Inr user) \<and> au_id user = u)"
      using more.IH[of now] rest more.prems(4) by simp
    then show ?thesis using r(2) by (auto simp: e s1(1) authenticated_def)
  qed
qed simp

end

section \<open>A host to run\<close>

text \<open>The in-memory host that knows \<open>u1\<close> and holds no session.\<close>

definition quiet_host :: host where
  "quiet_host = ((fst sample_host)\<lparr>mem_records := []\<rparr>, [])"

definition sample_system :: "int option \<Rightarrow> host host_system" where
  "sample_system cap = \<lparr>sy_stores = host_stores, sy_config = sample_config, sy_max_sessions = cap, sy_keeps_id_token = False,
     sy_admission = \<lparr>bound_issuer = py ''https://id.example'', login_group = EverySubject, admin_group = NoAdmins\<rparr>\<rparr>"

lemma quiet_host_ok: "host_ok quiet_host" "host_lookup quiet_host = Map.empty"
  by (auto simp: quiet_host_def sample_host_def host_ok_def mem_ok_def host_lookup_def mem_lookup_def)

lemma sample_system_parts:
  "sy_stores (sample_system cap) = host_stores" "sy_config (sample_system cap) = sample_config" "sy_max_sessions (sample_system cap) = cap"
  by (simp_all add: sample_system_def)

lemma sample_system_contract: "sign_in_contract (sy_stores (sample_system cap)) host_lookup host_account snd host_ok"
  unfolding sample_system_parts by (rule host.sign_in_contract_axioms)

lemma sample_signed_in:
  assumes "cap \<in> {None, Some 2}"
  shows "\<exists>sid h. write_sign_in host_stores sample_admitted (config_at (sample_system cap) 1000) None cap False quiet_host = (Inr sid, h)"
proof -
  have now: "whole_second_now (config_at (sample_system c) 1000) h = (Inr (1000 * SECOND), h)" for c and h :: host
    by (simp add: whole_second_now_def bindA_def Let_def truncate_rat_def in_calendar_def SECOND_def)
  have expiry: "renewed_expiry (cf_session_lifetime (config_at (sample_system c) 1000)) (1000 * SECOND) (1000 * SECOND) = Inr (4600 * SECOND)" for c
    by (simp add: sample_system_parts sample_config_def renewed_expiry_def datetime_add_def in_calendar_def Let_def SECOND_def)
  show ?thesis
    using assms by (auto simp: sample_admitted_def write_sign_in_def admit_account_def with_role_def host_defs on_memory_def mem_get_def
        mem_set_role_def quiet_host_def sample_host_def bindA_def Let_def claimant_of_identity_def require_held_lock_def now expiry
        mem_prune_overflow_def slice_from_def sorted_newest_first_def sessions_of_def liftR_def mem_create_def view_session_def
        simp del: config_at_parts)
qed

text \<open>A sign-in of \<open>u1\<close> at 1000 and a request of its session at 1500.\<close>

lemma sample_run:
  assumes "cap \<in> {None, Some 2}"
  shows "\<exists>sid h user h'. transacts (sample_system cap) quiet_host (SignsIn sample_admitted 1000 None (Inr sid)) h
    \<and> transacts (sample_system cap) h (Admits sid 1500 (Inr (Inr user))) h' \<and> au_id user = py ''u1''"
proof -
  let ?sys = "sample_system cap"
  obtain sid h where w: "write_sign_in host_stores sample_admitted (config_at ?sys 1000) None cap False quiet_host = (Inr sid, h)"
    using sample_signed_in[OF assms] by blast
  have "in_tx rollback_tx (write_sign_in (sy_stores ?sys) sample_admitted (config_at ?sys 1000) None (sy_max_sessions ?sys)
      (sy_keeps_id_token ?sys)) quiet_host = (Inr sid, h)"
    using w by (simp add: in_rollback_tx sample_system_def)
  then have first: "transacts ?sys quiet_host (SignsIn sample_admitted 1000 None (Inr sid)) h" by (rule transacts.signs_in)
  have clock: "\<forall>s. cf_wall_clock (config_at ?sys 1000) s = (Inr 1000, s)" "\<forall>n. cap = Some n \<longrightarrow> 1 \<le> n" using assms by (auto simp: ret_def)
  have life: "cf_session_lifetime (config_at ?sys 1500) = \<lparr>idle_seconds = 3600, absolute_max_age_seconds = 86400\<rparr>"
      "cf_session_lifetime (config_at ?sys 1000) = \<lparr>idle_seconds = 3600, absolute_max_age_seconds = 86400\<rparr>"
    by (simp_all add: sample_system_parts sample_config_def)
  from host.write_sign_in_effect[OF quiet_host_ok(1) clock w] obtain r where r: "host_lookup h sid = Some r"
      "ur_id (sr_user r) = oi_subject (al_identity sample_admitted)" "sr_created_at r = utc_datetime (truncate_rat 1000 * SECOND)"
      "sr_expires_at r = utc_datetime (truncate_rat 1000 * SECOND
        + min (idle_seconds (cf_session_lifetime (config_at ?sys 1000))) (absolute_max_age_seconds (cf_session_lifetime (config_at ?sys 1000))) * SECOND)"
    by blast
  have readings: "truncate_rat 1000 = 1000" "truncate_rat 1500 = 1500" by (simp_all add: truncate_rat_def)
  have window: "session_window (cf_session_lifetime (config_at ?sys 1500)) (truncate_rat 1500 * SECOND) r"
    unfolding session_window_def r(3,4) life readings by (simp add: SECOND_def)
  have "usable_now (truncate_rat 1500 * SECOND)" using sample_now[of 1500] by simp
  moreover have "cf_wall_clock (config_at ?sys 1500) h = (Inr 1500, h)" by (simp add: ret_def)
  moreover have "lifetime_ok (cf_session_lifetime (config_at ?sys 1500))" unfolding life by (rule sample_lifetime_ok)
  ultimately obtain h' where "admit_session sid (sessions host_stores) (config_at ?sys 1500) h = (Inr (Inr (authenticated (sr_user r))), h')"
    using session_contract.admit_admitted[OF host_session_contract, of "config_at ?sys 1500" h 1500 sid r] r(1) window
    by (auto simp: host_stores_def)
  then have "in_tx rollback_tx (admit_session sid (sessions (sy_stores ?sys)) (config_at ?sys 1500)) h = (Inr (Inr (authenticated (sr_user r))), h')"
    by (simp add: in_rollback_tx sample_system_parts)
  then have "transacts ?sys h (Admits sid 1500 (Inr (Inr (authenticated (sr_user r))))) h'" by (rule transacts.admits)
  moreover have "au_id (authenticated (sr_user r)) = py ''u1''" using r(2) by (simp add: authenticated_def sample_admitted_def)
  ultimately show ?thesis using first by blast
qed

section \<open>Properties\<close>

text \<open>C6. What no order of requests breaks, on any host that keeps its contracts and rolls a transaction back when
  it raises: an account never holds more sessions than the host's cap, at the end of any sequence of
  transactions (so after each of its steps) that starts within it, whatever sign-ins, logouts, admissions, refresh grants and failures it mixes.\<close>

theorem cap_holds_on_every_run:
  assumes contract: "sign_in_contract (sy_stores sys) lookup account events ok"
    and "sy_max_sessions sys = Some n" and "1 \<le> n" and "ok s" and "\<forall>u. card (owned lookup s u) \<le> nat n" and run: "runs sys s es s'"
  shows "\<forall>u. card (owned lookup s' u) \<le> nat n"
proof -
  note capped = sign_in_contract.capped_def[OF contract]
  have "sign_in_contract.capped lookup ok n s" unfolding capped using assms(4,5) by blast
  from sign_in_contract.runs_capped[OF contract run this refl assms(2,3)] show ?thesis unfolding capped by blast
qed

lemma cap_holds_on_every_run_witness:
  "\<exists>es h. runs (sample_system (Some 2)) quiet_host es h \<and> length es = 2 \<and> (\<forall>u. card (owned host_lookup h u) \<le> nat 2)"
proof -
  obtain sid h user h' where "transacts (sample_system (Some 2)) quiet_host (SignsIn sample_admitted 1000 None (Inr sid)) h"
      "transacts (sample_system (Some 2)) h (Admits sid 1500 (Inr (Inr user))) h'"
    using sample_run[of "Some 2"] by auto
  then have run: "runs (sample_system (Some 2)) quiet_host [SignsIn sample_admitted 1000 None (Inr sid), Admits sid 1500 (Inr (Inr user))] h'"
    by (simp only: runs_simps) blast
  have "\<forall>u. card (owned host_lookup quiet_host u) \<le> nat 2" by (simp add: owned_def owner_def quiet_host_ok(2))
  from cap_holds_on_every_run[OF sample_system_contract sample_system_parts(3) _ quiet_host_ok(1) this run]
  have "\<forall>u. card (owned host_lookup h' u) \<le> nat 2" by simp
  with run show ?thesis by (intro exI[of _ "[SignsIn sample_admitted 1000 None (Inr sid), Admits sid 1500 (Inr (Inr user))]"] exI[of _ h']) simp
qed

text \<open>C5. Every admission goes back to a sign-in. On a host that began without sessions and rolls a transaction back
  when it raises, however its transactions interleave, when a request is admitted to an account by a session then an earlier sign-in of that very
  account opened that session, no logout in its browser, no end of its subject's sessions and no sign-in
  that replaced it came between (a refresh grant or a renewal that was under way revives nothing), and the
  request came within the absolute age of that sign-in, at most a minute of clock drift before it.\<close>

theorem admission_goes_back_to_a_sign_in:
  assumes contract: "sign_in_contract (sy_stores sys) lookup account events ok"
    and cap: "\<forall>n. sy_max_sessions sys = Some n \<longrightarrow> 1 \<le> n" and "ok s" and "lookup s = Map.empty"
    and run: "runs sys s (es @ [Admits sid t (Inr (Inr user))]) s'"
  shows "\<exists>before who t0 replaced after. es = before @ SignsIn who t0 replaced (Inr sid) # after
    \<and> oi_subject (al_identity who) = au_id user \<and> (\<forall>e\<in>set after. \<not> ends_session e sid (au_id user))
    \<and> truncate_rat t0 * SECOND \<le> truncate_rat t * SECOND + 60 * SECOND
    \<and> truncate_rat t * SECOND \<le> truncate_rat t0 * SECOND + absolute_max_age_seconds (cf_session_lifetime (sy_config sys)) * SECOND"
proof -
  let ?l = "cf_session_lifetime (sy_config sys)"
  obtain s1 where before: "runs sys s es s1" and last: "transacts sys s1 (Admits sid t (Inr (Inr user))) s'"
    using run by (auto simp: runs_append)
  note accounted = sign_in_contract.accounted_for_def[OF contract]
  have "sign_in_contract.accounted_for lookup account ok ?l [] s"
    unfolding accounted using assms(3,4) by (simp add: lifespan_def)
  from sign_in_contract.runs_accounted[OF contract before this refl cap] have "ok s1"
    and opened: "\<And>k u c x. lifespan lookup s1 k = Some (u, c, x) \<Longrightarrow> opened_by es k u c" unfolding accounted by auto
  have admit: "admit_session sid (sessions (sy_stores sys)) (config_at sys t) s1 = (Inr (Inr user), s')"
    using last by (auto elim!: transactsE dest: committed_or_back)
  from sign_in_contract.admission_effect[OF contract \<open>ok s1\<close> config_at_parts(1) admit]
  obtain r where r: "lookup s1 sid = Some r" "user = authenticated (sr_user r)" "is_admitted ?l r (truncate_rat t * SECOND) = Inr True"
    by auto
  then have "opened_by es sid (au_id user) (sr_created_at r)" by (intro opened) (simp add: lifespan_def authenticated_def)
  then obtain before who t0 replaced after where "es = before @ SignsIn who t0 replaced (Inr sid) # after"
      "oi_subject (al_identity who) = au_id user" "sr_created_at r = utc_datetime (truncate_rat t0 * SECOND)"
      "\<forall>e\<in>set after. \<not> ends_session e sid (au_id user)"
    unfolding opened_by_def by blast
  with admitted_window[OF r(3)] show ?thesis by (intro exI[of _ before] exI[of _ who] exI[of _ t0] exI[of _ replaced] exI[of _ after]) simp
qed

lemma admission_goes_back_to_a_sign_in_witness:
  "\<exists>sid user who t0 replaced h. runs (sample_system None) quiet_host [SignsIn who t0 replaced (Inr sid), Admits sid 1500 (Inr (Inr user))] h
    \<and> oi_subject (al_identity who) = au_id user \<and> truncate_rat 1500 * SECOND \<le> truncate_rat t0 * SECOND + 86400 * SECOND"
proof -
  obtain sid h user h' where "transacts (sample_system None) quiet_host (SignsIn sample_admitted 1000 None (Inr sid)) h"
      "transacts (sample_system None) h (Admits sid 1500 (Inr (Inr user))) h'"
    using sample_run[of None] by auto
  then have run: "runs (sample_system None) quiet_host ([SignsIn sample_admitted 1000 None (Inr sid)] @ [Admits sid 1500 (Inr (Inr user))]) h'"
    by (simp only: append.simps runs_simps) blast
  have life: "absolute_max_age_seconds (cf_session_lifetime (sy_config (sample_system None))) = 86400"
    by (simp add: sample_system_parts sample_config_def)
  have cap: "\<forall>n. sy_max_sessions (sample_system None) = Some n \<longrightarrow> 1 \<le> n" by (simp add: sample_system_parts)
  from admission_goes_back_to_a_sign_in[OF sample_system_contract cap quiet_host_ok run, unfolded life]
  obtain before who t0 replaced after where "[SignsIn sample_admitted 1000 None (Inr sid)] = before @ SignsIn who t0 replaced (Inr sid) # after"
      "oi_subject (al_identity who) = au_id user" "truncate_rat 1500 * SECOND \<le> truncate_rat t0 * SECOND + 86400 * SECOND"
    by blast
  moreover from this(1) have "SignsIn who t0 replaced (Inr sid) = SignsIn sample_admitted 1000 None (Inr sid)"
    by (cases before) auto
  moreover have "runs (sample_system None) quiet_host [SignsIn sample_admitted 1000 None (Inr sid), Admits sid 1500 (Inr (Inr user))] h'"
    using run by (simp only: append.simps)
  ultimately show ?thesis by metis
qed

text \<open>C7. A session in use stays signed in. On a host that rolls a transaction back when it raises, after a
  sign-in that opened it, every request that presents the session
  is admitted to the account, in any sequence of transactions of this and other accounts, as long as none of
  them ends it (and the account does not sign in again where a cap could prune it), each request comes at
  most one idle period after the last and the absolute age has not passed.\<close>

theorem session_in_use_stays_signed_in:
  assumes contract: "sign_in_contract (sy_stores sys) lookup account events ok"
    and cap: "\<forall>n. sy_max_sessions sys = Some n \<longrightarrow> 1 \<le> n" and life: "lifetime_ok (cf_session_lifetime (sy_config sys))" and "ok s0"
    and opened: "transacts sys s0 (SignsIn who t0 replaced (Inr sid)) s" and run: "runs sys s es s'"
    and "\<forall>e\<in>set es. \<not> ends_session e sid (oi_subject (al_identity who))
      \<and> (sy_max_sessions sys = None \<or> \<not> signs_in_as e (oi_subject (al_identity who)))"
    and "used_regularly (cf_session_lifetime (sy_config sys)) (truncate_rat t0 * SECOND) sid (truncate_rat t0 * SECOND) es"
  shows "\<forall>t res. Admits sid t res \<in> set es \<longrightarrow> (\<exists>user. res = Inr (Inr user) \<and> au_id user = oi_subject (al_identity who))"
proof -
  let ?l = "cf_session_lifetime (sy_config sys)" and ?start = "truncate_rat t0 * SECOND"
  have written: "write_sign_in (sy_stores sys) who (config_at sys t0) replaced (sy_max_sessions sys) (sy_keeps_id_token sys) s0 = (Inr sid, s)"
    using opened by (auto elim!: transactsE dest: committed_or_back)
  have clock: "\<forall>s. cf_wall_clock (config_at sys t0) s = (Inr t0, s)" by (simp add: ret_def)
  from sign_in_contract.write_sign_in_effect[OF contract \<open>ok s0\<close> clock cap written, unfolded config_at_parts]
  obtain r where r: "ok s" "lookup s sid = Some r" "ur_id (sr_user r) = oi_subject (al_identity who)"
      "sr_created_at r = utc_datetime ?start"
      "sr_expires_at r = utc_datetime (?start + min (idle_seconds ?l) (absolute_max_age_seconds ?l) * SECOND)"
    by blast
  have "?start + min (idle_seconds ?l) (absolute_max_age_seconds ?l) * SECOND
      = min (?start + idle_seconds ?l * SECOND) (?start + absolute_max_age_seconds ?l * SECOND)"
    by (simp add: min_def SECOND_def)
  with r(2-5) have "lifespan lookup s sid = Some (oi_subject (al_identity who), utc_datetime ?start,
      utc_datetime (min (?start + idle_seconds ?l * SECOND) (?start + absolute_max_age_seconds ?l * SECOND)))"
    by (simp add: lifespan_def)
  from sign_in_contract.used_session_admitted[OF contract run refl cap life r(1) order_refl this assms(7,8)] show ?thesis .
qed

lemma session_in_use_stays_signed_in_witness:
  "\<exists>sid user h h'. transacts (sample_system None) quiet_host (SignsIn sample_admitted 1000 None (Inr sid)) h
    \<and> runs (sample_system None) h [Admits sid 1500 (Inr (Inr user))] h' \<and> au_id user = oi_subject (al_identity sample_admitted)"
proof -
  let ?sys = "sample_system None"
  obtain sid h user h' where steps: "transacts ?sys quiet_host (SignsIn sample_admitted 1000 None (Inr sid)) h"
      "transacts ?sys h (Admits sid 1500 (Inr (Inr user))) h'"
    using sample_run[of None] by auto
  then have run: "runs ?sys h [Admits sid 1500 (Inr (Inr user))] h'" by (simp only: runs_simps) blast
  have lifetime: "cf_session_lifetime (sy_config ?sys) = \<lparr>idle_seconds = 3600, absolute_max_age_seconds = 86400\<rparr>"
    by (simp add: sample_system_parts sample_config_def)
  have life: "lifetime_ok (cf_session_lifetime (sy_config ?sys))" unfolding lifetime by (rule sample_lifetime_ok)
  have cap: "\<forall>n. sy_max_sessions ?sys = Some n \<longrightarrow> 1 \<le> n" by (simp add: sample_system_parts)
  have spared: "\<forall>e\<in>set [Admits sid 1500 (Inr (Inr user))]. \<not> ends_session e sid (oi_subject (al_identity sample_admitted))
      \<and> (sy_max_sessions ?sys = None \<or> \<not> signs_in_as e (oi_subject (al_identity sample_admitted)))"
    by simp
  have used: "used_regularly (cf_session_lifetime (sy_config ?sys)) (truncate_rat 1000 * SECOND) sid (truncate_rat 1000 * SECOND)
      [Admits sid 1500 (Inr (Inr user))]"
    using sample_now[of 1500] by (simp add: lifetime truncate_rat_def SECOND_def Let_def)
  from session_in_use_stays_signed_in[OF sample_system_contract cap life quiet_host_ok(1) steps(1) run spared used]
  have "au_id user = oi_subject (al_identity sample_admitted)" by auto
  with steps(1) run show ?thesis by blast
qed

end
