(* ===== verification/Spec2Isabelle.thy ===== *)
theory Spec2Isabelle
  imports RateGate CsrfGate SecurityHeaders BodySize Csp SessionGate BearerAdmission SignInFlow Stack ServiceCallers RedisLimit Lifecycle
begin

text \<open>
  A verification of \<open>webauth\<close> (\<open>src/src/webauth\<close>), a Python library that signs the users of a web
  application in with OpenID Connect, keeps their sessions, and guards the application's routes with
  ASGI middleware.

  \<^bold>\<open>The program.\<close> A host application configures the library once (\<open>config.py\<close>, \<open>policies.py\<close>,
  \<open>admission.py\<close>), supplies its stores, its transaction, its clock and its rate limiter as ports
  (\<open>ports.py\<close>), and installs one stack of middleware (\<open>middleware/\<close>): security headers outside
  everything, then the body limit, the rate limit, the bearer gate, the origin check and the session
  gate. The sign-in routes (\<open>sign_in_routes.py\<close>) send a browser to the issuer, take its callback, decide
  the admission, and write account, session and audit in the host's transaction (\<open>oidc_login.py\<close>). The
  relying party (\<open>oidc/\<close>) speaks to the issuer and verifies its tokens (\<open>jwt_verification.py\<close>,
  \<open>https_client.py\<close>, \<open>oidc_transport.py\<close>). The route dependencies (\<open>dependencies.py\<close>) read from a signed cookie
  (\<open>cookies.py\<close>) or a gate's record who makes a request. \<open>service_callers.py\<close> judges the two tokens by
  which an app acts for a person at a service.

  \<^bold>\<open>How it is modelled.\<close> \<open>Prelude\<close> fixes the vocabulary. Text is the list of its code points (\<open>pystr\<close>), so
  that lone surrogates are texts too; a Python value of unchecked type is a \<open>pyobj\<close>. A function that may
  raise answers \<open>exn + 'a\<close>. An operation on the host is an \<open>act\<close>, a function of the host's state \<open>'s\<close>
  to a result and the state left, also when it raises; the state's type is a parameter, so each theorem
  holds over every host. A refusal that is a value in the code is the left of an inner sum. Clocks are
  rational numbers and datetimes whole microseconds. An ASGI application is a process that may
  receive, send and touch the state for ever, a codatatype (\<open>Asgi\<close>); \<open>run n\<close> lets it take \<open>n\<close> steps before a
  server, and a theorem for every \<open>n\<close> covers processes that never end. No fuel stands for a loop of the
  code: its loops are structural recursions, and where a result is claimed it is claimed to be reached.

  \<^bold>\<open>The theories.\<close>
  \<^item> \<open>Prelude\<close>, \<open>Text\<close>, \<open>Encoding\<close>, \<open>Sha256\<close>, \<open>Urls\<close>, \<open>Addresses\<close>: values and effects, and what the code uses of
    \<open>str\<close>, \<open>bytes\<close>, UTF-8, Base64, \<open>hmac\<close>, \<open>urllib.parse\<close> and \<open>ipaddress\<close>, with their inverse laws.
  \<^item> \<open>Validation\<close>, \<open>Config\<close>, \<open>Policies\<close>, \<open>Csp\<close>, \<open>Admission\<close>, \<open>ClientConfig\<close>: \<open>_validation.py\<close>, \<open>config.py\<close>, \<open>policies.py\<close>,
    \<open>admission.py\<close>, \<open>oidc/_client_config.py\<close>; each constructor with its checks, each reader.
  \<^item> \<open>Ports\<close>, \<open>HostStores\<close>, \<open>SignInStores\<close>: \<open>ports.py\<close> as records of state-passing operations; what the
    library relies on of a host as the locales \<open>session_contract\<close>, \<open>account_contract\<close> and
    \<open>sign_in_contract\<close>, interpreted on the in-memory stores of the repository's tests.
  \<^item> \<open>Connection\<close>, \<open>Proxies\<close>, \<open>Origins\<close>, \<open>Paths\<close>, \<open>MediaTypes\<close>, \<open>Responses\<close>, \<open>Cookies\<close>, \<open>Sessions\<close>: the request and its
    readers, \<open>proxies.py\<close>, \<open>_origins.py\<close>, \<open>_paths.py\<close>, \<open>_media_types.py\<close>, \<open>cookies.py\<close>, \<open>dependencies.py\<close>.
  \<^item> \<open>RateLimit\<close>, \<open>RedisLimit\<close>: both backends of \<open>rate_limit.py\<close>, against one reference counter; the contract of
    a backend is the locale \<open>sliding_window\<close>, Redis's documented commands the locale \<open>redis_server\<close>.
  \<^item> \<open>Asgi\<close>, \<open>SecurityHeaders\<close>, \<open>BodySize\<close>, \<open>RateGate\<close>, \<open>BearerGate\<close>, \<open>CsrfGate\<close>, \<open>SessionGate\<close>, \<open>Stack\<close>: \<open>middleware/\<close>, one
    theory per module; \<open>BearerAdmission\<close> holds what the bearer gate's admissions stand for.
  \<^item> \<open>HttpsClient\<close>, \<open>Jwt\<close>, \<open>RelyingParty\<close>, \<open>Logins\<close>: the outbound requests, the verifier with its key-set cache,
    the relying party, and what its answers establish.
  \<^item> \<open>OidcLogin\<close>, \<open>SignIn\<close>, \<open>SignOut\<close>, \<open>SignInRoutes\<close>, \<open>SignInFlow\<close>, \<open>EndSessionPage\<close>: \<open>oidc_login.py\<close>,
    \<open>sign_in_routes.py\<close>, \<open>_end_session_page.py\<close>; what a sign-in, a logout and a back-channel logout leave in the
    host, and the callback from its query to the stored session.
  \<^item> \<open>Lifecycle\<close>: the transactions of \<open>oidc_login.py\<close> and \<open>dependencies.py\<close> on one host in any order, as a labelled
    step relation (\<open>transacts\<close>) and its sequences (\<open>runs\<close>), with the invariants every sequence keeps.
  \<^item> \<open>ServiceCallers\<close>: \<open>service_callers.py\<close>, against the table of \<open>docs/host-contract.md\<close>.

  \<^bold>\<open>What is shown.\<close> Who gets in: a login that completes is proven by the issuer for the pending login of
  this browser, a sign-in writes exactly one session of the admitted subject with the derived role, a
  request behind a gate carries a signed cookie of a stored session inside its window or a verified
  token of an admitted holder, and a route is told no other account than the gate's. Who is kept out:
  forged requests, replayed or foreign callbacks, tokens of other audiences, spoofed proxy headers and
  oversized bodies, each with the exact answer and the state it leaves. What always holds: the policy's
  headers on every response start, the deletion of a used pending login, spaced key-set fetches, the
  budgets of the rate limit over both backends, and, in any interleaving of a host's transactions, the
  cap on an account's sessions, the sign-in behind every admission with nothing that ended the session
  since, and the admission of a session in use until its absolute age, all three on a host whose
  transactions roll back when they raise (\<open>rollback_tx\<close>; \<open>ports.py\<close> allows others). And that the stack
  answers whenever the application does, and decides a request once, in the one order. The theorems on
  the token verifier's runs (\<open>world_verifier\<close>) take its calls one after the other, with clocks that stand
  still during one call. A theorem over a contract names the contract as
  its premise, and its witness discharges it with the interpretation on the in-memory host.

  \<^bold>\<open>Parameters.\<close> Code outside \<open>src\<close> is an argument: PyJWT, cryptography and the JSON decoder (\<open>jwt_library\<close>),
  urllib3's transport, Starlette's cookie parser, \<open>request.url\<close> and \<open>add_middleware\<close>, the Redis commands,
  the Unicode categories, the host's stores, clocks and hooks. Lower-casing is modelled on Latin-1 and
  ASCII, where the code compares; SHA-256 is computed, its strength is nowhere assumed.

  \<^bold>\<open>Not modelled.\<close> Log lines, the text of error messages and reprs; cancellation, threads and the worker pool
  (a worker is the call it makes; a lock makes an operation atomic), and hosts whose transactions are not
  serializable; the duration of a send, so that the body limit's deadline on a response start is a send that
  fails; collection arguments other than a frozenset, a tuple or a list of texts, or one string; the precision of
  Redis's EXPIRE; FastAPI's wiring of dependencies and
  routes; the TLS context, sockets and pool of the https client beneath its transport; the rounding of
  floating-point clocks; the package's re-exports.
\<close>

end
